(* ===== verification/Herald_Prelude.thy ===== *)
theory Herald_Prelude
  imports Main "HOL-Library.Word" "HOL-Library.Sublist"
begin

text \<open>
  The shared base of the development: Go's error values, the outcome of a Go function that
  talks to the outside world (a value, an error, or a run-time panic), the combinators the
  translated functions are composed of, and the Hoare-style rules the component proofs use.

  A Go function \<open>f(ctx, ..., client) (T, error)\<close> is a HOL function into \<open>('w, T) go\<close>, where
  \<open>'w\<close> is the state of everything outside the process (the NetBox instance, the Kubernetes
  API server, the clock). Nothing is assumed about \<open>'w\<close> here.
\<close>

section \<open>Go values\<close>

text \<open>
  An error made by \<open>fmt.Errorf\<close> is kept as its format string and its arguments, so two
  errors are equal exactly when they were built by the same call; the rendering of the
  format is not modelled. \<open>StatusNotFound\<close> is the Kubernetes API's NotFound status,
  \<open>Opaque\<close> any other error an external call returns.
\<close>

datatype error =
    Opaque string
  | StatusNotFound string
  | Errorf string "arg list"
and arg = AStr string | AInt int | AErr error

text \<open>\<open>apierrors.IsNotFound\<close> looks through the chain of wrapped errors.\<close>

fun IsNotFound :: "error \<Rightarrow> bool" and wraps_NotFound :: "arg \<Rightarrow> bool" where
  "IsNotFound (Opaque _) = False"
| "IsNotFound (StatusNotFound _) = True"
| "IsNotFound (Errorf _ args) = list_ex wraps_NotFound args"
| "wraps_NotFound (AStr _) = False"
| "wraps_NotFound (AInt _) = False"
| "wraps_NotFound (AErr e) = IsNotFound e"

text \<open>A value decoded from JSON into Go's \<open>any\<close>.\<close>

datatype any =
    GNil
  | GBool bool
  | GNum int
  | GString string
  | GSlice "any list"
  | GMap "(string \<times> any) list"

text \<open>The type assertions \<open>v.(map[string]any)\<close> and \<open>v.(string)\<close>, in their two-value form.\<close>

fun as_map :: "any \<Rightarrow> (string \<times> any) list option" where
  "as_map (GMap m) = Some m"
| "as_map _ = None"

fun as_string :: "any \<Rightarrow> string option" where
  "as_string (GString s) = Some s"
| "as_string _ = None"

section \<open>Outcomes and the combinators of the translation\<close>

datatype 'a outcome = Ok 'a | Err error | Panic

type_synonym ('w, 'a) go = "'w \<Rightarrow> 'a outcome \<times> 'w"

definition ret :: "'a \<Rightarrow> ('w, 'a) go" where
  "ret x = (\<lambda>w. (Ok x, w))"

definition fail :: "error \<Rightarrow> ('w, 'a) go" where
  "fail e = (\<lambda>w. (Err e, w))"

definition panic :: "('w, 'a) go" where
  "panic = (\<lambda>w. (Panic, w))"

text \<open>
  \<open>x, err := m; if err != nil { h } ; k\<close>: the handler \<open>h\<close> returns early, a panic unwinds
  past it.
\<close>

definition if_err :: "('w, 'a) go \<Rightarrow> (error \<Rightarrow> ('w, 'b) go) \<Rightarrow> ('a \<Rightarrow> ('w, 'b) go) \<Rightarrow> ('w, 'b) go" where
  "if_err m h k = (\<lambda>w. case m w of
       (Ok x, w') \<Rightarrow> k x w'
     | (Err e, w') \<Rightarrow> h e w'
     | (Panic, w') \<Rightarrow> (Panic, w'))"

text \<open>\<open>if err != nil { return err }\<close>.\<close>

definition bind :: "('w, 'a) go \<Rightarrow> ('a \<Rightarrow> ('w, 'b) go) \<Rightarrow> ('w, 'b) go" where
  "bind m k = if_err m fail k"

text \<open>\<open>if err != nil { return fmt.Errorf(..., err) }\<close>.\<close>

definition wrap_err :: "(error \<Rightarrow> error) \<Rightarrow> ('w, 'a) go \<Rightarrow> ('w, 'a) go" where
  "wrap_err f m = if_err m (\<lambda>e. fail (f e)) ret"

text \<open>\<open>x, err := m\<close> with the error kept as a value.\<close>

definition attempt :: "('w, 'a) go \<Rightarrow> ('w, error + 'a) go" where
  "attempt m = if_err m (\<lambda>e. ret (Inl e)) (\<lambda>x. ret (Inr x))"

text \<open>Dereferencing a pointer: nil panics.\<close>

definition deref :: "'a option \<Rightarrow> ('w, 'a) go" where
  "deref p = (case p of None \<Rightarrow> panic | Some x \<Rightarrow> ret x)"

text \<open>\<open>for _, x := range xs { if err := f(x); err != nil { return err } }\<close>.\<close>

fun for_each :: "'a list \<Rightarrow> ('a \<Rightarrow> ('w, unit) go) \<Rightarrow> ('w, unit) go" where
  "for_each [] f = ret ()"
| "for_each (x # xs) f = bind (f x) (\<lambda>_. for_each xs f)"

subsection \<open>Equations\<close>

named_theorems go_simps \<open>evaluation of the combinators at a state\<close>

lemma ret_apply [go_simps]: "ret x w = (Ok x, w)"
  by (simp add: ret_def)

lemma fail_apply [go_simps]: "fail e w = (Err e, w)"
  by (simp add: fail_def)

lemma panic_apply [go_simps]: "panic w = (Panic, w)"
  by (simp add: panic_def)

lemma if_err_apply [go_simps]:
  "m w = (Ok x, w') \<Longrightarrow> if_err m h k w = k x w'"
  "m w = (Err e, w') \<Longrightarrow> if_err m h k w = h e w'"
  "m w = (Panic, w') \<Longrightarrow> if_err m h k w = (Panic, w')"
  by (simp_all add: if_err_def)

lemma bind_apply [go_simps]:
  "m w = (Ok x, w') \<Longrightarrow> bind m k w = k x w'"
  "m w = (Err e, w') \<Longrightarrow> bind m k w = (Err e, w')"
  "m w = (Panic, w') \<Longrightarrow> bind m k w = (Panic, w')"
  by (simp_all add: bind_def if_err_def fail_def)

lemma wrap_err_apply [go_simps]:
  "m w = (Ok x, w') \<Longrightarrow> wrap_err f m w = (Ok x, w')"
  "m w = (Err e, w') \<Longrightarrow> wrap_err f m w = (Err (f e), w')"
  "m w = (Panic, w') \<Longrightarrow> wrap_err f m w = (Panic, w')"
  by (simp_all add: wrap_err_def if_err_def fail_def ret_def)

lemma attempt_apply [go_simps]:
  "m w = (Ok x, w') \<Longrightarrow> attempt m w = (Ok (Inr x), w')"
  "m w = (Err e, w') \<Longrightarrow> attempt m w = (Ok (Inl e), w')"
  "m w = (Panic, w') \<Longrightarrow> attempt m w = (Panic, w')"
  by (simp_all add: attempt_def if_err_def ret_def)

lemma deref_simps [simp]:
  "deref None = panic" "deref (Some x) = ret x"
  by (simp_all add: deref_def)

lemma if_err_ret [simp]: "if_err (ret x) h k = k x"
  by (simp add: if_err_def ret_def fun_eq_iff)

lemma if_err_fail [simp]: "if_err (fail e) h k = h e"
  by (simp add: if_err_def fail_def fun_eq_iff)

lemma if_err_panic [simp]: "if_err panic h k = panic"
  by (simp add: if_err_def panic_def fun_eq_iff)

lemma bind_ret [simp]: "bind (ret x) k = k x"
  by (simp add: bind_def)

lemma bind_fail [simp]: "bind (fail e) k = fail e"
  by (simp add: bind_def)

lemma bind_panic [simp]: "bind panic k = panic"
  by (simp add: bind_def)

lemma bind_ret_right [simp]: "bind m ret = m"
  by (auto simp: bind_def if_err_def fail_def ret_def fun_eq_iff split: outcome.splits prod.splits)

lemma bind_assoc: "bind (bind m f) g = bind m (\<lambda>x. bind (f x) g)"
  by (auto simp: bind_def if_err_def fail_def fun_eq_iff split: outcome.splits prod.splits)

lemma if_err_attempt: "if_err m h k = bind (attempt m) (\<lambda>r. case r of Inl e \<Rightarrow> h e | Inr x \<Rightarrow> k x)"
  by (auto simp: bind_def attempt_def if_err_def fail_def ret_def fun_eq_iff
      split: outcome.splits prod.splits)

lemma for_each_append: "for_each (xs @ ys) f = bind (for_each xs f) (\<lambda>_. for_each ys f)"
  by (induction xs) (simp_all add: bind_assoc)

subsection \<open>Inversion of successful runs\<close>

lemma bind_OkE:
  assumes "bind m k w = (Ok y, w'')"
  obtains x w' where "m w = (Ok x, w')" and "k x w' = (Ok y, w'')"
  using assms by (auto simp: bind_def if_err_def fail_def split: outcome.splits prod.splits)

lemma if_err_OkE:
  assumes "if_err m h k w = (Ok y, w'')"
  obtains (ok) x w' where "m w = (Ok x, w')" and "k x w' = (Ok y, w'')"
  | (err) e w' where "m w = (Err e, w')" and "h e w' = (Ok y, w'')"
  using assms by (auto simp: if_err_def split: outcome.splits prod.splits)

lemma wrap_err_OkE:
  assumes "wrap_err f m w = (Ok y, w')"
  obtains "m w = (Ok y, w')"
  using assms by (auto simp: wrap_err_def if_err_def fail_def ret_def split: outcome.splits prod.splits)

lemma ret_OkE:
  assumes "ret x w = (Ok y, w')"
  obtains "y = x" and "w' = w"
  using assms by (auto simp: ret_def)

lemma fail_OkE: "fail e w = (Ok y, w') \<Longrightarrow> P"
  by (simp add: fail_def)

section \<open>Triples\<close>

text \<open>
  \<open>triple P m Q E\<close>: from a state satisfying \<open>P\<close>, a run of \<open>m\<close> that returns a value ends
  with \<open>Q\<close>, one that returns an error ends with \<open>E\<close>, and none panics. All runs end: the
  functions are total.
\<close>

definition triple ::
    "('w \<Rightarrow> bool) \<Rightarrow> ('w, 'a) go \<Rightarrow> ('a \<Rightarrow> 'w \<Rightarrow> bool) \<Rightarrow> (error \<Rightarrow> 'w \<Rightarrow> bool) \<Rightarrow> bool" where
  "triple P m Q E \<longleftrightarrow> (\<forall>w. P w \<longrightarrow> (case m w of
       (Ok x, w') \<Rightarrow> Q x w' | (Err e, w') \<Rightarrow> E e w' | (Panic, w') \<Rightarrow> False))"

named_theorems triple_rules \<open>structural rules for triples\<close>

lemma tripleI:
  assumes "\<And>w x w'. P w \<Longrightarrow> m w = (Ok x, w') \<Longrightarrow> Q x w'"
    and "\<And>w e w'. P w \<Longrightarrow> m w = (Err e, w') \<Longrightarrow> E e w'"
    and "\<And>w w'. P w \<Longrightarrow> m w = (Panic, w') \<Longrightarrow> False"
  shows "triple P m Q E"
  unfolding triple_def
proof (intro allI impI)
  fix w
  assume "P w"
  then show "case m w of (Ok x, w') \<Rightarrow> Q x w' | (Err e, w') \<Rightarrow> E e w' | (Panic, w') \<Rightarrow> False"
    using assms[of w] by (cases "m w"; cases "fst (m w)") auto
qed

lemma triple_OkD: "triple P m Q E \<Longrightarrow> P w \<Longrightarrow> m w = (Ok x, w') \<Longrightarrow> Q x w'"
  by (fastforce simp: triple_def)

lemma triple_ErrD: "triple P m Q E \<Longrightarrow> P w \<Longrightarrow> m w = (Err e, w') \<Longrightarrow> E e w'"
  by (fastforce simp: triple_def)

lemma triple_PanicD: "triple P m Q E \<Longrightarrow> P w \<Longrightarrow> m w = (Panic, w') \<Longrightarrow> False"
  by (fastforce simp: triple_def)

lemma triple_no_panic: "triple P m Q E \<Longrightarrow> P w \<Longrightarrow> fst (m w) \<noteq> Panic"
  by (cases "m w") (auto dest: triple_PanicD)

lemma triple_at:
  assumes "triple P m Q E" and "P w" and "fst (m w) = Ok x"
  shows "fst (m w) = Ok x \<and> Q x (snd (m w))"
  using triple_OkD[OF assms(1,2)] assms(3) by (cases "m w") auto

lemma triple_weaken:
  assumes "triple P' m Q' E'" and "\<And>w. P w \<Longrightarrow> P' w"
    and "\<And>x w. Q' x w \<Longrightarrow> Q x w" and "\<And>e w. E' e w \<Longrightarrow> E e w"
  shows "triple P m Q E"
  using assms by (fastforce simp: triple_def split: outcome.splits prod.splits)

lemma triple_post:
  assumes "triple P m Q' E'" and "\<And>x w. Q' x w \<Longrightarrow> Q x w" and "\<And>e w. E' e w \<Longrightarrow> E e w"
  shows "triple P m Q E"
  using assms(1) by (rule triple_weaken) (use assms in auto)

lemma triple_conj:
  assumes "triple P m Q E" and "triple P' m Q' E'"
  shows "triple (\<lambda>w. P w \<and> P' w) m (\<lambda>x w. Q x w \<and> Q' x w) (\<lambda>e w. E e w \<and> E' e w)"
  using assms by (fastforce simp: triple_def split: outcome.splits prod.splits)

lemma triple_pre_cond: "(A \<Longrightarrow> triple P m Q E) \<Longrightarrow> triple (\<lambda>w. A \<and> P w) m Q E"
  by (auto simp: triple_def)

lemma triple_ret [triple_rules]: "(\<And>w. P w \<Longrightarrow> Q x w) \<Longrightarrow> triple P (ret x) Q E"
  by (simp add: triple_def ret_def)

lemma triple_fail [triple_rules]: "(\<And>w. P w \<Longrightarrow> E e w) \<Longrightarrow> triple P (fail e) Q E"
  by (simp add: triple_def fail_def)

lemma triple_if_err:
  assumes "triple P m R S" and "\<And>x. triple (R x) (k x) Q E" and "\<And>e. triple (S e) (h e) Q E"
  shows "triple P (if_err m h k) Q E"
  using assms by (fastforce simp: triple_def if_err_def split: outcome.splits prod.splits)

lemma triple_bind:
  assumes "triple P m R E" and "\<And>x. triple (R x) (k x) Q E"
  shows "triple P (bind m k) Q E"
  unfolding bind_def by (rule triple_if_err[OF assms]) (rule triple_fail)

text \<open>A step after which the state is one of several, \<open>view w = u\<close> for some \<open>u\<close> with \<open>F x u\<close>.\<close>

lemma triple_bind_some:
  assumes "triple P m (\<lambda>x w. F x (view w)) E"
    and "\<And>x u. F x u \<Longrightarrow> triple (\<lambda>w. view w = u) (k x) Q E"
  shows "triple P (bind m k) Q E"
  by (rule triple_bind[OF assms(1)]) (use assms(2) in \<open>fastforce simp: triple_def\<close>)

text \<open>A step that only finds something out: what it found holds from there on.\<close>

lemma triple_bind_fact:
  assumes "triple P m (\<lambda>x w. P w \<and> F x) E" and "\<And>x. F x \<Longrightarrow> triple P (k x) Q E"
  shows "triple P (bind m k) Q E"
proof (rule triple_bind[OF assms(1)])
  fix x
  have "triple (\<lambda>w. F x \<and> P w) (k x) Q E" by (rule triple_pre_cond) (rule assms(2))
  then show "triple (\<lambda>w. P w \<and> F x) (k x) Q E" by (rule triple_weaken) simp_all
qed

lemma triple_wrap_err:
  assumes "triple P m Q (\<lambda>e. E (f e))"
  shows "triple P (wrap_err f m) Q E"
  unfolding wrap_err_def by (rule triple_if_err[OF assms]) (rule triple_ret triple_fail; assumption)+

lemma triple_attempt:
  assumes "triple P m (\<lambda>x. Q (Inr x)) (\<lambda>e. Q (Inl e))"
  shows "triple P (attempt m) Q E"
  unfolding attempt_def by (rule triple_if_err[OF assms]) (rule triple_ret; assumption)+

lemma triple_deref: "(\<And>w. P w \<Longrightarrow> p \<noteq> None) \<Longrightarrow> (\<And>x w. p = Some x \<Longrightarrow> P w \<Longrightarrow> Q x w) \<Longrightarrow>
    triple P (deref p) Q E"
  by (cases p) (auto simp: triple_def ret_def panic_def)

lemma triple_for_each:
  assumes "\<And>x. x \<in> set xs \<Longrightarrow> triple P (f x) (\<lambda>_. P) E"
  shows "triple P (for_each xs f) (\<lambda>_. P) E"
  using assms
proof (induction xs)
  case Nil
  then show ?case by (auto intro: triple_ret)
next
  case (Cons x xs)
  then show ?case by (auto intro!: triple_bind)
qed

text \<open>A loop that establishes something for every element it has passed.\<close>

lemma triple_for_each_done:
  assumes "\<And>ys x zs. xs = ys @ x # zs \<Longrightarrow> triple (I ys) (f x) (\<lambda>_. I (ys @ [x])) E"
  shows "triple (I []) (for_each xs f) (\<lambda>_. I xs) E"
proof -
  have "triple (I ys) (for_each zs f) (\<lambda>_. I xs) E" if "xs = ys @ zs" for ys zs
    using that
  proof (induction zs arbitrary: ys)
    case Nil
    then show ?case by (auto intro: triple_ret)
  next
    case (Cons x zs)
    have "triple (I ys) (f x) (\<lambda>_. I (ys @ [x])) E"
      by (rule assms[OF Cons.prems])
    moreover have "triple (I (ys @ [x])) (for_each zs f) (\<lambda>_. I xs) E"
      by (rule Cons.IH) (simp add: Cons.prems)
    ultimately show ?case by (auto intro: triple_bind)
  qed
  from this[of "[]" xs] show ?thesis by simp
qed

section \<open>Invariants of the world\<close>

text \<open>\<open>m\<close> keeps \<open>I\<close>, whatever it returns, and does not panic.\<close>

definition keeps :: "('w \<Rightarrow> bool) \<Rightarrow> ('w, 'a) go \<Rightarrow> bool" where
  "keeps I m \<longleftrightarrow> triple I m (\<lambda>_. I) (\<lambda>_. I)"

lemma keeps_view:
  assumes "\<And>v. keeps (\<lambda>w. view w = v) m" and "m w = (r, w')"
  shows "view w' = view w"
  using assms(1)[of "view w"] assms(2) by (cases r) (auto simp: keeps_def triple_def)

named_theorems keeps_rules \<open>invariance of the combinators\<close>

lemma keepsD: "keeps I m \<Longrightarrow> triple I m (\<lambda>_. I) (\<lambda>_. I)"
  by (simp add: keeps_def)

lemma keeps_triple: "triple I m Q (\<lambda>_. I) \<Longrightarrow> (\<And>x w. Q x w \<Longrightarrow> I w) \<Longrightarrow> keeps I m"
  unfolding keeps_def by (rule triple_post)

lemma keeps_ret [keeps_rules]: "keeps I (ret x)"
  by (simp add: keeps_def triple_ret)

lemma keeps_fail [keeps_rules]: "keeps I (fail e)"
  by (simp add: keeps_def triple_fail)

lemma keeps_if_err [keeps_rules]:
  "keeps I m \<Longrightarrow> (\<And>e. keeps I (h e)) \<Longrightarrow> (\<And>x. keeps I (k x)) \<Longrightarrow> keeps I (if_err m h k)"
  unfolding keeps_def by (rule triple_if_err)

lemma keeps_bind [keeps_rules]: "keeps I m \<Longrightarrow> (\<And>x. keeps I (k x)) \<Longrightarrow> keeps I (bind m k)"
  unfolding keeps_def by (rule triple_bind)

lemma keeps_wrap_err [keeps_rules]: "keeps I m \<Longrightarrow> keeps I (wrap_err f m)"
  unfolding keeps_def by (rule triple_wrap_err)

lemma keeps_attempt [keeps_rules]: "keeps I m \<Longrightarrow> keeps I (attempt m)"
  unfolding keeps_def by (rule triple_attempt)

lemma keeps_OkD: "keeps I m \<Longrightarrow> I w \<Longrightarrow> m w = (Ok x, w') \<Longrightarrow> I w'"
  unfolding keeps_def by (rule triple_OkD)

lemma keeps_for_each [keeps_rules]: "(\<And>x. x \<in> set xs \<Longrightarrow> keeps I (f x)) \<Longrightarrow> keeps I (for_each xs f)"
  unfolding keeps_def by (rule triple_for_each)

lemma keeps_if [keeps_rules]: "(b \<Longrightarrow> keeps I m) \<Longrightarrow> (\<not> b \<Longrightarrow> keeps I n) \<Longrightarrow> keeps I (if b then m else n)"
  by simp

lemma keeps_option [keeps_rules]:
  "(p = None \<Longrightarrow> keeps I m) \<Longrightarrow> (\<And>x. p = Some x \<Longrightarrow> keeps I (n x)) \<Longrightarrow>
   keeps I (case p of None \<Rightarrow> m | Some x \<Rightarrow> n x)"
  by (cases p) simp_all

lemma keeps_sum [keeps_rules]:
  "(\<And>e. r = Inl e \<Longrightarrow> keeps I (m e)) \<Longrightarrow> (\<And>x. r = Inr x \<Longrightarrow> keeps I (n x)) \<Longrightarrow>
   keeps I (case r of Inl e \<Rightarrow> m e | Inr x \<Rightarrow> n x)"
  by (cases r) simp_all

lemma keeps_prod [keeps_rules]: "keeps I (f (fst p) (snd p)) \<Longrightarrow> keeps I (case p of (a, b) \<Rightarrow> f a b)"
  by (cases p) simp

text \<open>A step whose result satisfies \<open>F\<close>.\<close>

lemma keeps_bind_fact:
  assumes "triple I m (\<lambda>x w. I w \<and> F x) (\<lambda>_. I)" and "\<And>x. F x \<Longrightarrow> keeps I (k x)"
  shows "keeps I (bind m k)"
  using assms unfolding keeps_def by (rule triple_bind_fact)

lemma keeps_if_err_fact:
  assumes m: "triple I m (\<lambda>x w. I w \<and> F x) (\<lambda>_. I)" and h: "\<And>e. keeps I (h e)" and k: "\<And>x. F x \<Longrightarrow> keeps I (k x)"
  shows "keeps I (if_err m h k)"
  unfolding keeps_def
proof (rule triple_if_err[OF m _ keepsD[OF h]])
  fix x
  have "triple (\<lambda>w. F x \<and> I w) (k x) (\<lambda>_. I) (\<lambda>_. I)" by (rule triple_pre_cond) (rule keepsD[OF k])
  then show "triple (\<lambda>w. I w \<and> F x) (k x) (\<lambda>_. I) (\<lambda>_. I)" by (rule triple_weaken) simp_all
qed

section \<open>Lists and strings\<close>

lemma find_Some_set: "List.find P xs = Some x \<Longrightarrow> x \<in> set xs \<and> P x"
  by (auto simp: find_Some_iff)

lemma find_None_all: "List.find P xs = None \<longleftrightarrow> (\<forall>x\<in>set xs. \<not> P x)"
  by (auto simp: find_None_iff)

text \<open>The first separator of a string is found at the same place from either reading.\<close>

lemma append_sep_eq:
  assumes "c \<notin> set xs" and "c \<notin> set ys" and "xs @ c # us = ys @ c # vs"
  shows "xs = ys \<and> us = vs"
  using assms
proof (induction xs arbitrary: ys)
  case Nil
  then show ?case by (cases ys) auto
next
  case (Cons x xs)
  then show ?case by (cases ys) auto
qed

lemma two_seps_eq:
  assumes "c \<notin> set xs" "c \<notin> set ys" "c \<notin> set us" "c \<notin> set vs"
  shows "xs @ c # ys @ c # as = us @ c # vs @ c # bs \<longleftrightarrow> xs = us \<and> ys = vs \<and> as = bs"
proof
  assume eq: "xs @ c # ys @ c # as = us @ c # vs @ c # bs"
  have "xs = us \<and> ys @ c # as = vs @ c # bs" by (rule append_sep_eq[OF assms(1,3) eq])
  moreover from this have "ys = vs \<and> as = bs" by (intro append_sep_eq[OF assms(2,4)]) (rule conjunct2)
  ultimately show "xs = us \<and> ys = vs \<and> as = bs" by blast
qed simp

lemma prefix_sep:
  assumes "c \<notin> set xs" and "c \<notin> set ys"
  shows "prefix (xs @ [c]) (ys @ c # vs) \<longleftrightarrow> xs = ys"
proof
  assume "prefix (xs @ [c]) (ys @ c # vs)"
  then obtain us where "ys @ c # vs = xs @ c # us"
    by (auto simp: prefix_def)
  then show "xs = ys" using append_sep_eq[OF assms(2,1)] by metis
qed (simp add: prefix_def)

end
