(* ===== verification/HeraldConfig_Types.thy ===== *)
theory HeraldConfig_Types
  imports Herald_Prelude
begin

text \<open>
  \<open>api/v1alpha1/heraldconfig_types.go\<close>: the HeraldConfig custom resource, struct by struct,
  and the parts of the Kubernetes objects (Secret data, Namespace, Node, Service) that the
  operator reads. Go's zero value of a struct is what an omitted field decodes to.
\<close>

section \<open>The specification\<close>

text \<open>The two enumerations are string types in Go; other strings are values of the type.\<close>

type_synonym NodeMapping = string

definition NodeMappingDevice :: NodeMapping where "NodeMappingDevice = ''Device''"
definition NodeMappingVirtualMachine :: NodeMapping where "NodeMappingVirtualMachine = ''VirtualMachine''"

type_synonym PodCIDRRepresentation = string

definition PodCIDRRepresentationPrefix :: PodCIDRRepresentation where
  "PodCIDRRepresentationPrefix = ''Prefix''"
definition PodCIDRRepresentationAggregate :: PodCIDRRepresentation where
  "PodCIDRRepresentationAggregate = ''Aggregate''"

lemma mapping_distinct [simp]:
  "NodeMappingDevice \<noteq> NodeMappingVirtualMachine" "NodeMappingVirtualMachine \<noteq> NodeMappingDevice"
  by (simp_all add: NodeMappingDevice_def NodeMappingVirtualMachine_def)

text \<open>\<open>time.Duration\<close>: nanoseconds in an \<open>int64\<close>.\<close>

type_synonym duration = "64 word"

definition Second :: duration where "Second = 1000000000"
definition Minute :: duration where "Minute = 60 * Second"

record SecretKeyRef =
  sk_Name :: string
  sk_Key :: string

record TLSConfig =
  tc_InsecureSkipVerify :: bool
  tc_CABundleSecretRef :: "SecretKeyRef option"

record VersionCheckConfig =
  vc_Enabled :: bool

record ManagedTagConfig =
  mt_Slug :: string

record NetBoxConfig =
  nc_URL :: string
  nc_TokenSecretRef :: SecretKeyRef
  nc_TLS :: TLSConfig
  nc_RequestTimeoutSeconds :: "32 word"
  nc_VersionCheck :: VersionCheckConfig
  nc_ManagedTag :: ManagedTagConfig

record ResyncConfig =
  rs_Interval :: duration

record ClusterResourceConfig =
  cl_Enabled :: bool
  cl_Name :: string
  cl_ClusterTypeName :: string
  cl_ClusterGroupName :: string
  cl_SiteName :: string

record DeviceMappingConfig =
  dm_DeviceRoleName :: string
  dm_DeviceTypeName :: string
  dm_SiteName :: string

record VirtualMachineMappingConfig =
  vm_ClusterName :: string
  vm_PlatformName :: string

record NodesResourceConfig =
  nd_Enabled :: bool
  nd_Mapping :: NodeMapping
  nd_RetainOnDisable :: bool
  nd_Device :: DeviceMappingConfig
  nd_VirtualMachine :: VirtualMachineMappingConfig

record ServicesResourceConfig =
  sv_Enabled :: bool
  sv_RetainOnDisable :: bool

record PodCIDRsResourceConfig =
  pc_Enabled :: bool
  pc_RetainOnDisable :: bool
  pc_Representation :: PodCIDRRepresentation
  pc_RIRName :: string

record GenericResourceConfig =
  gr_Enabled :: bool
  gr_RetainOnDisable :: bool

record ResourcesConfig =
  rc_Cluster :: ClusterResourceConfig
  rc_Nodes :: NodesResourceConfig
  rc_Services :: ServicesResourceConfig
  rc_PodCIDRs :: PodCIDRsResourceConfig
  rc_Additional :: "string \<rightharpoonup> GenericResourceConfig"

record HeraldConfigSpec =
  hs_NetBox :: NetBoxConfig
  hs_Resync :: ResyncConfig
  hs_Resources :: ResourcesConfig

section \<open>The status\<close>

text \<open>
  A timestamp is an integer; a text is a literal or the rendering \<open>err.Error()\<close> of an error,
  which is kept unrendered.
\<close>

type_synonym time = int

datatype message = Literal string | ErrorText error

record condition =
  cn_Type :: string
  cn_Status :: string
  cn_Reason :: string
  cn_Message :: message

record NetBoxStatus =
  ns_Connected :: bool
  ns_Version :: string
  ns_LastCheckedTime :: "time option"

record ResourceSyncStatus =
  ss_Enabled :: bool
  ss_LastSyncTime :: "time option"
  ss_ObservedGeneration :: "64 word"
  ss_ObjectCount :: "32 word"
  ss_LastError :: message

record ResourceStatuses =
  st_Cluster :: ResourceSyncStatus
  st_Nodes :: ResourceSyncStatus
  st_Services :: ResourceSyncStatus
  st_PodCIDRs :: ResourceSyncStatus

record HeraldConfigStatus =
  hc_Conditions :: "condition list"
  hc_NetBox :: NetBoxStatus
  hc_Resources :: ResourceStatuses

record HeraldConfig =
  hc_Generation :: "64 word"
  hc_Spec :: HeraldConfigSpec
  hc_Status :: HeraldConfigStatus

text \<open>\<open>ResourceSyncStatus{}\<close> and \<open>NetBoxStatus{}\<close>.\<close>

definition zero_sync_status :: ResourceSyncStatus where
  "zero_sync_status = \<lparr>ss_Enabled = False, ss_LastSyncTime = None, ss_ObservedGeneration = 0,
     ss_ObjectCount = 0, ss_LastError = Literal ''''\<rparr>"

definition zero_netbox_status :: NetBoxStatus where
  "zero_netbox_status = \<lparr>ns_Connected = False, ns_Version = '''', ns_LastCheckedTime = None\<rparr>"

section \<open>Kubernetes objects\<close>

text \<open>The data of a Secret: its bytes are characters, as in \<open>string(token)\<close>.\<close>

type_synonym secret = "string \<rightharpoonup> string"

record namespace =
  nsp_UID :: string

record node =
  nod_Name :: string
  nod_UID :: string
  nod_PodCIDRs :: "string list"

record service =
  svc_Namespace :: string
  svc_Name :: string
  svc_Type :: string
  svc_Ingress :: "string list"

text \<open>\<open>ctrl.Request\<close>, and \<open>ctrl.Result\<close> with the one field the sources set.\<close>

record request =
  rq_Namespace :: string
  rq_Name :: string

record result =
  RequeueAfter :: duration

definition no_requeue :: result where
  "no_requeue = \<lparr>RequeueAfter = 0\<rparr>"

end
