(* ===== verification/NetBox_Api.thy ===== *)
theory NetBox_Api
  imports Herald_Prelude
begin

text \<open>
  NetBox as the operator sees it. The go-netbox client and the NetBox instance behind it are
  not part of the repository: they are the parameter \<open>'w netbox_api\<close>, one function per API
  call the sources make, over an unknown state \<open>'w\<close>. The records list the fields of the
  go-netbox models that the sources read or write. The second half states what NetBox's REST
  API documents of those calls (\<open>lawful\<close>), relative to a view \<open>'w \<Rightarrow> nb_view\<close> of the stored
  objects; theorems that need it take it as a hypothesis.
\<close>

section \<open>Models\<close>

record nb_object =
  ob_ID :: int
  ob_CustomFields :: any

record nb_named = nb_object +
  ob_Name :: "string option"

record nb_ref =
  rf_ID :: int
  rf_Name :: "string option"

record device_type =
  dt_ID :: int
  dt_Model :: "string option"

record tag =
  tg_ID :: int
  tg_Name :: "string option"
  tg_Slug :: "string option"

record tag_data =
  td_Name :: string
  td_Slug :: string
  td_Description :: string
  td_Color :: string

record nested_tag =
  nt_ID :: int
  nt_Name :: "string option"
  nt_Slug :: "string option"

record custom_field =
  cf_Name :: "string option"

record custom_field_data =
  cd_Name :: string
  cd_Label :: string
  cd_Description :: string
  cd_Type :: string
  cd_ObjectTypes :: "string list"

record writable =
  wr_Tags :: "nested_tag list"
  wr_CustomFields :: any

record writable_cluster = writable +
  wc_Name :: string
  wc_Type :: int
  wc_Group :: "int option"
  wc_ScopeType :: "string option"
  wc_ScopeID :: "int option"

record writable_device = writable +
  wd_Name :: string
  wd_DeviceType :: int
  wd_Role :: int
  wd_Site :: int

record writable_vm = writable +
  wv_Name :: string
  wv_Cluster :: int
  wv_Platform :: "int option"

record writable_ip = writable +
  wi_Address :: string
  wi_Description :: string

record writable_prefix = writable +
  wp_Prefix :: string
  wp_Description :: string

record writable_aggregate = writable +
  wa_Prefix :: string
  wa_Rir :: int
  wa_Description :: string

section \<open>Calls\<close>

text \<open>The query parameters the sources set; \<open>no_params\<close> is a fresh parameter object.\<close>

record list_params =
  lp_Tag :: "string list"
  lp_Name :: "string option"
  lp_Model :: "string option"
  lp_Slug :: "string option"
  lp_Limit :: "int option"

definition no_params :: list_params where
  "no_params = \<lparr>lp_Tag = [], lp_Name = None, lp_Model = None, lp_Slug = None, lp_Limit = None\<rparr>"

record 'o page =
  pg_Count :: "64 word option"
  pg_Results :: "'o list"

record ('o, 'd, 'w) endpoint =
  ep_list :: "list_params \<Rightarrow> ('w, 'o page) go"
  ep_create :: "'d \<Rightarrow> ('w, 'o) go"
  ep_update :: "int \<Rightarrow> 'd \<Rightarrow> ('w, 'o) go"
  ep_delete :: "int \<Rightarrow> ('w, unit) go"

record 'w netbox_api =
  StatusList :: "('w, any) go"
  ExtrasTagsList :: "list_params \<Rightarrow> ('w, tag page) go"
  ExtrasTagsCreate :: "tag_data \<Rightarrow> ('w, tag) go"
  ExtrasCustomFieldsList :: "list_params \<Rightarrow> ('w, custom_field page) go"
  ExtrasCustomFieldsCreate :: "custom_field_data \<Rightarrow> ('w, custom_field) go"
  DcimSitesList :: "list_params \<Rightarrow> ('w, nb_ref page) go"
  VirtualizationClusterTypesList :: "list_params \<Rightarrow> ('w, nb_ref page) go"
  VirtualizationClusterGroupsList :: "list_params \<Rightarrow> ('w, nb_ref page) go"
  DcimDeviceRolesList :: "list_params \<Rightarrow> ('w, nb_ref page) go"
  DcimDeviceTypesList :: "list_params \<Rightarrow> ('w, device_type page) go"
  IpamRirsList :: "list_params \<Rightarrow> ('w, nb_ref page) go"
  DcimPlatformsList :: "list_params \<Rightarrow> ('w, nb_ref page) go"
  VirtualizationClusters :: "(nb_named, writable_cluster, 'w) endpoint"
  DcimDevices :: "(nb_named, writable_device, 'w) endpoint"
  VirtualizationVirtualMachines :: "(nb_named, writable_vm, 'w) endpoint"
  IpamIPAddresses :: "(nb_object, writable_ip, 'w) endpoint"
  IpamPrefixes :: "(nb_object, writable_prefix, 'w) endpoint"
  IpamAggregates :: "(nb_object, writable_aggregate, 'w) endpoint"

text \<open>
  The least one can ask of the API: no call panics, every call keeps an invariant \<open>I\<close> of the
  world, and a created tag comes back with a slug. Results, errors and effects are otherwise
  arbitrary.
\<close>

definition ep_keeps :: "('w \<Rightarrow> bool) \<Rightarrow> ('o, 'd, 'w) endpoint \<Rightarrow> bool" where
  "ep_keeps I ep \<longleftrightarrow> (\<forall>p. keeps I (ep_list ep p)) \<and> (\<forall>d. keeps I (ep_create ep d)) \<and>
     (\<forall>i d. keeps I (ep_update ep i d)) \<and> (\<forall>i. keeps I (ep_delete ep i))"

definition api_keeps :: "('w \<Rightarrow> bool) \<Rightarrow> 'w netbox_api \<Rightarrow> bool" where
  "api_keeps I api \<longleftrightarrow> keeps I (StatusList api) \<and> (\<forall>p. keeps I (ExtrasTagsList api p)) \<and>
     (\<forall>d. triple I (ExtrasTagsCreate api d) (\<lambda>t w. I w \<and> tg_Slug t \<noteq> None) (\<lambda>_. I)) \<and>
     (\<forall>p. keeps I (ExtrasCustomFieldsList api p)) \<and> (\<forall>d. keeps I (ExtrasCustomFieldsCreate api d)) \<and>
     (\<forall>p. keeps I (DcimSitesList api p)) \<and> (\<forall>p. keeps I (VirtualizationClusterTypesList api p)) \<and>
     (\<forall>p. keeps I (VirtualizationClusterGroupsList api p)) \<and> (\<forall>p. keeps I (DcimDeviceRolesList api p)) \<and>
     (\<forall>p. keeps I (DcimDeviceTypesList api p)) \<and> (\<forall>p. keeps I (IpamRirsList api p)) \<and>
     (\<forall>p. keeps I (DcimPlatformsList api p)) \<and>
     ep_keeps I (VirtualizationClusters api) \<and> ep_keeps I (DcimDevices api) \<and>
     ep_keeps I (VirtualizationVirtualMachines api) \<and> ep_keeps I (IpamIPAddresses api) \<and>
     ep_keeps I (IpamPrefixes api) \<and> ep_keeps I (IpamAggregates api)"

lemma ep_keepsD [keeps_rules]:
  assumes "ep_keeps I ep"
  shows "keeps I (ep_list ep p)" "keeps I (ep_create ep d)" "keeps I (ep_update ep i d)" "keeps I (ep_delete ep i)"
  using assms by (simp_all add: ep_keeps_def)

section \<open>The external-ID custom field\<close>

definition ExternalIDFieldName :: string where
  "ExternalIDFieldName = ''netbox_herald_external_id''"

text \<open>\<open>readExternalID\<close>'s pair \<open>(string, bool)\<close> is an option: the string is \<open>""\<close> otherwise.\<close>

definition readExternalID :: "any \<Rightarrow> string option" where
  "readExternalID customFields =
     (case as_map customFields of
        None \<Rightarrow> None
      | Some flds \<Rightarrow>
          (case map_of flds ExternalIDFieldName of
             None \<Rightarrow> None
           | Some value \<Rightarrow> if value = GNil then None else as_string value))"

lemma readExternalID_written [simp]:
  "readExternalID (GMap [(ExternalIDFieldName, GString x)]) = Some x"
  by (simp add: readExternalID_def)

lemma readExternalID_Some:
  "readExternalID cf = Some x \<longleftrightarrow> (\<exists>m. cf = GMap m \<and> map_of m ExternalIDFieldName = Some (GString x))"
  by (cases cf) (auto simp: readExternalID_def split: option.splits if_splits elim: as_string.elims)

section \<open>What NetBox stores\<close>

datatype ref_kind = RSite | RClusterType | RClusterGroup | RDeviceRole | RDeviceType | RRIR | RPlatform

text \<open>
  A view of the server's state: the stored objects of each kind by ID, the tags and custom
  fields, and for each kind of reference object the IDs that carry a name (a model name for
  device types).
\<close>

record nb_view =
  v_clusters :: "int \<rightharpoonup> writable_cluster"
  v_devices :: "int \<rightharpoonup> writable_device"
  v_vms :: "int \<rightharpoonup> writable_vm"
  v_ips :: "int \<rightharpoonup> writable_ip"
  v_prefixes :: "int \<rightharpoonup> writable_prefix"
  v_aggregates :: "int \<rightharpoonup> writable_aggregate"
  v_tags :: "int \<rightharpoonup> tag_data"
  v_fields :: "int \<rightharpoonup> custom_field_data"
  v_refs :: "ref_kind \<Rightarrow> string \<Rightarrow> int set"

text \<open>How one object kind sits in the view: its table, the name the API filters by (if the
  kind has one) as stored and as listed, and what a write (first) leaves stored (second).\<close>

record ('o, 'd) kind =
  k_get :: "nb_view \<Rightarrow> int \<rightharpoonup> 'd"
  k_upd :: "((int \<rightharpoonup> 'd) \<Rightarrow> (int \<rightharpoonup> 'd)) \<Rightarrow> nb_view \<Rightarrow> nb_view"
  k_name :: "'d \<Rightarrow> string option"
  k_oname :: "'o \<Rightarrow> string option"
  k_keeps :: "'d \<Rightarrow> 'd \<Rightarrow> bool"

definition kind_ok :: "('o, 'd) kind \<Rightarrow> bool" where
  "kind_ok K \<longleftrightarrow> (\<forall>f v. k_get K (k_upd K f v) = f (k_get K v)) \<and>
     (\<forall>f g v. k_upd K f (k_upd K g v) = k_upd K (f \<circ> g) v) \<and>
     (\<forall>f v. f (k_get K v) = k_get K v \<longrightarrow> k_upd K f v = v)"

text \<open>Storing an object under an ID, and dropping the objects of a set of IDs.\<close>

definition put_obj :: "('o, 'd) kind \<Rightarrow> int \<Rightarrow> 'd \<Rightarrow> nb_view \<Rightarrow> nb_view" where
  "put_obj K i d v = k_upd K (\<lambda>m. m(i \<mapsto> d)) v"

definition drop_ids :: "('o, 'd) kind \<Rightarrow> int set \<Rightarrow> nb_view \<Rightarrow> nb_view" where
  "drop_ids K I v = k_upd K (\<lambda>m. m |` (- I)) v"

lemma put_obj_get: "kind_ok K \<Longrightarrow> k_get K (put_obj K i d v) = (k_get K v)(i \<mapsto> d)"
  unfolding put_obj_def kind_ok_def by blast

lemma drop_ids_get: "kind_ok K \<Longrightarrow> k_get K (drop_ids K I v) = (k_get K v) |` (- I)"
  unfolding drop_ids_def kind_ok_def by blast

lemma drop_ids_empty [simp]: "kind_ok K \<Longrightarrow> drop_ids K {} v = v"
  by (simp add: drop_ids_def kind_ok_def restrict_map_def)

lemma drop_ids_drop:
  assumes "kind_ok K"
  shows "drop_ids K I (drop_ids K J v) = drop_ids K (I \<union> J) v"
proof -
  have "drop_ids K I (drop_ids K J v) = k_upd K ((\<lambda>m. m |` (- I)) \<circ> (\<lambda>m. m |` (- J))) v"
    using assms unfolding drop_ids_def kind_ok_def by blast
  also have "(\<lambda>m :: int \<rightharpoonup> 'b. m |` (- I)) \<circ> (\<lambda>m. m |` (- J)) = (\<lambda>m. m |` (- (I \<union> J)))"
    by (auto simp: fun_eq_iff restrict_map_def)
  finally show ?thesis by (simp only: drop_ids_def)
qed

definition has_tag :: "string \<Rightarrow> 'd writable_scheme \<Rightarrow> bool" where
  "has_tag slug d \<longleftrightarrow> (\<exists>t \<in> set (wr_Tags d). nt_Slug t = Some slug)"

definition ext_of :: "'d writable_scheme \<Rightarrow> string option" where
  "ext_of d = readExternalID (wr_CustomFields d)"

text \<open>
  A write of \<open>d\<close> leaves \<open>d'\<close>: the tags, the external-ID field, the name and the
  attributes it sets are as written; NetBox may keep other custom fields and omitted optional
  attributes of an object it updates.
\<close>

definition stored_as :: "('o, 'd writable_scheme) kind \<Rightarrow> 'd writable_scheme \<Rightarrow> 'd writable_scheme \<Rightarrow> bool" where
  "stored_as K d d' \<longleftrightarrow> (\<forall>s. has_tag s d' = has_tag s d) \<and> ext_of d' = ext_of d \<and>
     k_name K d' = k_name K d \<and> k_keeps K d d'"

definition displays :: "('o nb_object_scheme, 'd writable_scheme) kind \<Rightarrow>
    'd writable_scheme \<Rightarrow> 'o nb_object_scheme \<Rightarrow> bool" where
  "displays K d ob \<longleftrightarrow> readExternalID (ob_CustomFields ob) = ext_of d \<and> k_oname K ob = k_name K d"

text \<open>
  The tag filter is exact. The name filter ignores case for some kinds, so a name filter
  returns at least the objects of that name (\<open>selected\<close>) and at most those whose name
  differs only in case (\<open>candidates\<close>).
\<close>

definition lower :: "char \<Rightarrow> char" where
  "lower c = (let n = of_char c :: nat in if 65 \<le> n \<and> n \<le> 90 then char_of (n + 32) else c)"

definition selects :: "('o, 'd writable_scheme) kind \<Rightarrow> list_params \<Rightarrow> 'd writable_scheme \<Rightarrow> bool" where
  "selects K p d \<longleftrightarrow> (\<forall>s \<in> set (lp_Tag p). has_tag s d) \<and>
     (\<forall>n. lp_Name p = Some n \<longrightarrow> k_name K d = Some n)"

definition admits :: "('o, 'd writable_scheme) kind \<Rightarrow> list_params \<Rightarrow> 'd writable_scheme \<Rightarrow> bool" where
  "admits K p d \<longleftrightarrow> (\<forall>s \<in> set (lp_Tag p). has_tag s d) \<and>
     (\<forall>n. lp_Name p = Some n \<longrightarrow> (\<exists>n'. k_name K d = Some n' \<and> map lower n' = map lower n))"

definition selected :: "('o, 'd writable_scheme) kind \<Rightarrow> list_params \<Rightarrow> nb_view \<Rightarrow> int set" where
  "selected K p v = {i. \<exists>d. k_get K v i = Some d \<and> selects K p d}"

definition candidates :: "('o, 'd writable_scheme) kind \<Rightarrow> list_params \<Rightarrow> nb_view \<Rightarrow> int set" where
  "candidates K p v = {i. \<exists>d. k_get K v i = Some d \<and> admits K p d}"

text \<open>
  One page of a list call: every result is a stored object that the filters admit; all
  selected objects are on the page if the candidates fit on one; and without a name filter
  the count is that of all selected objects. A call without a limit gets the server's
  default page size (50 in a default installation).
\<close>

definition page_size :: "nat \<Rightarrow> list_params \<Rightarrow> nat" where
  "page_size psize p = (case lp_Limit p of None \<Rightarrow> psize | Some n \<Rightarrow> min psize (nat n))"

definition listing :: "nat \<Rightarrow> ('o nb_object_scheme, 'd writable_scheme) kind \<Rightarrow> list_params \<Rightarrow>
    nb_view \<Rightarrow> 'o nb_object_scheme page \<Rightarrow> bool" where
  "listing psize K p v pg \<longleftrightarrow>
     (\<forall>ob \<in> set (pg_Results pg). \<exists>d. k_get K v (ob_ID ob) = Some d \<and> admits K p d \<and> displays K d ob) \<and>
     (card (candidates K p v) \<le> page_size psize p \<longrightarrow> selected K p v \<subseteq> ob_ID ` set (pg_Results pg)) \<and>
     (lp_Name p = None \<longrightarrow> pg_Count pg = Some (word_of_nat (card (selected K p v))))"

definition created :: "('o nb_object_scheme, 'd writable_scheme) kind \<Rightarrow> 'd writable_scheme \<Rightarrow>
    'o nb_object_scheme \<Rightarrow> nb_view \<Rightarrow> nb_view \<Rightarrow> bool" where
  "created K d ob v v' \<longleftrightarrow> k_get K v (ob_ID ob) = None \<and>
     (\<exists>d'. stored_as K d d' \<and> v' = put_obj K (ob_ID ob) d' v)"

definition updated :: "('o, 'd writable_scheme) kind \<Rightarrow> int \<Rightarrow> 'd writable_scheme \<Rightarrow> nb_view \<Rightarrow> nb_view \<Rightarrow> bool" where
  "updated K i d v v' \<longleftrightarrow> k_get K v i \<noteq> None \<and>
     (\<exists>d'. stored_as K d d' \<and> v' = put_obj K i d' v)"

text \<open>
  The documented behaviour of the calls on one kind. A call that fails may still have taken
  effect (a timeout after the server committed), and no call changes another kind's table.

  For deletions the last is an assumption on how the NetBox is used. NetBox deletes with a device or
  virtual machine what is attached to it: its interfaces and, with them, the IP addresses assigned
  to these; and it refuses to delete what other objects need. Herald assigns none of the objects it
  writes to an interface, so the objects of the six kinds here are not concerned unless somebody
  else has assigned an IP address to an interface of a device or virtual machine of Herald's.
\<close>

definition lawful_ep :: "nat \<Rightarrow> ('w \<Rightarrow> nb_view) \<Rightarrow> ('o nb_object_scheme, 'd writable_scheme) kind \<Rightarrow>
    ('o nb_object_scheme, 'd writable_scheme, 'w) endpoint \<Rightarrow> bool" where
  "lawful_ep psize view K ep \<longleftrightarrow>
     (\<forall>w. finite (dom (k_get K (view w)))) \<and>
     (\<forall>p v. triple (\<lambda>w. view w = v) (ep_list ep p)
        (\<lambda>pg w. view w = v \<and> listing psize K p v pg) (\<lambda>_ w. view w = v)) \<and>
     (\<forall>d v. triple (\<lambda>w. view w = v) (ep_create ep d)
        (\<lambda>ob w. created K d ob v (view w))
        (\<lambda>_ w. view w = v \<or> (\<exists>ob. created K d ob v (view w)))) \<and>
     (\<forall>i d v. triple (\<lambda>w. view w = v) (ep_update ep i d)
        (\<lambda>ob w. ob_ID ob = i \<and> updated K i d v (view w))
        (\<lambda>_ w. view w = v \<or> updated K i d v (view w))) \<and>
     (\<forall>i v. triple (\<lambda>w. view w = v) (ep_delete ep i)
        (\<lambda>_ w. view w = drop_ids K {i} v)
        (\<lambda>_ w. view w = v \<or> view w = drop_ids K {i} v))"

text \<open>An optional attribute that a write sets is stored; one it leaves out may be kept.\<close>

definition kept_opt :: "'a option \<Rightarrow> 'a option \<Rightarrow> bool" where
  "kept_opt a b \<longleftrightarrow> a = None \<or> b = a"

definition cluster_kind :: "(nb_named, writable_cluster) kind" where
  "cluster_kind = \<lparr>k_get = v_clusters, k_upd = v_clusters_update, k_name = (\<lambda>d. Some (wc_Name d)),
     k_oname = ob_Name,
     k_keeps = (\<lambda>d d'. wc_Type d' = wc_Type d \<and> kept_opt (wc_Group d) (wc_Group d') \<and>
       kept_opt (wc_ScopeType d) (wc_ScopeType d') \<and> kept_opt (wc_ScopeID d) (wc_ScopeID d'))\<rparr>"

definition device_kind :: "(nb_named, writable_device) kind" where
  "device_kind = \<lparr>k_get = v_devices, k_upd = v_devices_update, k_name = (\<lambda>d. Some (wd_Name d)),
     k_oname = ob_Name,
     k_keeps = (\<lambda>d d'. wd_DeviceType d' = wd_DeviceType d \<and> wd_Role d' = wd_Role d \<and> wd_Site d' = wd_Site d)\<rparr>"

definition vm_kind :: "(nb_named, writable_vm) kind" where
  "vm_kind = \<lparr>k_get = v_vms, k_upd = v_vms_update, k_name = (\<lambda>d. Some (wv_Name d)),
     k_oname = ob_Name,
     k_keeps = (\<lambda>d d'. wv_Cluster d' = wv_Cluster d \<and> kept_opt (wv_Platform d) (wv_Platform d'))\<rparr>"

definition ip_kind :: "(nb_object, writable_ip) kind" where
  "ip_kind = \<lparr>k_get = v_ips, k_upd = v_ips_update, k_name = (\<lambda>_. None), k_oname = (\<lambda>_. None),
     k_keeps = (\<lambda>d d'. wi_Address d' = wi_Address d)\<rparr>"

definition prefix_kind :: "(nb_object, writable_prefix) kind" where
  "prefix_kind = \<lparr>k_get = v_prefixes, k_upd = v_prefixes_update, k_name = (\<lambda>_. None),
     k_oname = (\<lambda>_. None), k_keeps = (\<lambda>d d'. wp_Prefix d' = wp_Prefix d)\<rparr>"

definition aggregate_kind :: "(nb_object, writable_aggregate) kind" where
  "aggregate_kind = \<lparr>k_get = v_aggregates, k_upd = v_aggregates_update, k_name = (\<lambda>_. None),
     k_oname = (\<lambda>_. None), k_keeps = (\<lambda>d d'. wa_Prefix d' = wa_Prefix d \<and> wa_Rir d' = wa_Rir d)\<rparr>"

named_theorems kind_defs \<open>the object kinds\<close>

lemmas [kind_defs] = cluster_kind_def device_kind_def vm_kind_def ip_kind_def prefix_kind_def
  aggregate_kind_def

lemma kind_ok_kinds [simp]:
  "kind_ok cluster_kind" "kind_ok device_kind" "kind_ok vm_kind"
  "kind_ok ip_kind" "kind_ok prefix_kind" "kind_ok aggregate_kind"
  by (simp_all add: kind_ok_def kind_defs comp_def)

text \<open>Reference objects, tags and custom fields: list calls read, tags and fields are created.\<close>

definition lawful_names :: "('w \<Rightarrow> nb_view) \<Rightarrow> (nb_view \<Rightarrow> string \<Rightarrow> int set) \<Rightarrow> (nb_view \<Rightarrow> string \<Rightarrow> bool) \<Rightarrow>
    ('o \<Rightarrow> int) \<Rightarrow> ('o \<Rightarrow> string option) \<Rightarrow> (string \<Rightarrow> list_params) \<Rightarrow>
    (list_params \<Rightarrow> ('w, 'o page) go) \<Rightarrow> bool" where
  "lawful_names view ids fits oid oname params lst \<longleftrightarrow>
     (\<forall>n v. triple (\<lambda>w. view w = v) (lst (params n))
        (\<lambda>pg w. view w = v \<and>
           (\<forall>ob \<in> set (pg_Results pg). oname ob = Some n \<longrightarrow> oid ob \<in> ids v n) \<and>
           (fits v n \<and> ids v n \<noteq> {} \<longrightarrow> (\<exists>ob \<in> set (pg_Results pg). oname ob = Some n)))
        (\<lambda>_ w. view w = v))"

definition lawful_refs :: "('w \<Rightarrow> nb_view) \<Rightarrow> ref_kind \<Rightarrow> ('o \<Rightarrow> int) \<Rightarrow> ('o \<Rightarrow> string option) \<Rightarrow>
    (string \<Rightarrow> list_params) \<Rightarrow> (list_params \<Rightarrow> ('w, 'o page) go) \<Rightarrow> bool" where
  "lawful_refs view k = lawful_names view (\<lambda>v. v_refs v k) (\<lambda>_ _. True)"

definition tag_shows :: "tag_data \<Rightarrow> tag \<Rightarrow> bool" where
  "tag_shows d t \<longleftrightarrow> tg_Name t = Some (td_Name d) \<and> tg_Slug t = Some (td_Slug d)"

definition lawful_tags :: "('w \<Rightarrow> nb_view) \<Rightarrow> 'w netbox_api \<Rightarrow> bool" where
  "lawful_tags view api \<longleftrightarrow>
     (\<forall>s v. triple (\<lambda>w. view w = v) (ExtrasTagsList api (no_params\<lparr>lp_Slug := Some s\<rparr>))
        (\<lambda>pg w. view w = v \<and>
           (\<forall>t \<in> set (pg_Results pg). \<exists>d. v_tags v (tg_ID t) = Some d \<and> tag_shows d t) \<and>
           (\<forall>i d. v_tags v i = Some d \<and> td_Slug d = s \<longrightarrow> (\<exists>t \<in> set (pg_Results pg). tg_ID t = i)))
        (\<lambda>_ w. view w = v)) \<and>
     (\<forall>d v. triple (\<lambda>w. view w = v) (ExtrasTagsCreate api d)
        (\<lambda>t w. v_tags v (tg_ID t) = None \<and> tag_shows d t \<and>
           view w = v\<lparr>v_tags := (v_tags v)(tg_ID t \<mapsto> d)\<rparr>)
        (\<lambda>_ w. view w = v \<or> (\<exists>i. v_tags v i = None \<and> view w = v\<lparr>v_tags := (v_tags v)(i \<mapsto> d)\<rparr>)))"

definition lawful_fields :: "('w \<Rightarrow> nb_view) \<Rightarrow> 'w netbox_api \<Rightarrow> bool" where
  "lawful_fields view api \<longleftrightarrow>
     (\<forall>n v. triple (\<lambda>w. view w = v) (ExtrasCustomFieldsList api (no_params\<lparr>lp_Name := Some n\<rparr>))
        (\<lambda>pg w. view w = v \<and>
           (\<forall>f \<in> set (pg_Results pg). \<exists>i d. v_fields v i = Some d \<and> cf_Name f = Some (cd_Name d)) \<and>
           (\<forall>i d. v_fields v i = Some d \<and> cd_Name d = n \<longrightarrow>
              (\<exists>f \<in> set (pg_Results pg). cf_Name f = Some n)))
        (\<lambda>_ w. view w = v)) \<and>
     (\<forall>d v. triple (\<lambda>w. view w = v) (ExtrasCustomFieldsCreate api d)
        (\<lambda>_ w. \<exists>i. v_fields v i = None \<and> view w = v\<lparr>v_fields := (v_fields v)(i \<mapsto> d)\<rparr>)
        (\<lambda>_ w. view w = v \<or>
           (\<exists>i. v_fields v i = None \<and> view w = v\<lparr>v_fields := (v_fields v)(i \<mapsto> d)\<rparr>)))"

definition lawful :: "nat \<Rightarrow> ('w \<Rightarrow> nb_view) \<Rightarrow> 'w netbox_api \<Rightarrow> bool" where
  "lawful psize view api \<longleftrightarrow>
     lawful_ep psize view cluster_kind (VirtualizationClusters api) \<and>
     lawful_ep psize view device_kind (DcimDevices api) \<and>
     lawful_ep psize view vm_kind (VirtualizationVirtualMachines api) \<and>
     lawful_ep psize view ip_kind (IpamIPAddresses api) \<and>
     lawful_ep psize view prefix_kind (IpamPrefixes api) \<and>
     lawful_ep psize view aggregate_kind (IpamAggregates api) \<and>
     lawful_refs view RSite rf_ID rf_Name (\<lambda>n. no_params\<lparr>lp_Name := Some n\<rparr>) (DcimSitesList api) \<and>
     lawful_refs view RClusterType rf_ID rf_Name (\<lambda>n. no_params\<lparr>lp_Name := Some n\<rparr>)
       (VirtualizationClusterTypesList api) \<and>
     lawful_refs view RClusterGroup rf_ID rf_Name (\<lambda>n. no_params\<lparr>lp_Name := Some n\<rparr>)
       (VirtualizationClusterGroupsList api) \<and>
     lawful_refs view RDeviceRole rf_ID rf_Name (\<lambda>n. no_params\<lparr>lp_Name := Some n\<rparr>) (DcimDeviceRolesList api) \<and>
     lawful_refs view RDeviceType dt_ID dt_Model (\<lambda>n. no_params\<lparr>lp_Model := Some n\<rparr>) (DcimDeviceTypesList api) \<and>
     lawful_refs view RRIR rf_ID rf_Name (\<lambda>n. no_params\<lparr>lp_Name := Some n\<rparr>) (IpamRirsList api) \<and>
     lawful_refs view RPlatform rf_ID rf_Name (\<lambda>n. no_params\<lparr>lp_Name := Some n\<rparr>) (DcimPlatformsList api) \<and>
     lawful_tags view api \<and> lawful_fields view api \<and> (\<forall>v. keeps (\<lambda>w. view w = v) (StatusList api))"

section \<open>The managed objects of a view\<close>

text \<open>
  What Herald may touch: the objects of a kind carrying the managed tag, and among them
  those with a given external ID.
\<close>

definition managed :: "('o, 'd writable_scheme) kind \<Rightarrow> string \<Rightarrow> nb_view \<Rightarrow> int set" where
  "managed K slug v = {i. \<exists>d. k_get K v i = Some d \<and> has_tag slug d}"

definition ids_for :: "('o, 'd writable_scheme) kind \<Rightarrow> string \<Rightarrow> string \<Rightarrow> nb_view \<Rightarrow> int set" where
  "ids_for K slug x v = {i. \<exists>d. k_get K v i = Some d \<and> has_tag slug d \<and> ext_of d = Some x}"

definition ext_ids :: "('o, 'd writable_scheme) kind \<Rightarrow> string \<Rightarrow> nb_view \<Rightarrow> string set" where
  "ext_ids K slug v = {x. ids_for K slug x v \<noteq> {}}"

text \<open>Objects without the managed tag keep their state.\<close>

definition untouched :: "('o, 'd writable_scheme) kind \<Rightarrow> string \<Rightarrow> nb_view \<Rightarrow> nb_view \<Rightarrow> bool" where
  "untouched K slug v v' \<longleftrightarrow>
     (\<forall>i d. k_get K v i = Some d \<and> \<not> has_tag slug d \<longrightarrow> k_get K v' i = Some d)"

lemma untouched_refl [simp]: "untouched K slug v v"
  by (simp add: untouched_def)

lemma untouched_trans: "untouched K slug v v' \<Longrightarrow> untouched K slug v' v'' \<Longrightarrow> untouched K slug v v''"
  by (simp add: untouched_def)

lemma ids_for_managed: "ids_for K slug x v \<subseteq> managed K slug v"
  by (auto simp: ids_for_def managed_def)

lemma managed_selected: "managed K slug v = selected K (no_params\<lparr>lp_Tag := [slug]\<rparr>) v"
  by (auto simp: managed_def selected_def selects_def no_params_def)

lemma managed_candidates: "managed K slug v = candidates K (no_params\<lparr>lp_Tag := [slug]\<rparr>) v"
  by (auto simp: managed_def candidates_def admits_def no_params_def)

end
