(* ===== verification/NetBox_Config.thy ===== *)
theory NetBox_Config
  imports HeraldConfig_Types NetBox_Api
begin

text \<open>
  \<open>internal/netbox/config.go\<close>, \<open>client.go\<close> and \<open>version.go\<close>: resolving spec.netbox and its
  Secrets into a connection, building the client of that connection, and checking the
  NetBox version. Third-party code is in the parameter \<open>'v libs\<close>: URL parsing, the PEM reader,
  the TLS transport and the semantic-version library; the Secrets come from a parameter too.
\<close>

section \<open>Libraries\<close>

record url =
  url_Scheme :: string
  url_Host :: string
  url_Path :: string

record tls_options =
  tls_InsecureSkipVerify :: bool
  tls_LoadedCAPool :: "string option"

text \<open>
  A transport (\<open>http.RoundTripper\<close>): an \<open>http.Transport\<close>, of which the options it was made with and its
  proxy setting matter here, or a value of another type.
\<close>

datatype proxy = ProxyFromEnvironment

record http_transport =
  ht_TLS :: tls_options
  ht_Proxy :: "proxy option"

datatype round_tripper = HttpTransport http_transport | OtherRoundTripper

record 'v libs =
  urlx_Parse :: "string \<Rightarrow> error + url"
  AppendCertsFromPEM :: "string \<Rightarrow> bool"
  TLSTransport :: "tls_options \<Rightarrow> error + round_tripper"
  DefaultBasePath :: string
  NewVersion :: "string \<Rightarrow> error + 'v"
  Satisfies :: "string \<Rightarrow> 'v \<Rightarrow> bool"

text \<open>What go-openapi documents of \<open>TLSTransport\<close>: the transport it returns is an \<open>http.Transport\<close>.\<close>

definition http_transports :: "'v libs \<Rightarrow> bool" where
  "http_transports lib \<longleftrightarrow> (\<forall>opts. TLSTransport lib opts \<noteq> Inr OtherRoundTripper)"

section \<open>The connection\<close>

record config =
  cfg_ServerURL :: string
  cfg_APIToken :: string
  cfg_InsecureSkipVerify :: bool
  cfg_CACertPEM :: string
  cfg_RequestTimeout :: duration

text \<open>\<open>time.Duration(seconds) * time.Second\<close>: sign extension to 64 bits, then a wrapping product.\<close>

definition timeout_of :: "32 word \<Rightarrow> duration" where
  "timeout_of seconds = scast seconds * Second"

text \<open>\<open>getSecret\<close> is the Kubernetes client's \<open>Get\<close> of a Secret by namespace and name.\<close>

definition secretKey :: "(string \<Rightarrow> string \<Rightarrow> ('w, secret) go) \<Rightarrow> string \<Rightarrow> SecretKeyRef \<Rightarrow> ('w, string) go" where
  "secretKey getSecret namespace r =
     (let key = (if sk_Key r = '''' then ''token'' else sk_Key r) in
      bind (wrap_err (\<lambda>err. Errorf ''getting secret %s/%s: %w'' [AStr namespace, AStr (sk_Name r), AErr err])
        (getSecret namespace (sk_Name r)))
      (\<lambda>secret. case secret key of
         None \<Rightarrow> fail (Errorf ''secret %s/%s has no key %q'' [AStr namespace, AStr (sk_Name r), AStr key])
       | Some value \<Rightarrow> ret value))"

definition LoadConfig :: "(string \<Rightarrow> string \<Rightarrow> ('w, secret) go) \<Rightarrow> string \<Rightarrow> NetBoxConfig \<Rightarrow> ('w, config) go" where
  "LoadConfig getSecret secretNamespace spec =
     bind (wrap_err (\<lambda>err. Errorf ''resolving netbox.tokenSecretRef: %w'' [AErr err])
       (secretKey getSecret secretNamespace (nc_TokenSecretRef spec))) (\<lambda>token.
     let cfg = \<lparr>cfg_ServerURL = nc_URL spec, cfg_APIToken = token,
                cfg_InsecureSkipVerify = tc_InsecureSkipVerify (nc_TLS spec), cfg_CACertPEM = '''',
                cfg_RequestTimeout = timeout_of (nc_RequestTimeoutSeconds spec)\<rparr> in
     case tc_CABundleSecretRef (nc_TLS spec) of
       None \<Rightarrow> ret cfg
     | Some r \<Rightarrow>
         bind (wrap_err (\<lambda>err. Errorf ''resolving netbox.tls.caBundleSecretRef: %w'' [AErr err])
           (secretKey getSecret secretNamespace r)) (\<lambda>caPEM.
         ret (cfg\<lparr>cfg_CACertPEM := caPEM\<rparr>)))"

section \<open>The client\<close>

text \<open>What distinguishes one client from another: where it connects, how, and its credentials.\<close>

record netbox_client =
  cl_Host :: string
  cl_BasePath :: string
  cl_Schemes :: "string list"
  cl_Transport :: http_transport
  cl_Timeout :: duration
  cl_Authorization :: string

text \<open>The type assertion on the transport is unchecked: it panics on a transport of another type.\<close>

definition Client :: "'v libs \<Rightarrow> config \<Rightarrow> ('w, netbox_client) go" where
  "Client lib cfg =
     (if cfg_APIToken cfg = '''' then fail (Errorf ''missing NetBox API token'' []) else
      case urlx_Parse lib (cfg_ServerURL cfg) of
        Inl err \<Rightarrow> fail (Errorf ''parsing NetBox server URL: %w'' [AErr err])
      | Inr parsedURL \<Rightarrow>
      if cfg_CACertPEM cfg \<noteq> '''' \<and> \<not> AppendCertsFromPEM lib (cfg_CACertPEM cfg)
      then fail (Errorf ''no valid certificates found in CA bundle'' []) else
      let tlsOpts = \<lparr>tls_InsecureSkipVerify = cfg_InsecureSkipVerify cfg,
                     tls_LoadedCAPool = (if cfg_CACertPEM cfg \<noteq> '''' then Some (cfg_CACertPEM cfg) else None)\<rparr> in
      case TLSTransport lib tlsOpts of
        Inl err \<Rightarrow> fail (Errorf ''building TLS transport: %w'' [AErr err])
      | Inr OtherRoundTripper \<Rightarrow> panic
      | Inr (HttpTransport transport) \<Rightarrow>
      let transport = transport\<lparr>ht_Proxy := Some ProxyFromEnvironment\<rparr>;
          requestTimeout = (if cfg_RequestTimeout cfg <=s 0 then 30 * Second else cfg_RequestTimeout cfg);
          authScheme = (if prefix ''nbt_'' (cfg_APIToken cfg) then ''Bearer'' else ''Token'')
      in ret \<lparr>cl_Host = url_Host parsedURL, cl_BasePath = url_Path parsedURL @ DefaultBasePath lib,
              cl_Schemes = [url_Scheme parsedURL], cl_Transport = transport, cl_Timeout = requestTimeout,
              cl_Authorization = authScheme @ '' '' @ cfg_APIToken cfg\<rparr>)"

text \<open>A client depends on its configuration only, and making one has no effect.\<close>

lemma Client_pure: "snd (Client lib cfg w) = w" "fst (Client lib cfg w) = fst (Client lib cfg w')"
  by (simp_all add: Client_def Let_def ret_def fail_def panic_def split: sum.split round_tripper.split)

lemma Client_no_panic: "http_transports lib \<Longrightarrow> fst (Client lib cfg w) \<noteq> Panic"
  by (auto simp: Client_def Let_def ret_def fail_def http_transports_def split: sum.split round_tripper.split)

lemma Client_keeps [keeps_rules]: "http_transports lib \<Longrightarrow> keeps I (Client lib cfg)"
  unfolding keeps_def
  by (rule tripleI) (use Client_no_panic[of lib cfg] Client_pure(1)[of lib cfg] in \<open>metis fst_conv snd_conv\<close>)+

text \<open>
  The timeout of every client is positive and, from a spec, exact: 64 bits hold any number of
  seconds of an \<open>int32\<close> in nanoseconds.
\<close>

lemma timeout_of_exact: "sint (timeout_of s) = sint s * 1000000000"
proof -
  have "- (2 ^ 31) \<le> sint s" "sint s < 2 ^ 31"
    using sint_ge[of s] sint_lt[of s] by simp_all
  then have range: "- (2 ^ 63) \<le> sint s * 1000000000" "sint s * 1000000000 < 2 ^ 63" by simp_all
  have "timeout_of s = word_of_int (sint s) * word_of_int 1000000000"
    unfolding timeout_of_def Second_def scast_eq by (simp only: of_int_numeral)
  also have "\<dots> = word_of_int (sint s * 1000000000)" by (rule wi_hom_mult)
  finally have "sint (timeout_of s) = signed_take_bit 63 (sint s * 1000000000)"
    by (simp only: sint_sbintrunc') simp
  then show ?thesis using range by (simp only: signed_take_bit_int_eq_self)
qed

lemma Client_timeout:
  assumes "Client lib cfg w = (Ok c, w')"
  shows "cl_Timeout c = (if sint (cfg_RequestTimeout cfg) \<le> 0 then 30 * Second else cfg_RequestTimeout cfg)"
    and "0 < sint (cl_Timeout c)"
proof -
  show *: "cl_Timeout c = (if sint (cfg_RequestTimeout cfg) \<le> 0 then 30 * Second else cfg_RequestTimeout cfg)"
    using assms by (auto simp: Client_def Let_def word_sle_eq ret_def fail_def panic_def
      split: if_splits sum.splits round_tripper.splits)
  have "sint (30 * Second :: 64 word) = 30000000000" by (simp add: Second_def)
  then show "0 < sint (cl_Timeout c)" by (simp add: *)
qed

section \<open>The version check\<close>

definition SupportedVersionRange :: string where
  "SupportedVersionRange = ''>= 4.3.0, < 5.0.0''"

text \<open>Both results of \<open>CheckVersion\<close> are kept: the version it read and the error, if any.\<close>

definition CheckVersion :: "'v libs \<Rightarrow> 'w netbox_api \<Rightarrow> ('w, string \<times> error option) go" where
  "CheckVersion lib client =
     if_err (StatusList client)
       (\<lambda>err. ret ('''', Some (Errorf ''fetching NetBox status: %w'' [AErr err])))
       (\<lambda>resp. ret (case as_map resp of
          None \<Rightarrow> ('''', Some (Errorf ''unexpected NetBox status response shape'' []))
        | Some payload \<Rightarrow>
            let rawVersion = (case Option.bind (map_of payload ''netbox-version'') as_string of
                  None \<Rightarrow> '''' | Some s \<Rightarrow> s) in
            if rawVersion = '''' then ('''', Some (Errorf ''NetBox status response missing netbox-version'' []))
            else case NewVersion lib rawVersion of
              Inl err \<Rightarrow> (rawVersion, Some (Errorf ''parsing NetBox version %q: %w'' [AStr rawVersion, AErr err]))
            | Inr v \<Rightarrow>
                if \<not> Satisfies lib SupportedVersionRange v
                then (rawVersion, Some (Errorf ''NetBox version %s does not satisfy supported range %s''
                       [AStr rawVersion, AStr SupportedVersionRange]))
                else (rawVersion, None)))"

section \<open>Invariance\<close>

lemma config_keeps [keeps_rules]:
  assumes "\<And>ns n. keeps I (getSecret ns n)"
  shows "keeps I (LoadConfig getSecret namespace spec)"
  unfolding LoadConfig_def secretKey_def Let_def by (intro keeps_rules assms)

lemma CheckVersion_keeps [keeps_rules]: "api_keeps I client \<Longrightarrow> keeps I (CheckVersion lib client)"
  unfolding CheckVersion_def by (intro keeps_rules) (simp add: api_keeps_def)

lemma CheckVersion_reads: "keeps I (StatusList client) \<Longrightarrow> keeps I (CheckVersion lib client)"
  unfolding CheckVersion_def by (intro keeps_rules)

end
