(* ===== verification/Config_Store.thy ===== *)
theory Config_Store
  imports NetBox_Config
begin

text \<open>
  \<open>internal/config/store.go\<close>: the spec and client the HeraldConfig reconciler publishes for the
  others. Both fields are pointers, nil until the first successful reconcile. The store is
  shared by goroutines, so it is a field of the world every external call acts on: what
  another reconciler does to it while a call is in flight is part of that call.
\<close>

record store =
  sto_spec :: "HeraldConfigSpec option"
  sto_client :: "netbox_client option"

text \<open>The world of the reconcilers: the store, and whatever is outside the process.\<close>

record world =
  w_store :: store

definition NewStore :: store where
  "NewStore = \<lparr>sto_spec = None, sto_client = None\<rparr>"

definition StoreSet :: "HeraldConfigSpec option \<Rightarrow> netbox_client option \<Rightarrow> ('x world_scheme, unit) go" where
  "StoreSet spec client = (\<lambda>w. (Ok (), w\<lparr>w_store := \<lparr>sto_spec = spec, sto_client = client\<rparr>\<rparr>))"

definition StoreGet :: "('x world_scheme, HeraldConfigSpec option \<times> netbox_client option) go" where
  "StoreGet = (\<lambda>w. (Ok (sto_spec (w_store w), sto_client (w_store w)), w))"

text \<open>
  The HeraldConfig reconciler publishes a pointer into the object it has read, and its later
  \<open>Status().Update\<close> decodes the server's answer into that same object: the published spec
  becomes the answer's.
\<close>

definition StoreDecoded :: "HeraldConfigSpec \<Rightarrow> ('x world_scheme, unit) go" where
  "StoreDecoded spec = (\<lambda>w. (Ok (), w\<lparr>w_store := (w_store w)
     \<lparr>sto_spec := map_option (\<lambda>_. spec) (sto_spec (w_store w))\<rparr>\<rparr>))"

text \<open>Spec and client are nil together.\<close>

definition store_ok :: "store \<Rightarrow> bool" where
  "store_ok s \<longleftrightarrow> (sto_spec s = None \<longleftrightarrow> sto_client s = None)"

lemma store_ok_new: "store_ok NewStore"
  by (simp add: store_ok_def NewStore_def)

lemma store_ok_set: "store_ok \<lparr>sto_spec = sp, sto_client = c\<rparr> \<longleftrightarrow> (sp = None \<longleftrightarrow> c = None)"
  by (simp add: store_ok_def)

lemma store_ok_decoded: "store_ok s \<Longrightarrow> store_ok (s\<lparr>sto_spec := map_option f (sto_spec s)\<rparr>)"
  by (simp add: store_ok_def)

lemma StoreGet_apply [go_simps]: "StoreGet w = (Ok (sto_spec (w_store w), sto_client (w_store w)), w)"
  by (simp add: StoreGet_def)

lemma triple_StoreSet:
  "(\<And>w. P w \<Longrightarrow> Q () (w\<lparr>w_store := \<lparr>sto_spec = sp, sto_client = c\<rparr>\<rparr>)) \<Longrightarrow> triple P (StoreSet sp c) Q E"
  by (simp add: triple_def StoreSet_def)

lemma triple_StoreGet:
  "(\<And>w. P w \<Longrightarrow> Q (sto_spec (w_store w), sto_client (w_store w)) w) \<Longrightarrow> triple P StoreGet Q E"
  by (simp add: triple_def StoreGet_def)

lemma triple_StoreDecoded:
  "(\<And>w. P w \<Longrightarrow> Q () (w\<lparr>w_store := (w_store w)\<lparr>sto_spec := map_option (\<lambda>_. sp) (sto_spec (w_store w))\<rparr>\<rparr>)) \<Longrightarrow>
    triple P (StoreDecoded sp) Q E"
  by (simp add: triple_def StoreDecoded_def)

end
