(* ===== verification/NetBox_Tags.thy ===== *)
theory NetBox_Tags
  imports NetBox_Api
begin

text \<open>
  \<open>internal/netbox/tags.go\<close> and \<open>internal/netbox/customfields.go\<close>: the managed tag and the
  external-ID custom field, each looked up first and created only when missing.
\<close>

section \<open>The managed tag\<close>

definition managed_tag_data :: "string \<Rightarrow> tag_data" where
  "managed_tag_data slug =
     \<lparr>td_Name = ''netbox-herald managed'', td_Slug = slug,
      td_Description = ''Objects managed by netbox-herald. Do not edit or remove this tag manually.'',
      td_Color = ''0d6efd''\<rparr>"

lemma managed_tag_data_simps [simp]: "td_Slug (managed_tag_data slug) = slug"
  by (simp add: managed_tag_data_def)

definition EnsureManagedTag :: "'w netbox_api \<Rightarrow> string \<Rightarrow> ('w, tag) go" where
  "EnsureManagedTag client slug =
     bind (wrap_err (\<lambda>err. Errorf ''listing NetBox tags: %w'' [AErr err])
       (ExtrasTagsList client (no_params\<lparr>lp_Slug := Some slug\<rparr>)))
     (\<lambda>listResp. case List.find (\<lambda>tag. tg_Slug tag = Some slug) (pg_Results listResp) of
        Some tag \<Rightarrow> ret tag
      | None \<Rightarrow>
          wrap_err (\<lambda>err. Errorf ''creating NetBox managed tag %q: %w'' [AStr slug, AErr err])
            (ExtrasTagsCreate client (managed_tag_data slug)))"

definition NestedManagedTag :: "tag \<Rightarrow> nested_tag" where
  "NestedManagedTag tag = \<lparr>nt_ID = tg_ID tag, nt_Name = tg_Name tag, nt_Slug = tg_Slug tag\<rparr>"

text \<open>The tags of every object Herald writes.\<close>

lemma has_tag_NestedManagedTag:
  "wr_Tags d = [NestedManagedTag t] \<Longrightarrow> has_tag s d \<longleftrightarrow> tg_Slug t = Some s"
  by (simp add: has_tag_def NestedManagedTag_def)

text \<open>The tag it returns has a slug, whatever NetBox lists.\<close>

lemma EnsureManagedTag_slug:
  assumes "api_keeps I client"
  shows "triple I (EnsureManagedTag client slug) (\<lambda>t w. I w \<and> tg_Slug t \<noteq> None) (\<lambda>_. I)"
  unfolding EnsureManagedTag_def
proof (rule triple_bind[where R = "\<lambda>_. I"])
  show "triple I (wrap_err (\<lambda>err. Errorf ''listing NetBox tags: %w'' [AErr err])
      (ExtrasTagsList client (no_params\<lparr>lp_Slug := Some slug\<rparr>))) (\<lambda>_. I) (\<lambda>_. I)"
    using assms by (intro keepsD keeps_rules) (simp add: api_keeps_def)
  fix pg :: "tag page"
  show "triple I (case List.find (\<lambda>tag. tg_Slug tag = Some slug) (pg_Results pg) of
        Some tag \<Rightarrow> ret tag
      | None \<Rightarrow> wrap_err (\<lambda>err. Errorf ''creating NetBox managed tag %q: %w'' [AStr slug, AErr err])
          (ExtrasTagsCreate client (managed_tag_data slug)))
      (\<lambda>t w. I w \<and> tg_Slug t \<noteq> None) (\<lambda>_. I)"
    using assms by (auto split: option.splits simp: api_keeps_def dest!: find_Some_set
        intro!: triple_ret triple_wrap_err)
qed

lemma EnsureManagedTag_keeps [keeps_rules]: "api_keeps I client \<Longrightarrow> keeps I (EnsureManagedTag client slug)"
  by (rule keeps_triple[OF EnsureManagedTag_slug]) simp_all

definition tag_present :: "string \<Rightarrow> nb_view \<Rightarrow> bool" where
  "tag_present slug v \<longleftrightarrow> (\<exists>i d. v_tags v i = Some d \<and> td_Slug d = slug)"

text \<open>What a call of \<open>EnsureManagedTag\<close> does to the view.\<close>

definition tag_ensured :: "string \<Rightarrow> nb_view \<Rightarrow> nb_view \<Rightarrow> bool" where
  "tag_ensured slug v v' \<longleftrightarrow> v' = v \<or>
     \<not> tag_present slug v \<and> (\<exists>i d. v_tags v i = None \<and> td_Slug d = slug \<and> v' = v\<lparr>v_tags := (v_tags v)(i \<mapsto> d)\<rparr>)"

lemma EnsureManagedTag_triple:
  assumes "lawful_tags view client"
  shows "triple (\<lambda>w. view w = v) (EnsureManagedTag client slug)
    (\<lambda>t w. tg_Slug t = Some slug \<and> tag_ensured slug v (view w) \<and> tag_present slug (view w))
    (\<lambda>_ w. tag_ensured slug v (view w))"
proof -
  let ?found = "\<lambda>pg w. view w = v \<and>
      (\<forall>t \<in> set (pg_Results pg). \<exists>d. v_tags v (tg_ID t) = Some d \<and> tag_shows d t) \<and>
      (\<forall>i d. v_tags v i = Some d \<and> td_Slug d = slug \<longrightarrow> (\<exists>t \<in> set (pg_Results pg). tg_ID t = i))"
  have list: "triple (\<lambda>w. view w = v) (ExtrasTagsList client (no_params\<lparr>lp_Slug := Some slug\<rparr>))
      ?found (\<lambda>_ w. view w = v)"
    and create: "\<And>d. triple (\<lambda>w. view w = v) (ExtrasTagsCreate client d)
        (\<lambda>t w. v_tags v (tg_ID t) = None \<and> tag_shows d t \<and> view w = v\<lparr>v_tags := (v_tags v)(tg_ID t \<mapsto> d)\<rparr>)
        (\<lambda>_ w. view w = v \<or> (\<exists>i. v_tags v i = None \<and> view w = v\<lparr>v_tags := (v_tags v)(i \<mapsto> d)\<rparr>))"
    using assms by (simp_all add: lawful_tags_def)
  show ?thesis
    unfolding EnsureManagedTag_def
  proof (rule triple_bind[where R = ?found])
    show "triple (\<lambda>w. view w = v)
        (wrap_err (\<lambda>err. Errorf ''listing NetBox tags: %w'' [AErr err])
          (ExtrasTagsList client (no_params\<lparr>lp_Slug := Some slug\<rparr>)))
        ?found (\<lambda>_ w. tag_ensured slug v (view w))"
      by (rule triple_wrap_err, rule triple_weaken[OF list]) (auto simp: tag_ensured_def)
  next
    fix pg :: "tag page"
    show "triple (?found pg)
       (case List.find (\<lambda>tag. tg_Slug tag = Some slug) (pg_Results pg) of
          Some tag \<Rightarrow> ret tag
        | None \<Rightarrow> wrap_err (\<lambda>err. Errorf ''creating NetBox managed tag %q: %w'' [AStr slug, AErr err])
            (ExtrasTagsCreate client (managed_tag_data slug)))
       (\<lambda>t w. tg_Slug t = Some slug \<and> tag_ensured slug v (view w) \<and> tag_present slug (view w))
       (\<lambda>_ w. tag_ensured slug v (view w))"
    proof (cases "List.find (\<lambda>tag. tg_Slug tag = Some slug) (pg_Results pg)")
      case None
      have absent: "?found pg w \<Longrightarrow> \<not> tag_present slug v" for w
        using None unfolding find_None_all tag_present_def tag_shows_def
        by (metis (mono_tags, lifting) option.inject)
      have "triple (\<lambda>w. \<not> tag_present slug v \<and> view w = v) (ExtrasTagsCreate client (managed_tag_data slug))
          (\<lambda>t w. tg_Slug t = Some slug \<and> tag_ensured slug v (view w) \<and> tag_present slug (view w))
          (\<lambda>_ w. tag_ensured slug v (view w))"
        by (rule triple_pre_cond, rule triple_weaken[OF create])
          (force simp: tag_ensured_def tag_present_def tag_shows_def)+
      then have "triple (?found pg) (ExtrasTagsCreate client (managed_tag_data slug))
          (\<lambda>t w. tg_Slug t = Some slug \<and> tag_ensured slug v (view w) \<and> tag_present slug (view w))
          (\<lambda>_ w. tag_ensured slug v (view w))"
        by (rule triple_weaken) (use absent in auto)
      then show ?thesis
        unfolding None option.case by (rule triple_wrap_err)
    next
      case (Some t)
      have "tg_Slug t = Some slug \<and> tag_present slug v" if "?found pg w" for w
        using that find_Some_set[OF Some] by (fastforce simp: tag_present_def tag_shows_def)
      then show ?thesis
        unfolding Some option.case by (intro triple_ret) (auto simp: tag_ensured_def)
    qed
  qed
qed

lemma tag_ensured_tables:
  assumes "tag_ensured slug v v'"
  shows "v_clusters v' = v_clusters v" "v_devices v' = v_devices v" "v_vms v' = v_vms v"
    "v_ips v' = v_ips v" "v_prefixes v' = v_prefixes v" "v_aggregates v' = v_aggregates v"
    "v_fields v' = v_fields v" "v_refs v' = v_refs v"
  using assms by (auto simp: tag_ensured_def)

section \<open>The external-ID custom field\<close>

definition externalIDFieldObjectTypes :: "string list" where
  "externalIDFieldObjectTypes =
     [''dcim.device'', ''virtualization.virtualmachine'', ''ipam.ipaddress'', ''ipam.prefix'',
      ''ipam.aggregate'', ''virtualization.cluster'']"

definition external_id_field :: custom_field_data where
  "external_id_field =
     \<lparr>cd_Name = ExternalIDFieldName, cd_Label = ''Herald External ID'',
      cd_Description = ''Stable external ID (Kubernetes object UID) netbox-herald uses to find and update the same NetBox object across renames. Managed by netbox-herald; do not edit.'',
      cd_Type = ''text'', cd_ObjectTypes = externalIDFieldObjectTypes\<rparr>"

lemma external_id_field_simps [simp]:
  "cd_Name external_id_field = ExternalIDFieldName"
  "cd_ObjectTypes external_id_field = externalIDFieldObjectTypes"
  by (simp_all add: external_id_field_def)

definition EnsureExternalIDCustomField :: "'w netbox_api \<Rightarrow> ('w, unit) go" where
  "EnsureExternalIDCustomField client =
     (let name = ExternalIDFieldName in
      bind (wrap_err (\<lambda>err. Errorf ''listing NetBox custom fields: %w'' [AErr err])
        (ExtrasCustomFieldsList client (no_params\<lparr>lp_Name := Some name\<rparr>)))
      (\<lambda>listResp. case List.find (\<lambda>field. cf_Name field = Some name) (pg_Results listResp) of
         Some _ \<Rightarrow> ret ()
       | None \<Rightarrow>
           bind (wrap_err (\<lambda>err. Errorf ''creating NetBox custom field %q: %w'' [AStr name, AErr err])
             (ExtrasCustomFieldsCreate client external_id_field))
           (\<lambda>_. ret ())))"

lemma EnsureExternalIDCustomField_keeps [keeps_rules]:
  "api_keeps I client \<Longrightarrow> keeps I (EnsureExternalIDCustomField client)"
  unfolding EnsureExternalIDCustomField_def Let_def by (intro keeps_rules) (simp_all add: api_keeps_def)

definition field_present :: "nb_view \<Rightarrow> bool" where
  "field_present v \<longleftrightarrow> (\<exists>i d. v_fields v i = Some d \<and> cd_Name d = ExternalIDFieldName)"

definition field_ensured :: "nb_view \<Rightarrow> nb_view \<Rightarrow> bool" where
  "field_ensured v v' \<longleftrightarrow> v' = v \<or>
     \<not> field_present v \<and> (\<exists>i d. v_fields v i = None \<and> cd_Name d = ExternalIDFieldName \<and>
       cd_ObjectTypes d = externalIDFieldObjectTypes \<and> v' = v\<lparr>v_fields := (v_fields v)(i \<mapsto> d)\<rparr>)"

lemma EnsureExternalIDCustomField_triple:
  assumes "lawful_fields view client"
  shows "triple (\<lambda>w. view w = v) (EnsureExternalIDCustomField client)
    (\<lambda>_ w. field_ensured v (view w) \<and> field_present (view w)) (\<lambda>_ w. field_ensured v (view w))"
proof -
  let ?n = ExternalIDFieldName
  let ?found = "\<lambda>pg w. view w = v \<and>
      (\<forall>f \<in> set (pg_Results pg). \<exists>i d. v_fields v i = Some d \<and> cf_Name f = Some (cd_Name d)) \<and>
      (\<forall>i d. v_fields v i = Some d \<and> cd_Name d = ?n \<longrightarrow> (\<exists>f \<in> set (pg_Results pg). cf_Name f = Some ?n))"
  have list: "triple (\<lambda>w. view w = v) (ExtrasCustomFieldsList client (no_params\<lparr>lp_Name := Some ?n\<rparr>))
      ?found (\<lambda>_ w. view w = v)"
    and create: "triple (\<lambda>w. view w = v) (ExtrasCustomFieldsCreate client external_id_field)
        (\<lambda>_ w. \<exists>i. v_fields v i = None \<and> view w = v\<lparr>v_fields := (v_fields v)(i \<mapsto> external_id_field)\<rparr>)
        (\<lambda>_ w. view w = v \<or> (\<exists>i. v_fields v i = None \<and> view w = v\<lparr>v_fields := (v_fields v)(i \<mapsto> external_id_field)\<rparr>))"
    using assms by (simp_all add: lawful_fields_def)
  show ?thesis
    unfolding EnsureExternalIDCustomField_def Let_def
  proof (rule triple_bind[where R = ?found])
    show "triple (\<lambda>w. view w = v)
        (wrap_err (\<lambda>err. Errorf ''listing NetBox custom fields: %w'' [AErr err])
          (ExtrasCustomFieldsList client (no_params\<lparr>lp_Name := Some ?n\<rparr>)))
        ?found (\<lambda>_ w. field_ensured v (view w))"
      by (rule triple_wrap_err, rule triple_weaken[OF list]) (auto simp: field_ensured_def)
  next
    fix pg :: "custom_field page"
    show "triple (?found pg)
       (case List.find (\<lambda>field. cf_Name field = Some ?n) (pg_Results pg) of
          Some _ \<Rightarrow> ret ()
        | None \<Rightarrow> bind (wrap_err (\<lambda>err. Errorf ''creating NetBox custom field %q: %w'' [AStr ?n, AErr err])
            (ExtrasCustomFieldsCreate client external_id_field)) (\<lambda>_. ret ()))
       (\<lambda>_ w. field_ensured v (view w) \<and> field_present (view w))
       (\<lambda>_ w. field_ensured v (view w))"
    proof (cases "List.find (\<lambda>field. cf_Name field = Some ?n) (pg_Results pg)")
      case None
      have absent: "?found pg w \<Longrightarrow> \<not> field_present v" for w
        using None unfolding find_None_all field_present_def by blast
      have "triple (\<lambda>w. \<not> field_present v \<and> view w = v) (ExtrasCustomFieldsCreate client external_id_field)
          (\<lambda>_ w. field_ensured v (view w) \<and> field_present (view w)) (\<lambda>_ w. field_ensured v (view w))"
        by (rule triple_pre_cond, rule triple_weaken[OF create])
          (force simp: field_ensured_def field_present_def)+
      then have "triple (?found pg) (ExtrasCustomFieldsCreate client external_id_field)
          (\<lambda>_ w. field_ensured v (view w) \<and> field_present (view w)) (\<lambda>_ w. field_ensured v (view w))"
        by (rule triple_weaken) (use absent in auto)
      then show ?thesis
        unfolding None option.case by (intro triple_bind[OF triple_wrap_err] triple_ret)
    next
      case (Some f)
      have "field_present v" if "?found pg w" for w
        using that find_Some_set[OF Some] by (fastforce simp: field_present_def)
      then show ?thesis
        unfolding Some option.case by (intro triple_ret) (auto simp: field_ensured_def)
    qed
  qed
qed

end
