(* ===== verification/HeraldConfig_Controller.thy ===== *)
theory HeraldConfig_Controller
  imports Config_Store NetBox_Tags
begin

text \<open>
  \<open>internal/controller/heraldconfig_controller.go\<close>, and the environment of all reconcilers:
  the Kubernetes client, the clock, the status-condition helper of apimachinery, the
  libraries and the NetBox behind a client are the fields of \<open>('x, 'v) env\<close>. Logging is
  left out; \<open>ctrl.Result{}, err\<close> is the outcome \<open>Err err\<close>.
\<close>

section \<open>The environment\<close>

record ('x, 'v) env =
  GetHeraldConfig :: "string \<Rightarrow> ('x world_scheme, HeraldConfig) go"
  GetSecret :: "string \<Rightarrow> string \<Rightarrow> ('x world_scheme, secret) go"
  GetNamespace :: "string \<Rightarrow> ('x world_scheme, namespace) go"
  GetNode :: "string \<Rightarrow> ('x world_scheme, node) go"
  GetService :: "string \<Rightarrow> string \<Rightarrow> ('x world_scheme, service) go"
  ListNodes :: "('x world_scheme, node list) go"
  ListServices :: "('x world_scheme, service list) go"
  UpdateStatus :: "HeraldConfig \<Rightarrow> ('x world_scheme, HeraldConfig) go"
  SetStatusCondition :: "condition list \<Rightarrow> condition \<Rightarrow> ('x world_scheme, condition list) go"
  Now :: "('x world_scheme, time) go"
  Netbox :: "netbox_client \<Rightarrow> 'x world_scheme netbox_api"
  Libs :: "'v libs"
  OperatorNamespace :: string

section \<open>Defaults\<close>

definition singletonName :: string where
  "singletonName = ''default''"

definition defaultManagedTagSlug :: string where
  "defaultManagedTagSlug = ''netbox-herald-managed''"

definition resolveManagedTagSlug :: "HeraldConfigSpec \<Rightarrow> string" where
  "resolveManagedTagSlug spec =
     (if mt_Slug (nc_ManagedTag (hs_NetBox spec)) = '''' then defaultManagedTagSlug
      else mt_Slug (nc_ManagedTag (hs_NetBox spec)))"

definition storeNotReadyPollInterval :: duration where
  "storeNotReadyPollInterval = 10 * Second"

definition defaultResyncInterval :: duration where
  "defaultResyncInterval = 5 * Minute"

definition resolveResyncInterval :: "HeraldConfigSpec \<Rightarrow> duration" where
  "resolveResyncInterval spec =
     (if rs_Interval (hs_Resync spec) <=s 0 then defaultResyncInterval else rs_Interval (hs_Resync spec))"

lemma resolveManagedTagSlug_nonempty: "resolveManagedTagSlug spec \<noteq> ''''"
  by (simp add: resolveManagedTagSlug_def defaultManagedTagSlug_def)

text \<open>\<open>RequeueAfter\<close> of a resync is positive: the periodic resync never stalls on a bad interval.\<close>

lemma resolveResyncInterval_positive: "0 < sint (resolveResyncInterval spec)"
proof -
  have "sint (5 * (60 * 1000000000) :: 64 word) = 300000000000" by simp
  then show ?thesis
    by (simp add: resolveResyncInterval_def defaultResyncInterval_def Minute_def Second_def word_sle_eq)
qed

section \<open>Reconciling HeraldConfig\<close>

definition reportUnreachable :: "('x, 'v) env \<Rightarrow> HeraldConfig \<Rightarrow> error \<Rightarrow> ('x world_scheme, result) go" where
  "reportUnreachable env cr cause =
     bind (StoreSet None None) (\<lambda>_.
     bind (Now env) (\<lambda>now.
     let cr = cr\<lparr>hc_Status := (hc_Status cr)\<lparr>hc_NetBox :=
           zero_netbox_status\<lparr>ns_Connected := False, ns_LastCheckedTime := Some now\<rparr>\<rparr>\<rparr> in
     bind (SetStatusCondition env (hc_Conditions (hc_Status cr))
         \<lparr>cn_Type = ''NetBoxReachable'', cn_Status = ''False'', cn_Reason = ''ConnectionFailed'',
          cn_Message = ErrorText cause\<rparr>) (\<lambda>conditions.
     bind (SetStatusCondition env conditions
         \<lparr>cn_Type = ''Ready'', cn_Status = ''False'', cn_Reason = ''NetBoxUnreachable'',
          cn_Message = Literal ''Cannot sync any resources until NetBox is reachable''\<rparr>) (\<lambda>conditions.
     bind (attempt (UpdateStatus env (cr\<lparr>hc_Status := (hc_Status cr)\<lparr>hc_Conditions := conditions\<rparr>\<rparr>))) (\<lambda>_.
     fail cause)))))"

definition reportConnected :: "('x, 'v) env \<Rightarrow> HeraldConfig \<Rightarrow> string \<Rightarrow> ('x world_scheme, unit) go" where
  "reportConnected env cr version =
     bind (Now env) (\<lambda>now.
     let cr = cr\<lparr>hc_Status := (hc_Status cr)\<lparr>hc_NetBox :=
           \<lparr>ns_Connected = True, ns_Version = version, ns_LastCheckedTime = Some now\<rparr>\<rparr>\<rparr> in
     bind (SetStatusCondition env (hc_Conditions (hc_Status cr))
         \<lparr>cn_Type = ''NetBoxReachable'', cn_Status = ''True'', cn_Reason = ''Connected'',
          cn_Message = Literal ''Successfully connected to NetBox''\<rparr>) (\<lambda>conditions.
     bind (SetStatusCondition env conditions
         \<lparr>cn_Type = ''Ready'', cn_Status = ''True'', cn_Reason = ''Connected'',
          cn_Message = Literal ''Connected to NetBox; ready to sync enabled resources''\<rparr>) (\<lambda>conditions.
     bind (UpdateStatus env (cr\<lparr>hc_Status := (hc_Status cr)\<lparr>hc_Conditions := conditions\<rparr>\<rparr>)) (\<lambda>decoded.
     StoreDecoded (hc_Spec decoded)))))"

definition reconcileHeraldConfig :: "('x, 'v) env \<Rightarrow> request \<Rightarrow> ('x world_scheme, result) go" where
  "reconcileHeraldConfig env req =
     (if rq_Name req \<noteq> singletonName then ret no_requeue else
      if_err (GetHeraldConfig env (rq_Name req))
        (\<lambda>err. if IsNotFound err then bind (StoreSet None None) (\<lambda>_. ret no_requeue) else fail err) (\<lambda>cr.
      let spec = hc_Spec cr; resyncInterval = resolveResyncInterval spec in
      if_err (LoadConfig (GetSecret env) (OperatorNamespace env) (hs_NetBox spec))
        (reportUnreachable env cr) (\<lambda>netboxCfg.
      if_err (Client (Libs env) netboxCfg)
        (reportUnreachable env cr) (\<lambda>netboxClient.
      bind (if vc_Enabled (nc_VersionCheck (hs_NetBox spec))
            then CheckVersion (Libs env) (Netbox env netboxClient) else ret ('''', None)) (\<lambda>(version, verr).
      case verr of
        Some err \<Rightarrow> reportUnreachable env cr err
      | None \<Rightarrow>
      if_err (EnsureManagedTag (Netbox env netboxClient) (resolveManagedTagSlug spec))
        (reportUnreachable env cr) (\<lambda>_.
      if_err (EnsureExternalIDCustomField (Netbox env netboxClient))
        (reportUnreachable env cr) (\<lambda>_.
      bind (StoreSet (Some spec) (Some netboxClient)) (\<lambda>_.
      bind (reportConnected env cr version) (\<lambda>_.
      ret \<lparr>RequeueAfter = resyncInterval\<rparr>)))))))))"

section \<open>Shared by the resource reconcilers\<close>

text \<open>
  The tail of every status sync: \<open>count\<close> is what the count call gave (0 stands if it failed;
  \<open>int32(count)\<close> keeps the low 32 bits), and a nil error stamps the time.
\<close>

definition sync_status :: "('x, 'v) env \<Rightarrow> bool \<Rightarrow> 64 word \<Rightarrow> (error + 64 word) \<Rightarrow> error option \<Rightarrow>
    ('x world_scheme, ResourceSyncStatus) go" where
  "sync_status env enabled generation count syncErr =
     (let status = zero_sync_status\<lparr>ss_Enabled := enabled, ss_ObservedGeneration := generation\<rparr>;
          status = (case count of Inl _ \<Rightarrow> status | Inr n \<Rightarrow> status\<lparr>ss_ObjectCount := ucast n\<rparr>) in
      case syncErr of
        Some err \<Rightarrow> ret (status\<lparr>ss_LastError := ErrorText err\<rparr>)
      | None \<Rightarrow> bind (Now env) (\<lambda>now. ret (status\<lparr>ss_LastSyncTime := Some now\<rparr>)))"

end
