(* ===== verification/NetBox_Managed.thy ===== *)
theory NetBox_Managed
  imports NetBox_Tags
begin

text \<open>
  The interfaces the synced resource kinds share, as locales: finding a managed object by its
  external ID, creating or updating it, deleting it, listing and pruning what one Kubernetes
  object owns, and counting. \<open>internal/netbox/cluster.go\<close>, \<open>node.go\<close>, \<open>service.go\<close> and
  \<open>podcidr.go\<close> each write these operations out for their kind; the theories of those files
  interpret the locales on them. The abstract operations on the view that the calls implement
  (\<open>ensured\<close>, \<open>removed\<close>, \<open>drop_ids\<close>) come first.
\<close>

section \<open>Abstract operations on the managed objects\<close>

text \<open>
  \<open>ensured\<close>: the object \<open>i\<close> now carries the tag, the external ID and the attributes \<open>R\<close>;
  it is a fresh object, or one that already had this external ID. A fresh one is created only
  when there is none, provided the managed objects fit on one page of a listing.
\<close>

definition ensured :: "nat \<Rightarrow> ('o, 'd writable_scheme) kind \<Rightarrow> string \<Rightarrow> string \<Rightarrow> ('d writable_scheme \<Rightarrow> bool) \<Rightarrow> int \<Rightarrow>
    nb_view \<Rightarrow> nb_view \<Rightarrow> bool" where
  "ensured psize K slug x R i v v' \<longleftrightarrow>
     (\<exists>d. v' = put_obj K i d v \<and> has_tag slug d \<and> ext_of d = Some x \<and> R d) \<and>
     (i \<in> ids_for K slug x v \<or>
      k_get K v i = None \<and> (card (managed K slug v) \<le> psize \<longrightarrow> ids_for K slug x v = {}))"

text \<open>\<open>removed\<close>: one object with the external ID is gone, or there was none to see.\<close>

definition removed :: "nat \<Rightarrow> ('o, 'd writable_scheme) kind \<Rightarrow> string \<Rightarrow> string \<Rightarrow> nb_view \<Rightarrow> nb_view \<Rightarrow> bool" where
  "removed psize K slug x v v' \<longleftrightarrow>
     (\<exists>i \<in> ids_for K slug x v. v' = drop_ids K {i} v) \<or>
     v' = v \<and> (card (managed K slug v) \<le> psize \<longrightarrow> ids_for K slug x v = {})"

text \<open>At most one managed object per external ID.\<close>

definition unique_ids :: "('o, 'd writable_scheme) kind \<Rightarrow> string \<Rightarrow> nb_view \<Rightarrow> bool" where
  "unique_ids K slug v \<longleftrightarrow>
     (\<forall>x i j. i \<in> ids_for K slug x v \<longrightarrow> j \<in> ids_for K slug x v \<longrightarrow> i = j)"

text \<open>The managed objects whose external ID starts with an owner's prefix.\<close>

definition owned_ids :: "('o, 'd writable_scheme) kind \<Rightarrow> string \<Rightarrow> string \<Rightarrow> nb_view \<Rightarrow> int set" where
  "owned_ids K slug pre v = {i. \<exists>x. i \<in> ids_for K slug x v \<and> prefix pre x}"

lemma ids_for_iff: "i \<in> ids_for K slug x v \<longleftrightarrow> (\<exists>d. k_get K v i = Some d \<and> has_tag slug d \<and> ext_of d = Some x)"
  by (simp add: ids_for_def)

lemma ids_for_disjoint: "i \<in> ids_for K slug x v \<Longrightarrow> i \<in> ids_for K slug y v \<Longrightarrow> x = y"
  by (auto simp: ids_for_iff)

lemma owned_managed: "owned_ids K slug pre v \<subseteq> managed K slug v"
  by (auto simp: owned_ids_def ids_for_iff managed_def)

subsection \<open>Ensuring\<close>

lemma ensured_get:
  assumes "kind_ok K" and "ensured psize K slug x R i v v'"
  obtains d where "k_get K v' = (k_get K v)(i \<mapsto> d)" "has_tag slug d" "ext_of d = Some x" "R d"
proof -
  from assms(2) obtain d where "v' = put_obj K i d v" "has_tag slug d" "ext_of d = Some x" "R d"
    by (auto simp: ensured_def)
  then show thesis using that by (simp add: put_obj_get[OF assms(1)])
qed

lemma ensured_untouched:
  assumes "kind_ok K" and "ensured psize K slug x R i v v'"
  shows "untouched K slug v v'"
proof -
  obtain d where d: "k_get K v' = (k_get K v)(i \<mapsto> d)"
    by (rule ensured_get[OF assms])
  have "k_get K v i = None \<or> (\<exists>d. k_get K v i = Some d \<and> has_tag slug d)"
    using assms(2) by (auto simp: ensured_def ids_for_iff)
  with d show ?thesis by (auto simp: untouched_def)
qed

lemma ensured_ids_for:
  assumes "kind_ok K" and "ensured psize K slug x R i v v'"
  shows "ids_for K slug y v' = (if y = x then insert i (ids_for K slug x v) else ids_for K slug y v)"
proof -
  obtain d where d: "k_get K v' = (k_get K v)(i \<mapsto> d)" "has_tag slug d" "ext_of d = Some x"
    by (rule ensured_get[OF assms])
  have "i \<in> ids_for K slug y v \<Longrightarrow> y = x"
    using assms(2) by (auto simp: ensured_def ids_for_iff)
  with d show ?thesis by (auto simp: ids_for_def)
qed

lemma ensured_ext_ids:
  assumes "kind_ok K" and "ensured psize K slug x R i v v'"
  shows "ext_ids K slug v' = insert x (ext_ids K slug v)"
  by (auto simp: ext_ids_def ensured_ids_for[OF assms])

lemma ensured_managed:
  assumes "kind_ok K" and "ensured psize K slug x R i v v'"
  shows "managed K slug v' = insert i (managed K slug v)"
proof -
  obtain d where d: "k_get K v' = (k_get K v)(i \<mapsto> d)" "has_tag slug d"
    by (rule ensured_get[OF assms])
  then show ?thesis by (auto simp: managed_def)
qed

lemma ensured_unique:
  assumes "kind_ok K" and "ensured psize K slug x R i v v'"
    and "unique_ids K slug v" and "card (managed K slug v) \<le> psize"
  shows "unique_ids K slug v'" and "ids_for K slug x v' = {i}"
proof -
  have fresh: "i \<in> ids_for K slug x v \<or> ids_for K slug x v = {}"
    using assms(2,4) by (auto simp: ensured_def)
  show *: "ids_for K slug x v' = {i}"
    using fresh assms(3) unfolding ensured_ids_for[OF assms(1,2)] unique_ids_def by auto
  show "unique_ids K slug v'"
    unfolding unique_ids_def
  proof (intro allI impI)
    fix y a b
    assume "a \<in> ids_for K slug y v'" "b \<in> ids_for K slug y v'"
    then show "a = b"
      using assms(3) * by (cases "y = x") (auto simp: ensured_ids_for[OF assms(1,2)] unique_ids_def)
  qed
qed

lemma ensured_card:
  assumes "kind_ok K" and "ensured psize K slug x R i v v'" and "finite (managed K slug v)"
  shows "card (managed K slug v') \<le> Suc (card (managed K slug v))"
  by (simp add: ensured_managed[OF assms(1,2)] card_insert_le_m1 card_insert_if assms(3))

subsection \<open>Removing\<close>

lemma drop_ids_ids_for: "kind_ok K \<Longrightarrow> ids_for K slug x (drop_ids K I v) = ids_for K slug x v - I"
  by (auto simp: ids_for_def drop_ids_get restrict_map_def split: if_splits)

lemma drop_ids_managed: "kind_ok K \<Longrightarrow> managed K slug (drop_ids K I v) = managed K slug v - I"
  by (auto simp: managed_def drop_ids_get restrict_map_def split: if_splits)

lemma drop_ids_untouched: "kind_ok K \<Longrightarrow> I \<subseteq> managed K slug v \<Longrightarrow> untouched K slug v (drop_ids K I v)"
  by (force simp: untouched_def drop_ids_get restrict_map_def managed_def)

lemma drop_ids_unique: "kind_ok K \<Longrightarrow> unique_ids K slug v \<Longrightarrow> unique_ids K slug (drop_ids K I v)"
  by (auto simp: unique_ids_def drop_ids_ids_for)

lemma removed_untouched:
  assumes "kind_ok K" and "removed psize K slug x v v'"
  shows "untouched K slug v v'"
  using assms ids_for_managed[of K slug x v]
  by (auto simp: removed_def intro!: drop_ids_untouched)

lemma removed_ids_for:
  assumes "kind_ok K" and "removed psize K slug x v v'"
    and "unique_ids K slug v" and "card (managed K slug v) \<le> psize"
  shows "ids_for K slug y v' = (if y = x then {} else ids_for K slug y v)"
proof -
  from assms(2) consider
      i where "i \<in> ids_for K slug x v" and "v' = drop_ids K {i} v"
    | "v' = v" and "ids_for K slug x v = {}"
    using assms(4) by (auto simp: removed_def)
  then show ?thesis
  proof cases
    case 1
    have "ids_for K slug x v \<subseteq> {i}"
      using assms(3) 1(1) unfolding unique_ids_def by blast
    moreover have "y \<noteq> x \<Longrightarrow> i \<notin> ids_for K slug y v"
      using 1(1) ids_for_disjoint[of i K slug x v y] by blast
    ultimately show ?thesis using 1(2) by (auto simp: drop_ids_ids_for[OF assms(1)])
  next
    case 2
    then show ?thesis by simp
  qed
qed

lemma removed_ext_ids:
  assumes "kind_ok K" and "removed psize K slug x v v'"
    and "unique_ids K slug v" and "card (managed K slug v) \<le> psize"
  shows "ext_ids K slug v' = ext_ids K slug v - {x}"
  by (auto simp: ext_ids_def removed_ids_for[OF assms])

lemma removed_unique:
  assumes "kind_ok K" and "removed psize K slug x v v'" and "unique_ids K slug v"
  shows "unique_ids K slug v'"
  using assms(2,3) drop_ids_unique[OF assms(1)]
  by (auto simp: removed_def)

section \<open>Finding by external ID\<close>

definition found_ext :: "nat \<Rightarrow> ('o nb_object_scheme, 'd writable_scheme) kind \<Rightarrow> string \<Rightarrow> string \<Rightarrow> nb_view \<Rightarrow>
    'o nb_object_scheme option \<Rightarrow> bool" where
  "found_ext psize K slug x v r = (case r of
     Some ob \<Rightarrow> ob_ID ob \<in> ids_for K slug x v
   | None \<Rightarrow> card (managed K slug v) \<le> psize \<longrightarrow> ids_for K slug x v = {})"

lemma listing_by_tag:
  assumes "listing psize K (no_params\<lparr>lp_Tag := [slug]\<rparr>) v pg"
  shows "ob \<in> set (pg_Results pg) \<Longrightarrow>
      \<exists>d. k_get K v (ob_ID ob) = Some d \<and> has_tag slug d \<and> readExternalID (ob_CustomFields ob) = ext_of d"
    and "card (managed K slug v) \<le> psize \<Longrightarrow> i \<in> managed K slug v \<Longrightarrow>
      \<exists>ob \<in> set (pg_Results pg). ob_ID ob = i"
proof -
  show "\<exists>d. k_get K v (ob_ID ob) = Some d \<and> has_tag slug d \<and> readExternalID (ob_CustomFields ob) = ext_of d"
    if "ob \<in> set (pg_Results pg)"
    using assms that by (fastforce simp: listing_def admits_def displays_def no_params_def)
  show "\<exists>ob \<in> set (pg_Results pg). ob_ID ob = i" if "card (managed K slug v) \<le> psize" "i \<in> managed K slug v"
  proof -
    have "page_size psize (no_params\<lparr>lp_Tag := [slug]\<rparr>) = psize"
      by (simp add: page_size_def no_params_def)
    then have "managed K slug v \<subseteq> ob_ID ` set (pg_Results pg)"
      using assms that(1) unfolding listing_def managed_candidates[symmetric] managed_selected[symmetric] by metis
    then show ?thesis using that(2) by (auto simp: image_iff subset_iff)
  qed
qed

lemma listed_ext:
  assumes "listing psize K (no_params\<lparr>lp_Tag := [slug]\<rparr>) v pg" and "ob \<in> set (pg_Results pg)"
  shows "readExternalID (ob_CustomFields ob) = Some x \<longleftrightarrow> ob_ID ob \<in> ids_for K slug x v"
  using listing_by_tag(1)[OF assms] by (auto simp: ids_for_iff)

locale managed_finder =
  fixes K :: "('o nb_object_scheme, 'd writable_scheme) kind"
    and ep :: "'w netbox_api \<Rightarrow> ('o nb_object_scheme, 'd writable_scheme, 'w) endpoint"
    and listing_failed :: string
    and find_ext :: "'w netbox_api \<Rightarrow> string \<Rightarrow> string \<Rightarrow> ('w, 'o nb_object_scheme option) go"
  assumes kind: "kind_ok K"
    and find_eq: "find_ext client slug x =
      bind (wrap_err (\<lambda>e. Errorf listing_failed [AErr e]) (ep_list (ep client) (no_params\<lparr>lp_Tag := [slug]\<rparr>)))
        (\<lambda>resp. ret (List.find (\<lambda>ob. readExternalID (ob_CustomFields ob) = Some x) (pg_Results resp)))"
begin

lemma list_triple:
  assumes "lawful_ep psize view K (ep client)"
  shows "triple (\<lambda>w. view w = v)
      (wrap_err f (ep_list (ep client) p))
      (\<lambda>pg w. view w = v \<and> listing psize K p v pg) (\<lambda>_ w. view w = v)"
  using assms by (intro triple_wrap_err) (simp add: lawful_ep_def)

lemma find_keeps: "ep_keeps I (ep client) \<Longrightarrow> keeps I (find_ext client slug x)"
  unfolding find_eq by (intro keeps_rules)

lemma find_triple:
  assumes "lawful_ep psize view K (ep client)"
  shows "triple (\<lambda>w. view w = v) (find_ext client slug x)
    (\<lambda>r w. view w = v \<and> found_ext psize K slug x v r) (\<lambda>_ w. view w = v)"
  unfolding find_eq
proof (rule triple_bind[OF list_triple[OF assms]], rule triple_ret, erule conjE, rule conjI)
  fix pg :: "'o nb_object_scheme page" and w
  assume pg: "listing psize K (no_params\<lparr>lp_Tag := [slug]\<rparr>) v pg"
  show "found_ext psize K slug x v
      (List.find (\<lambda>ob. readExternalID (ob_CustomFields ob) = Some x) (pg_Results pg))" (is "found_ext _ _ _ _ _ ?r")
  proof (cases ?r)
    case None
    then have "i \<notin> ids_for K slug x v" if "card (managed K slug v) \<le> psize" for i
      using listing_by_tag(2)[OF pg that] listed_ext[OF pg] ids_for_managed[of K slug x v]
      unfolding find_None_all by blast
    then show ?thesis unfolding None by (auto simp: found_ext_def)
  next
    case (Some ob)
    then show ?thesis using listed_ext[OF pg] find_Some_set[OF Some] by (auto simp: found_ext_def)
  qed
qed

lemma finite_managed:
  assumes "lawful_ep psize view K (ep client)"
  shows "finite (managed K slug (view w))"
proof -
  have "finite (dom (k_get K (view w)))"
    using assms by (simp add: lawful_ep_def)
  then show ?thesis by (rule finite_subset[rotated]) (auto simp: managed_def)
qed

lemma triple_finite:
  assumes "lawful_ep psize view K (ep client)"
  shows "triple (\<lambda>w. view w = v) m Q E \<Longrightarrow>
    triple (\<lambda>w. view w = v) m (\<lambda>x w. Q x w \<and> finite (managed K slug v)) (\<lambda>e w. E e w \<and> finite (managed K slug v))"
  using finite_managed[OF assms, of slug] by (fastforce simp: triple_def split: outcome.splits prod.splits)

end

section \<open>Creating or updating\<close>

locale managed_ensure = managed_finder +
  fixes spec_tag :: "'s \<Rightarrow> tag"
    and spec_ext :: "'s \<Rightarrow> string"
    and prepare :: "'w netbox_api \<Rightarrow> 's \<Rightarrow> ('w, 'd writable_scheme) go"
    and update_failed :: "'s \<Rightarrow> int \<Rightarrow> error \<Rightarrow> error"
    and create_failed :: "'s \<Rightarrow> error \<Rightarrow> error"
    and ensure :: "'w netbox_api \<Rightarrow> 's \<Rightarrow> ('w, int) go"
  assumes ensure_eq: "ensure client spec =
      bind (deref (tg_Slug (spec_tag spec))) (\<lambda>slug.
      bind (find_ext client slug (spec_ext spec)) (\<lambda>existing.
      bind (prepare client spec) (\<lambda>data.
      case existing of
        Some ob \<Rightarrow> bind (wrap_err (update_failed spec (ob_ID ob)) (ep_update (ep client) (ob_ID ob) data))
          (\<lambda>resp. ret (ob_ID resp))
      | None \<Rightarrow> bind (wrap_err (create_failed spec) (ep_create (ep client) data))
          (\<lambda>resp. ret (ob_ID resp)))))"
    and prepared: "prepare client spec w = (Ok d, w') \<Longrightarrow>
      wr_Tags d = [NestedManagedTag (spec_tag spec)] \<and>
      wr_CustomFields d = GMap [(ExternalIDFieldName, GString (spec_ext spec))]"
begin

lemma ensure_keeps:
  assumes "ep_keeps I (ep client)" and "keeps I (prepare client spec)" and "tg_Slug (spec_tag spec) \<noteq> None"
  shows "keeps I (ensure client spec)"
proof -
  obtain slug where "tg_Slug (spec_tag spec) = Some slug" using assms(3) by blast
  then show ?thesis
    unfolding ensure_eq using assms(1,2) by (auto intro!: keeps_rules find_keeps)
qed

lemma ensure_triple:
  assumes law: "lawful_ep psize view K (ep client)"
    and slug: "tg_Slug (spec_tag spec) = Some slug"
    and prep: "triple (\<lambda>w. view w = v) (prepare client spec)
      (\<lambda>d w. view w = v \<and> P d) (\<lambda>_ w. view w = v)"
    and kept: "\<And>d d'. P d \<Longrightarrow> stored_as K d d' \<Longrightarrow> R d'"
  shows "triple (\<lambda>w. view w = v) (ensure client spec)
    (\<lambda>i w. ensured psize K slug (spec_ext spec) R i v (view w))
    (\<lambda>_ w. view w = v \<or> (\<exists>i. ensured psize K slug (spec_ext spec) R i v (view w)))"
proof -
  let ?x = "spec_ext spec"
  let ?fits = "card (managed K slug v) \<le> psize"
  have data: "triple (\<lambda>w. view w = v) (prepare client spec)
      (\<lambda>d w. (P d \<and> has_tag slug d \<and> ext_of d = Some ?x) \<and> view w = v) (\<lambda>_ w. view w = v)"
  proof (rule tripleI)
    fix w d w'
    assume "view w = v" and run: "prepare client spec w = (Ok d, w')"
    then show "(P d \<and> has_tag slug d \<and> ext_of d = Some ?x) \<and> view w' = v"
      using prepared[OF run] triple_OkD[OF prep _ run] slug
      by (simp add: has_tag_NestedManagedTag ext_of_def)
  next
    fix w e w'
    assume "view w = v" and "prepare client spec w = (Err e, w')"
    then show "view w' = v" by (rule triple_ErrD[OF prep])
  next
    fix w w'
    assume "view w = v" and "prepare client spec w = (Panic, w')"
    then show False by (rule triple_PanicD[OF prep])
  qed
  have store: "triple (\<lambda>w. view w = v)
      (case r of
        Some ob \<Rightarrow> bind (wrap_err (update_failed spec (ob_ID ob)) (ep_update (ep client) (ob_ID ob) d))
          (\<lambda>resp. ret (ob_ID resp))
      | None \<Rightarrow> bind (wrap_err (create_failed spec) (ep_create (ep client) d)) (\<lambda>resp. ret (ob_ID resp)))
      (\<lambda>i w. ensured psize K slug ?x R i v (view w))
      (\<lambda>_ w. view w = v \<or> (\<exists>i. ensured psize K slug ?x R i v (view w)))"
    if found: "found_ext psize K slug ?x v r"
      and d: "P d" "has_tag slug d" "ext_of d = Some ?x" for r d
  proof (cases r)
    case (Some ob)
    let ?i = "ob_ID ob"
    have i: "?i \<in> ids_for K slug ?x v" using found Some by (simp add: found_ext_def)
    have upd: "updated K ?i d v v' \<Longrightarrow> ensured psize K slug ?x R ?i v v'" for v'
      using i d(2,3) kept[OF d(1)] by (auto simp: updated_def ensured_def stored_as_def)
    have "triple (\<lambda>w. view w = v) (ep_update (ep client) ?i d)
        (\<lambda>ob w. ob_ID ob = ?i \<and> updated K ?i d v (view w)) (\<lambda>_ w. view w = v \<or> updated K ?i d v (view w))"
      using law by (simp add: lawful_ep_def)
    then have "triple (\<lambda>w. view w = v) (wrap_err (update_failed spec ?i) (ep_update (ep client) ?i d))
        (\<lambda>ob w. ob_ID ob = ?i \<and> updated K ?i d v (view w))
        (\<lambda>_ w. view w = v \<or> (\<exists>i. ensured psize K slug ?x R i v (view w)))"
      by (intro triple_wrap_err) (rule triple_weaken, assumption, auto dest: upd)
    then show ?thesis
      unfolding Some option.case by (rule triple_bind) (rule triple_ret, use upd in auto)
  next
    case None
    have none: "?fits \<longrightarrow> ids_for K slug ?x v = {}" using found None by (simp add: found_ext_def)
    have cre: "created K d ob v v' \<Longrightarrow> ensured psize K slug ?x R (ob_ID ob) v v'"
      for ob v'
      using none d(2,3) kept[OF d(1)] by (auto simp: created_def ensured_def stored_as_def)
    have "triple (\<lambda>w. view w = v) (ep_create (ep client) d)
        (\<lambda>ob w. created K d ob v (view w)) (\<lambda>_ w. view w = v \<or> (\<exists>ob. created K d ob v (view w)))"
      using law by (simp add: lawful_ep_def)
    then have "triple (\<lambda>w. view w = v) (wrap_err (create_failed spec) (ep_create (ep client) d))
        (\<lambda>ob w. created K d ob v (view w))
        (\<lambda>_ w. view w = v \<or> (\<exists>i. ensured psize K slug ?x R i v (view w)))"
      by (intro triple_wrap_err) (rule triple_weaken, assumption, auto dest: cre)
    then show ?thesis
      unfolding None option.case by (rule triple_bind) (rule triple_ret, rule cre)
  qed
  show ?thesis
    unfolding ensure_eq slug deref_simps bind_ret
  proof (rule triple_bind[where R = "\<lambda>r w. found_ext psize K slug ?x v r \<and> view w = v"])
    show "triple (\<lambda>w. view w = v) (find_ext client slug ?x)
        (\<lambda>r w. found_ext psize K slug ?x v r \<and> view w = v)
        (\<lambda>_ w. view w = v \<or> (\<exists>i. ensured psize K slug ?x R i v (view w)))"
      by (rule triple_weaken[OF find_triple[OF law]]) auto
  next
    fix r
    show "triple (\<lambda>w. found_ext psize K slug ?x v r \<and> view w = v)
        (bind (prepare client spec) (\<lambda>data. case r of
          Some ob \<Rightarrow> bind (wrap_err (update_failed spec (ob_ID ob)) (ep_update (ep client) (ob_ID ob) data))
            (\<lambda>resp. ret (ob_ID resp))
        | None \<Rightarrow> bind (wrap_err (create_failed spec) (ep_create (ep client) data)) (\<lambda>resp. ret (ob_ID resp))))
        (\<lambda>i w. ensured psize K slug ?x R i v (view w))
        (\<lambda>_ w. view w = v \<or> (\<exists>i. ensured psize K slug ?x R i v (view w)))"
    proof (rule triple_pre_cond, rule triple_bind)
      show "triple (\<lambda>w. view w = v) (prepare client spec)
          (\<lambda>d w. (P d \<and> has_tag slug d \<and> ext_of d = Some ?x) \<and> view w = v)
          (\<lambda>_ w. view w = v \<or> (\<exists>i. ensured psize K slug ?x R i v (view w)))"
        by (rule triple_weaken[OF data]) auto
    qed (rule triple_pre_cond, rule store, auto)
  qed
qed

end

end
