(* ===== verification/NetBox_Removal.thy ===== *)
theory NetBox_Removal
  imports NetBox_Managed
begin

text \<open>
  The removing and counting interfaces the resource kinds share: deletion by external ID,
  deletion by NetBox ID, the list of what one owner has and its deletion, pruning to a
  desired set of external IDs, and the count of managed objects.
\<close>

section \<open>Deleting by external ID\<close>

locale managed_delete = managed_finder +
  fixes delete_failed :: "int \<Rightarrow> error \<Rightarrow> error"
    and delete_ext :: "'w netbox_api \<Rightarrow> string \<Rightarrow> string \<Rightarrow> ('w, unit) go"
  assumes delete_ext_eq: "delete_ext client slug x =
      bind (find_ext client slug x) (\<lambda>existing.
        case existing of
          None \<Rightarrow> ret ()
        | Some ob \<Rightarrow> bind (wrap_err (delete_failed (ob_ID ob)) (ep_delete (ep client) (ob_ID ob))) (\<lambda>_. ret ()))"
begin

lemma delete_call:
  assumes "lawful_ep psize view K (ep client)"
  shows "triple (\<lambda>w. view w = v) (bind (wrap_err f (ep_delete (ep client) i)) (\<lambda>_. ret ()))
    (\<lambda>_ w. view w = drop_ids K {i} v) (\<lambda>_ w. view w = v \<or> view w = drop_ids K {i} v)"
  using assms by (intro triple_bind[OF triple_wrap_err] triple_ret) (auto simp: lawful_ep_def)

lemma delete_ext_keeps: "ep_keeps I (ep client) \<Longrightarrow> keeps I (delete_ext client slug x)"
  unfolding delete_ext_eq by (intro keeps_rules find_keeps)

lemma delete_ext_triple:
  assumes "lawful_ep psize view K (ep client)"
  shows "triple (\<lambda>w. view w = v) (delete_ext client slug x)
    (\<lambda>_ w. removed psize K slug x v (view w))
    (\<lambda>_ w. view w = v \<or> removed psize K slug x v (view w))"
  unfolding delete_ext_eq
proof (rule triple_bind[where R = "\<lambda>r w. found_ext psize K slug x v r \<and> view w = v"])
  show "triple (\<lambda>w. view w = v) (find_ext client slug x)
      (\<lambda>r w. found_ext psize K slug x v r \<and> view w = v) (\<lambda>_ w. view w = v \<or> removed psize K slug x v (view w))"
    by (rule triple_weaken[OF find_triple[OF assms]]) auto
next
  fix r
  show "triple (\<lambda>w. found_ext psize K slug x v r \<and> view w = v)
      (case r of None \<Rightarrow> ret ()
        | Some ob \<Rightarrow> bind (wrap_err (delete_failed (ob_ID ob)) (ep_delete (ep client) (ob_ID ob))) (\<lambda>_. ret ()))
      (\<lambda>_ w. removed psize K slug x v (view w))
      (\<lambda>_ w. view w = v \<or> removed psize K slug x v (view w))"
  proof (rule triple_pre_cond)
    assume found: "found_ext psize K slug x v r"
    show "triple (\<lambda>w. view w = v)
        (case r of None \<Rightarrow> ret ()
          | Some ob \<Rightarrow> bind (wrap_err (delete_failed (ob_ID ob)) (ep_delete (ep client) (ob_ID ob))) (\<lambda>_. ret ()))
        (\<lambda>_ w. removed psize K slug x v (view w))
        (\<lambda>_ w. view w = v \<or> removed psize K slug x v (view w))"
    proof (cases r)
      case None
      with found show ?thesis by (auto intro!: triple_ret simp: removed_def found_ext_def)
    next
      case (Some ob)
      then have "removed psize K slug x v (drop_ids K {ob_ID ob} v)"
        using found by (auto simp: removed_def found_ext_def)
      then show ?thesis
        unfolding Some option.case by (intro triple_weaken[OF delete_call[OF assms]]) auto
    qed
  qed
qed

end

section \<open>Deleting by NetBox ID and by name\<close>

locale managed_by_id = managed_finder +
  fixes delete_failed :: "int \<Rightarrow> error \<Rightarrow> error"
    and delete_id :: "'w netbox_api \<Rightarrow> int \<Rightarrow> ('w, unit) go"
  assumes delete_id_eq: "delete_id client i =
      bind (wrap_err (delete_failed i) (ep_delete (ep client) i)) (\<lambda>_. ret ())"
begin

lemma delete_id_keeps: "ep_keeps I (ep client) \<Longrightarrow> keeps I (delete_id client i)"
  unfolding delete_id_eq by (intro keeps_rules)

lemma delete_id_triple:
  assumes "lawful_ep psize view K (ep client)"
  shows "triple (\<lambda>w. view w = v) (delete_id client i)
    (\<lambda>_ w. view w = drop_ids K {i} v) (\<lambda>_ w. view w = v \<or> view w = drop_ids K {i} v)"
  unfolding delete_id_eq
  using assms by (intro triple_bind[OF triple_wrap_err] triple_ret) (auto simp: lawful_ep_def)

end

text \<open>The managed objects of a given name, and the removal of one of them.\<close>

definition named_ids :: "('o, 'd writable_scheme) kind \<Rightarrow> string \<Rightarrow> string \<Rightarrow> nb_view \<Rightarrow> int set" where
  "named_ids K slug n v = {i. \<exists>d. k_get K v i = Some d \<and> has_tag slug d \<and> k_name K d = Some n}"

definition removed_named :: "nat \<Rightarrow> ('o, 'd writable_scheme) kind \<Rightarrow> string \<Rightarrow> string \<Rightarrow> nb_view \<Rightarrow> nb_view \<Rightarrow> bool" where
  "removed_named psize K slug n v v' \<longleftrightarrow>
     (\<exists>i \<in> named_ids K slug n v. v' = drop_ids K {i} v) \<or>
     v' = v \<and> (card (managed K slug v) \<le> psize \<longrightarrow> named_ids K slug n v = {})"

lemma named_ids_managed: "named_ids K slug n v \<subseteq> managed K slug v"
  by (auto simp: named_ids_def managed_def)

lemma removed_named_untouched:
  assumes "kind_ok K" and "removed_named psize K slug n v v'"
  shows "untouched K slug v v'"
  using assms named_ids_managed[of K slug n v]
  by (auto simp: removed_named_def intro!: drop_ids_untouched)

locale managed_named = managed_by_id +
  fixes delete_name :: "'w netbox_api \<Rightarrow> string \<Rightarrow> string \<Rightarrow> ('w, unit) go"
  assumes delete_name_eq: "delete_name client slug n =
      bind (wrap_err (\<lambda>e. Errorf listing_failed [AErr e])
          (ep_list (ep client) (no_params\<lparr>lp_Tag := [slug], lp_Name := Some n\<rparr>)))
        (\<lambda>resp. case List.find (\<lambda>ob. k_oname K ob = Some n) (pg_Results resp) of
           Some ob \<Rightarrow> delete_id client (ob_ID ob)
         | None \<Rightarrow> ret ())"
begin

lemma delete_name_keeps: "ep_keeps I (ep client) \<Longrightarrow> keeps I (delete_name client slug n)"
  unfolding delete_name_eq by (intro keeps_rules delete_id_keeps)

lemma delete_name_triple:
  assumes law: "lawful_ep psize view K (ep client)"
  shows "triple (\<lambda>w. view w = v) (delete_name client slug n)
    (\<lambda>_ w. removed_named psize K slug n v (view w))
    (\<lambda>_ w. view w = v \<or> removed_named psize K slug n v (view w))"
  unfolding delete_name_eq
proof (rule triple_bind_fact[where F = "\<lambda>pg. listing psize K (no_params\<lparr>lp_Tag := [slug], lp_Name := Some n\<rparr>) v pg \<and>
    finite (managed K slug v)"])
  let ?p = "no_params\<lparr>lp_Tag := [slug], lp_Name := Some n\<rparr>"
  show "triple (\<lambda>w. view w = v) (wrap_err (\<lambda>e. Errorf listing_failed [AErr e]) (ep_list (ep client) ?p))
      (\<lambda>pg w. view w = v \<and> listing psize K ?p v pg \<and> finite (managed K slug v))
      (\<lambda>_ w. view w = v \<or> removed_named psize K slug n v (view w))"
    by (rule triple_post[OF list_triple[OF law]]) (use finite_managed[OF law] in auto)
next
  let ?p = "no_params\<lparr>lp_Tag := [slug], lp_Name := Some n\<rparr>"
  fix pg
  assume "listing psize K ?p v pg \<and> finite (managed K slug v)"
  then have pg: "listing psize K ?p v pg" and fin: "finite (managed K slug v)" by simp_all
  let ?r = "List.find (\<lambda>ob. k_oname K ob = Some n) (pg_Results pg)"
  have shown: "ob_ID ob \<in> managed K slug v \<and>
      (k_oname K ob = Some n \<longleftrightarrow> ob_ID ob \<in> named_ids K slug n v)" if "ob \<in> set (pg_Results pg)" for ob
    using pg that by (fastforce simp: listing_def admits_def displays_def no_params_def named_ids_def managed_def)
  show "triple (\<lambda>w. view w = v) (case ?r of Some ob \<Rightarrow> delete_id client (ob_ID ob) | None \<Rightarrow> ret ())
      (\<lambda>_ w. removed_named psize K slug n v (view w)) (\<lambda>_ w. view w = v \<or> removed_named psize K slug n v (view w))"
  proof (cases ?r)
    case None
    have "named_ids K slug n v = {}" if fits: "card (managed K slug v) \<le> psize"
    proof -
      have "candidates K ?p v \<subseteq> managed K slug v"
        by (auto simp: candidates_def admits_def no_params_def managed_def)
      then have "card (candidates K ?p v) \<le> psize"
        using card_mono[OF fin] fits by (meson order_trans)
      moreover have "page_size psize ?p = psize" by (simp add: page_size_def no_params_def)
      ultimately have "selected K ?p v \<subseteq> ob_ID ` set (pg_Results pg)"
        using pg unfolding listing_def by simp
      moreover have "selected K ?p v = named_ids K slug n v"
        by (auto simp: selected_def selects_def no_params_def named_ids_def)
      ultimately have "named_ids K slug n v \<subseteq> ob_ID ` set (pg_Results pg)" by simp
      then show ?thesis using None shown unfolding find_None_all by (blast elim: imageE)
    qed
    then have "removed_named psize K slug n v v" by (simp add: removed_named_def)
    then show ?thesis unfolding None option.case by (intro triple_ret) simp
  next
    case (Some ob)
    then have "ob_ID ob \<in> named_ids K slug n v" using find_Some_set[OF Some] shown[of ob] by blast
    then have "removed_named psize K slug n v (drop_ids K {ob_ID ob} v)" by (auto simp: removed_named_def)
    then show ?thesis
      unfolding Some option.case by (intro triple_weaken[OF delete_id_triple[OF law]]) auto
  qed
qed

end

section \<open>What one owner has\<close>

text \<open>
  The type assertion in the pruning loops,
  \<open>id, _ := x.CustomFields.(map[string]any)[ExternalIDFieldName].(string)\<close>: the first
  assertion is the single-value form and panics, the second falls back to the empty string.
\<close>

definition assertExternalID :: "any \<Rightarrow> ('w, string) go" where
  "assertExternalID customFields =
     (case as_map customFields of
        None \<Rightarrow> panic
      | Some m \<Rightarrow> ret (case map_of m ExternalIDFieldName of
          None \<Rightarrow> '''' | Some v \<Rightarrow> (case as_string v of None \<Rightarrow> '''' | Some s \<Rightarrow> s)))"

lemma assertExternalID_read: "readExternalID cf = Some x \<Longrightarrow> assertExternalID cf = ret x"
  by (auto simp: readExternalID_Some assertExternalID_def)

lemma owned_ids_listed:
  assumes "listing psize K (no_params\<lparr>lp_Tag := [slug]\<rparr>) v pg"
    and "owned = filter (\<lambda>ob. case readExternalID (ob_CustomFields ob) of
      Some x \<Rightarrow> prefix pre x | None \<Rightarrow> False) (pg_Results pg)"
  shows "ob \<in> set owned \<Longrightarrow> \<exists>x. readExternalID (ob_CustomFields ob) = Some x \<and>
      ob_ID ob \<in> ids_for K slug x v \<and> prefix pre x"
    and "card (managed K slug v) \<le> psize \<Longrightarrow> owned_ids K slug pre v \<subseteq> ob_ID ` set owned"
proof -
  show "\<exists>x. readExternalID (ob_CustomFields ob) = Some x \<and> ob_ID ob \<in> ids_for K slug x v \<and> prefix pre x"
    if "ob \<in> set owned"
    using that listed_ext[OF assms(1)] by (auto simp: assms(2) split: option.splits)
  show "owned_ids K slug pre v \<subseteq> ob_ID ` set owned" if fits: "card (managed K slug v) \<le> psize"
  proof
    fix i
    assume "i \<in> owned_ids K slug pre v"
    then obtain x where x: "i \<in> ids_for K slug x v" "prefix pre x" by (auto simp: owned_ids_def)
    then obtain ob where ob: "ob \<in> set (pg_Results pg)" "ob_ID ob = i"
      using listing_by_tag(2)[OF assms(1) fits] ids_for_managed[of K slug x v] by blast
    then have "readExternalID (ob_CustomFields ob) = Some x"
      using listed_ext[OF assms(1) ob(1)] x(1) by simp
    then show "i \<in> ob_ID ` set owned" using ob x(2) by (auto simp: assms(2) intro!: image_eqI[of _ _ ob])
  qed
qed

text \<open>
  What pruning to a set of desired external IDs does: the owner's other objects are gone, all
  of them if the managed objects fit on a page.
\<close>

definition stale_ids :: "('o, 'd writable_scheme) kind \<Rightarrow> string \<Rightarrow> string \<Rightarrow> string set \<Rightarrow> nb_view \<Rightarrow> int set" where
  "stale_ids K slug pre D v = {i. \<exists>x. i \<in> ids_for K slug x v \<and> prefix pre x \<and> x \<notin> D}"

definition pruned :: "nat \<Rightarrow> ('o, 'd writable_scheme) kind \<Rightarrow> string \<Rightarrow> string \<Rightarrow> string set \<Rightarrow>
    nb_view \<Rightarrow> nb_view \<Rightarrow> bool" where
  "pruned psize K slug pre D v v' \<longleftrightarrow>
     (\<exists>I \<subseteq> stale_ids K slug pre D v. v' = drop_ids K I v \<and>
        (card (managed K slug v) \<le> psize \<longrightarrow> I = stale_ids K slug pre D v))"

definition partly_pruned :: "('o, 'd writable_scheme) kind \<Rightarrow> string \<Rightarrow> string \<Rightarrow> string set \<Rightarrow>
    nb_view \<Rightarrow> nb_view \<Rightarrow> bool" where
  "partly_pruned K slug pre D v v' \<longleftrightarrow> (\<exists>I \<subseteq> stale_ids K slug pre D v. v' = drop_ids K I v)"

lemma partly_pruned_refl: "kind_ok K \<Longrightarrow> partly_pruned K slug pre D v v"
  by (auto simp: partly_pruned_def intro!: exI[of _ "{}"])

lemma pruned_partly: "pruned psize K slug pre D v v' \<Longrightarrow> partly_pruned K slug pre D v v'"
  by (auto simp: pruned_def partly_pruned_def)

lemma stale_managed: "stale_ids K slug pre D v \<subseteq> managed K slug v"
  by (auto simp: stale_ids_def ids_for_iff managed_def)

lemma owned_stale: "owned_ids K slug pre v = stale_ids K slug pre {} v"
  by (auto simp: owned_ids_def stale_ids_def)

lemma ids_for_in: "i \<in> ids_for K slug x v \<Longrightarrow> (\<exists>y \<in> D. i \<in> ids_for K slug y v) \<longleftrightarrow> x \<in> D"
  by (auto dest: ids_for_disjoint)

lemma stale_iff: "i \<in> ids_for K slug x v \<Longrightarrow> i \<in> stale_ids K slug pre D v \<longleftrightarrow> prefix pre x \<and> x \<notin> D"
  by (auto simp: stale_ids_def dest: ids_for_disjoint)

lemma partly_pruned_untouched:
  assumes "kind_ok K" and "partly_pruned K slug pre D v v'"
  shows "untouched K slug v v'"
  using assms stale_managed[of K slug pre D v] unfolding partly_pruned_def
  by (blast intro: drop_ids_untouched)

text \<open>The owner's external IDs afterwards, and everybody else's.\<close>

lemma pruned_ids_for:
  assumes "kind_ok K" and "pruned psize K slug pre D v v'" and "card (managed K slug v) \<le> psize"
  shows "ids_for K slug x v' = (if prefix pre x \<and> x \<notin> D then {} else ids_for K slug x v)"
proof -
  have v': "v' = drop_ids K (stale_ids K slug pre D v) v"
    using assms(2,3) unfolding pruned_def by blast
  have "i \<in> stale_ids K slug pre D v \<longleftrightarrow> prefix pre x \<and> x \<notin> D" if "i \<in> ids_for K slug x v" for i
    by (rule stale_iff[OF that])
  then show ?thesis
    unfolding v' drop_ids_ids_for[OF assms(1)] by auto
qed

lemma partly_pruned_ids_for:
  assumes "kind_ok K" and "partly_pruned K slug pre D v v'" and "prefix pre x \<Longrightarrow> x \<in> D"
  shows "ids_for K slug x v' = ids_for K slug x v"
proof -
  obtain I where I: "I \<subseteq> stale_ids K slug pre D v" "v' = drop_ids K I v"
    using assms(2) unfolding partly_pruned_def by blast
  have "ids_for K slug x v \<inter> stale_ids K slug pre D v = {}"
    using assms(3) stale_iff by blast
  then show ?thesis using I(1) unfolding I(2) drop_ids_ids_for[OF assms(1)] by blast
qed

locale managed_owner = managed_by_id +
  fixes owner_prefix :: "'k \<Rightarrow> string"
    and list_owned :: "'w netbox_api \<Rightarrow> string \<Rightarrow> 'k \<Rightarrow> ('w, 'o nb_object_scheme list) go"
    and delete_owned :: "'w netbox_api \<Rightarrow> string \<Rightarrow> 'k \<Rightarrow> ('w, unit) go"
  assumes list_owned_eq: "list_owned client slug k =
      bind (wrap_err (\<lambda>e. Errorf listing_failed [AErr e]) (ep_list (ep client) (no_params\<lparr>lp_Tag := [slug]\<rparr>)))
        (\<lambda>resp. ret (filter (\<lambda>ob. case readExternalID (ob_CustomFields ob) of
            Some x \<Rightarrow> prefix (owner_prefix k) x | None \<Rightarrow> False) (pg_Results resp)))"
    and delete_owned_eq: "delete_owned client slug k =
      bind (list_owned client slug k) (\<lambda>owned. for_each owned (\<lambda>ob. delete_id client (ob_ID ob)))"
begin

text \<open>The listed objects: each is owned, and all owned ones are listed if they fit.\<close>

definition owned_listing :: "nat \<Rightarrow> string \<Rightarrow> string \<Rightarrow> nb_view \<Rightarrow> 'o nb_object_scheme list \<Rightarrow> bool" where
  "owned_listing psize slug pre v owned \<longleftrightarrow>
     (\<forall>ob \<in> set owned. \<exists>x. readExternalID (ob_CustomFields ob) = Some x \<and>
        ob_ID ob \<in> ids_for K slug x v \<and> prefix pre x) \<and>
     (card (managed K slug v) \<le> psize \<longrightarrow> owned_ids K slug pre v \<subseteq> ob_ID ` set owned)"

lemma owned_listingD:
  assumes "owned_listing psize slug pre v owned"
  shows "ob \<in> set owned \<Longrightarrow> \<exists>x. readExternalID (ob_CustomFields ob) = Some x \<and>
      ob_ID ob \<in> ids_for K slug x v \<and> prefix pre x"
    and "card (managed K slug v) \<le> psize \<Longrightarrow> owned_ids K slug pre v \<subseteq> ob_ID ` set owned"
proof -
  from assms have all: "\<forall>ob \<in> set owned. \<exists>x. readExternalID (ob_CustomFields ob) = Some x \<and>
      ob_ID ob \<in> ids_for K slug x v \<and> prefix pre x"
    unfolding owned_listing_def by (rule conjunct1)
  show "\<exists>x. readExternalID (ob_CustomFields ob) = Some x \<and> ob_ID ob \<in> ids_for K slug x v \<and> prefix pre x"
    if "ob \<in> set owned"
    using all that by (rule bspec)
  from assms have "card (managed K slug v) \<le> psize \<longrightarrow> owned_ids K slug pre v \<subseteq> ob_ID ` set owned"
    unfolding owned_listing_def by (rule conjunct2)
  then show "owned_ids K slug pre v \<subseteq> ob_ID ` set owned" if "card (managed K slug v) \<le> psize"
    using that by (rule mp)
qed

text \<open>Without any law of NetBox: what is listed has the external ID that the filter read.\<close>

lemma list_owned_filtered:
  assumes "ep_keeps I (ep client)"
  shows "triple I (list_owned client slug k)
    (\<lambda>owned w. I w \<and> (\<forall>ob \<in> set owned. readExternalID (ob_CustomFields ob) \<noteq> None)) (\<lambda>_. I)"
  unfolding list_owned_eq
  by (rule triple_bind[OF keepsD[OF keeps_wrap_err[OF ep_keepsD(1)[OF assms]]]])
    (auto intro!: triple_ret split: option.splits)

lemma delete_owned_keeps:
  assumes "ep_keeps I (ep client)"
  shows "keeps I (delete_owned client slug k)"
  unfolding delete_owned_eq
  by (rule keeps_bind_fact[OF list_owned_filtered[OF assms]]) (intro keeps_rules delete_id_keeps assms)

lemma prune_keeps:
  assumes "ep_keeps I (ep client)"
  shows "keeps I (bind (list_owned client slug k) (\<lambda>owned. for_each owned (\<lambda>ob.
       bind (assertExternalID (ob_CustomFields ob)) (\<lambda>x.
       if x \<in> set desired then ret () else delete_id client (ob_ID ob)))))"
proof (rule keeps_bind_fact[OF list_owned_filtered[OF assms]], rule keeps_for_each)
  fix owned ob
  assume "\<forall>ob \<in> set owned. readExternalID (ob_CustomFields ob) \<noteq> None" "ob \<in> set owned"
  then obtain x where x: "readExternalID (ob_CustomFields ob) = Some x" by blast
  show "keeps I (bind (assertExternalID (ob_CustomFields ob)) (\<lambda>x.
       if x \<in> set desired then ret () else delete_id client (ob_ID ob)))"
    unfolding assertExternalID_read[OF x] bind_ret by (intro keeps_rules delete_id_keeps assms)
qed

lemma list_owned_triple:
  assumes "lawful_ep psize view K (ep client)"
  shows "triple (\<lambda>w. view w = v) (list_owned client slug k)
    (\<lambda>owned w. owned_listing psize slug (owner_prefix k) v owned \<and> view w = v) (\<lambda>_ w. view w = v)"
  unfolding list_owned_eq
proof (rule triple_bind[OF list_triple[OF assms]], rule triple_ret, erule conjE, rule conjI)
  fix pg :: "'o nb_object_scheme page" and w
  assume pg: "listing psize K (no_params\<lparr>lp_Tag := [slug]\<rparr>) v pg"
  show "owned_listing psize slug (owner_prefix k) v
      (filter (\<lambda>ob. case readExternalID (ob_CustomFields ob) of
          Some x \<Rightarrow> prefix (owner_prefix k) x | None \<Rightarrow> False) (pg_Results pg))"
    unfolding owned_listing_def
    using owned_ids_listed(1)[OF pg refl] owned_ids_listed(2)[OF pg refl] by blast
qed

text \<open>Deleting the listed objects that satisfy a condition, one by one.\<close>

lemma drop_loop_triple:
  assumes law: "lawful_ep psize view K (ep client)"
    and body: "\<And>ob. ob \<in> set owned \<Longrightarrow> f ob = (if P ob then delete_id client (ob_ID ob) else ret ())"
  shows "triple (\<lambda>w. view w = v) (for_each owned f)
    (\<lambda>_ w. view w = drop_ids K (ob_ID ` {ob \<in> set owned. P ob}) v)
    (\<lambda>_ w. \<exists>I \<subseteq> ob_ID ` {ob \<in> set owned. P ob}. view w = drop_ids K I v)"
proof -
  let ?I = "\<lambda>obs. ob_ID ` {ob \<in> set obs. P ob}"
  have step: "triple (\<lambda>w. view w = drop_ids K (?I ys) v) (f ob) (\<lambda>_ w. view w = drop_ids K (?I (ys @ [ob])) v)
      (\<lambda>_ w. \<exists>I \<subseteq> ?I owned. view w = drop_ids K I v)" if "owned = ys @ ob # zs" for ys ob zs
  proof (cases "P ob")
    case True
    have split: "{ob' \<in> set (ys @ [ob]). P ob'} = insert ob {ob' \<in> set ys. P ob'}" using True by auto
    have sub: "?I ys \<subseteq> ?I owned" "insert (ob_ID ob) (?I ys) \<subseteq> ?I owned" using that True by auto
    have f: "f ob = delete_id client (ob_ID ob)" using that True by (simp add: body)
    show ?thesis
      unfolding split image_insert f
    proof (rule triple_post)
      show "triple (\<lambda>w. view w = drop_ids K (?I ys) v) (delete_id client (ob_ID ob))
          (\<lambda>_ w. view w = drop_ids K (insert (ob_ID ob) (?I ys)) v)
          (\<lambda>_ w. view w = drop_ids K (?I ys) v \<or> view w = drop_ids K (insert (ob_ID ob) (?I ys)) v)"
        using delete_id_triple[OF law, of "drop_ids K (?I ys) v" "ob_ID ob"]
        by (simp add: drop_ids_drop[OF kind])
    next
      fix w
      assume "view w = drop_ids K (?I ys) v \<or> view w = drop_ids K (insert (ob_ID ob) (?I ys)) v"
      then show "\<exists>I \<subseteq> ?I owned. view w = drop_ids K I v" using sub by (elim disjE) (rule exI, erule conjI[rotated], assumption)+
    qed
  next
    case False
    then have "{ob' \<in> set (ys @ [ob]). P ob'} = {ob' \<in> set ys. P ob'}" by auto
    then show ?thesis using False that by (simp add: body triple_ret)
  qed
  have "triple (\<lambda>w. view w = drop_ids K (?I []) v) (for_each owned f)
      (\<lambda>_ w. view w = drop_ids K (?I owned) v) (\<lambda>_ w. \<exists>I \<subseteq> ?I owned. view w = drop_ids K I v)"
    by (rule triple_for_each_done[where I = "\<lambda>obs w. view w = drop_ids K (?I obs) v"]) (rule step)
  then show ?thesis by (simp add: kind)
qed

text \<open>
  Pruning, as the reconcilers write it out: of what the owner has, everything whose external
  ID is not desired is deleted. The unchecked type assertion on the way never panics.
\<close>

lemma prune_triple:
  assumes law: "lawful_ep psize view K (ep client)"
  shows "triple (\<lambda>w. view w = v)
    (bind (list_owned client slug k) (\<lambda>owned. for_each owned (\<lambda>ob.
       bind (assertExternalID (ob_CustomFields ob)) (\<lambda>x.
       if x \<in> set desired then ret () else delete_id client (ob_ID ob)))))
    (\<lambda>_ w. pruned psize K slug (owner_prefix k) (set desired) v (view w))
    (\<lambda>_ w. partly_pruned K slug (owner_prefix k) (set desired) v (view w))"
proof (rule triple_bind_fact)
  let ?stale = "stale_ids K slug (owner_prefix k) (set desired) v"
  show "triple (\<lambda>w. view w = v) (list_owned client slug k)
      (\<lambda>owned w. view w = v \<and> owned_listing psize slug (owner_prefix k) v owned)
      (\<lambda>_ w. partly_pruned K slug (owner_prefix k) (set desired) v (view w))"
    by (rule triple_post[OF list_owned_triple[OF law]]) (simp_all add: partly_pruned_refl kind)
  fix owned
  assume ol: "owned_listing psize slug (owner_prefix k) v owned"
  let ?stays = "\<lambda>ob. \<exists>x \<in> set desired. ob_ID ob \<in> ids_for K slug x v"
  let ?body = "\<lambda>ob. bind (assertExternalID (ob_CustomFields ob)) (\<lambda>x.
       if x \<in> set desired then ret () else delete_id client (ob_ID ob))"
  have body: "?body ob = (if \<not> ?stays ob then delete_id client (ob_ID ob) else ret ())" if mem: "ob \<in> set owned" for ob
  proof -
    obtain x where x: "readExternalID (ob_CustomFields ob) = Some x" "ob_ID ob \<in> ids_for K slug x v"
      using owned_listingD(1)[OF ol mem] by (elim exE conjE)
    from ids_for_in[OF x(2)] have stays: "?stays ob \<longleftrightarrow> x \<in> set desired" .
    show ?thesis unfolding stays assertExternalID_read[OF x(1)] bind_ret by (cases "x \<in> set desired") simp_all
  qed
  let ?I = "ob_ID ` {ob \<in> set owned. \<not> ?stays ob}"
  have sub: "?I \<subseteq> ?stale"
  proof
    fix i
    assume "i \<in> ?I"
    then obtain ob where ob: "ob \<in> set owned" "\<not> ?stays ob" "i = ob_ID ob" by blast
    obtain x where "ob_ID ob \<in> ids_for K slug x v" "prefix (owner_prefix k) x"
      using owned_listingD(1)[OF ol ob(1)] by (elim exE conjE)
    then show "i \<in> ?stale" using ob(2) unfolding ob(3) stale_ids_def by blast
  qed
  have all: "?stale \<subseteq> ?I" if fits: "card (managed K slug v) \<le> psize"
  proof
    fix i
    assume i: "i \<in> ?stale"
    then have "i \<in> owned_ids K slug (owner_prefix k) v" by (auto simp: stale_ids_def owned_ids_def)
    then obtain ob where ob: "ob \<in> set owned" "ob_ID ob = i"
      using owned_listingD(2)[OF ol fits] by (auto dest!: subsetD)
    moreover have "\<not> ?stays ob" using i unfolding ob(2) stale_ids_def by (auto dest: ids_for_disjoint)
    ultimately show "i \<in> ?I" by blast
  qed
  show "triple (\<lambda>w. view w = v) (for_each owned ?body)
      (\<lambda>_ w. pruned psize K slug (owner_prefix k) (set desired) v (view w))
      (\<lambda>_ w. partly_pruned K slug (owner_prefix k) (set desired) v (view w))"
  proof (rule triple_post[OF drop_loop_triple[OF law, where P = "\<lambda>ob. \<not> ?stays ob", OF body]])
    fix w
    assume "view w = drop_ids K ?I v"
    then show "pruned psize K slug (owner_prefix k) (set desired) v (view w)"
      using sub all unfolding pruned_def by (intro exI[of _ ?I]) (simp add: subset_antisym)
  next
    fix w
    assume "\<exists>I \<subseteq> ?I. view w = drop_ids K I v"
    then show "partly_pruned K slug (owner_prefix k) (set desired) v (view w)"
      using sub unfolding partly_pruned_def by (meson order_trans)
  qed
qed

lemma delete_owned_triple:
  assumes law: "lawful_ep psize view K (ep client)"
  shows "triple (\<lambda>w. view w = v) (delete_owned client slug k)
    (\<lambda>_ w. pruned psize K slug (owner_prefix k) {} v (view w))
    (\<lambda>_ w. partly_pruned K slug (owner_prefix k) {} v (view w))"
  unfolding delete_owned_eq pruned_def partly_pruned_def owned_stale[symmetric]
proof (rule triple_bind)
  show "triple (\<lambda>w. view w = v) (list_owned client slug k)
      (\<lambda>owned w. owned_listing psize slug (owner_prefix k) v owned \<and> view w = v)
      (\<lambda>_ w. \<exists>I \<subseteq> owned_ids K slug (owner_prefix k) v. view w = drop_ids K I v)"
  proof (rule triple_post[OF list_owned_triple[OF law]])
    fix w
    assume "view w = v"
    then have "{} \<subseteq> owned_ids K slug (owner_prefix k) v \<and> view w = drop_ids K {} v"
      by (simp add: kind)
    then show "\<exists>I \<subseteq> owned_ids K slug (owner_prefix k) v. view w = drop_ids K I v" ..
  qed
next
  fix owned :: "'o nb_object_scheme list"
  have loop: "triple (\<lambda>w. view w = v) (for_each owned (\<lambda>ob. delete_id client (ob_ID ob)))
      (\<lambda>_ w. view w = drop_ids K (ob_ID ` set owned) v)
      (\<lambda>_ w. \<exists>I \<subseteq> ob_ID ` set owned. view w = drop_ids K I v)"
    using drop_loop_triple[OF law, of owned "\<lambda>ob. delete_id client (ob_ID ob)" "\<lambda>_. True"] by simp
  show "triple (\<lambda>w. owned_listing psize slug (owner_prefix k) v owned \<and> view w = v)
      (for_each owned (\<lambda>ob. delete_id client (ob_ID ob)))
      (\<lambda>_ w. \<exists>I \<subseteq> owned_ids K slug (owner_prefix k) v. view w = drop_ids K I v \<and>
         (card (managed K slug v) \<le> psize \<longrightarrow> I = owned_ids K slug (owner_prefix k) v))
      (\<lambda>_ w. \<exists>I \<subseteq> owned_ids K slug (owner_prefix k) v. view w = drop_ids K I v)"
  proof (rule triple_pre_cond)
    let ?own = "owned_ids K slug (owner_prefix k) v"
    assume ol: "owned_listing psize slug (owner_prefix k) v owned"
    have sub: "ob_ID ` set owned \<subseteq> ?own"
    proof
      fix i
      assume "i \<in> ob_ID ` set owned"
      then obtain ob where "ob \<in> set owned" "i = ob_ID ob" by (rule imageE)
      then show "i \<in> ?own" using ol unfolding owned_listing_def owned_ids_def by blast
    qed
    have all: "card (managed K slug v) \<le> psize \<longrightarrow> ob_ID ` set owned = ?own"
    proof
      assume "card (managed K slug v) \<le> psize"
      with ol have "?own \<subseteq> ob_ID ` set owned" unfolding owned_listing_def by (elim conjE) (rule mp)
      with sub show "ob_ID ` set owned = ?own" by (rule equalityI)
    qed
    show "triple (\<lambda>w. view w = v) (for_each owned (\<lambda>ob. delete_id client (ob_ID ob)))
      (\<lambda>_ w. \<exists>I \<subseteq> ?own. view w = drop_ids K I v \<and> (card (managed K slug v) \<le> psize \<longrightarrow> I = ?own))
      (\<lambda>_ w. \<exists>I \<subseteq> ?own. view w = drop_ids K I v)"
    proof (rule triple_post[OF loop])
      fix w
      assume "view w = drop_ids K (ob_ID ` set owned) v"
      with sub all show "\<exists>I \<subseteq> ?own. view w = drop_ids K I v \<and> (card (managed K slug v) \<le> psize \<longrightarrow> I = ?own)"
        by (intro exI[of _ "ob_ID ` set owned"] conjI)
    next
      fix w
      assume "\<exists>I \<subseteq> ob_ID ` set owned. view w = drop_ids K I v"
      with sub show "\<exists>I \<subseteq> ?own. view w = drop_ids K I v" by (meson order_trans)
    qed
  qed
qed

end

section \<open>Counting\<close>

locale managed_count = managed_finder +
  fixes count :: "'w netbox_api \<Rightarrow> string \<Rightarrow> ('w, 64 word) go"
  assumes count_eq: "count client slug =
      bind (wrap_err (\<lambda>e. Errorf listing_failed [AErr e])
          (ep_list (ep client) (no_params\<lparr>lp_Tag := [slug], lp_Limit := Some 1\<rparr>)))
        (\<lambda>resp. case pg_Count resp of None \<Rightarrow> ret 0 | Some c \<Rightarrow> ret c)"
begin

lemma count_keeps: "ep_keeps I (ep client) \<Longrightarrow> keeps I (count client slug)"
  unfolding count_eq by (intro keeps_rules)

lemma count_triple:
  assumes "lawful_ep psize view K (ep client)"
  shows "triple (\<lambda>w. view w = v) (count client slug)
    (\<lambda>c w. view w = v \<and> c = word_of_nat (card (managed K slug v))) (\<lambda>_ w. view w = v)"
proof -
  have "selected K (no_params\<lparr>lp_Tag := [slug], lp_Limit := Some 1\<rparr>) v = managed K slug v"
    by (auto simp: selected_def selects_def managed_def no_params_def)
  moreover have "lp_Name no_params = None" by (simp add: no_params_def)
  ultimately show ?thesis
    unfolding count_eq
    by (intro triple_bind[OF list_triple[OF assms]]) (auto simp: listing_def intro: triple_ret split: option.splits)
qed

end

end
