(* ===== verification/NetBox_Refs.thy ===== *)
theory NetBox_Refs
  imports NetBox_Api
begin

text \<open>
  \<open>internal/netbox/refs.go\<close>: resolving reference objects (Sites, Cluster Types, ...) by
  name. Every lookup lists with a name (or model) filter and returns the first result whose
  name is exactly the one asked for. The contract all eight share is the locale
  \<open>name_lookup\<close>; it is interpreted on each of them.
\<close>

section \<open>The lookups\<close>

definition LookupSiteID :: "'w netbox_api \<Rightarrow> string \<Rightarrow> ('w, int) go" where
  "LookupSiteID client name =
     bind (wrap_err (\<lambda>err. Errorf ''listing NetBox sites: %w'' [AErr err])
       (DcimSitesList client (no_params\<lparr>lp_Name := Some name\<rparr>)))
     (\<lambda>resp. case List.find (\<lambda>site. rf_Name site = Some name) (pg_Results resp) of
        Some site \<Rightarrow> ret (rf_ID site)
      | None \<Rightarrow> fail (Errorf ''NetBox site %q not found; it must be created in NetBox before it can be referenced'' [AStr name]))"

definition LookupClusterTypeID :: "'w netbox_api \<Rightarrow> string \<Rightarrow> ('w, int) go" where
  "LookupClusterTypeID client name =
     bind (wrap_err (\<lambda>err. Errorf ''listing NetBox cluster types: %w'' [AErr err])
       (VirtualizationClusterTypesList client (no_params\<lparr>lp_Name := Some name\<rparr>)))
     (\<lambda>resp. case List.find (\<lambda>ct. rf_Name ct = Some name) (pg_Results resp) of
        Some ct \<Rightarrow> ret (rf_ID ct)
      | None \<Rightarrow> fail (Errorf ''NetBox cluster type %q not found; it must be created in NetBox before it can be referenced'' [AStr name]))"

definition LookupClusterGroupID :: "'w netbox_api \<Rightarrow> string \<Rightarrow> ('w, int) go" where
  "LookupClusterGroupID client name =
     bind (wrap_err (\<lambda>err. Errorf ''listing NetBox cluster groups: %w'' [AErr err])
       (VirtualizationClusterGroupsList client (no_params\<lparr>lp_Name := Some name\<rparr>)))
     (\<lambda>resp. case List.find (\<lambda>cg. rf_Name cg = Some name) (pg_Results resp) of
        Some cg \<Rightarrow> ret (rf_ID cg)
      | None \<Rightarrow> fail (Errorf ''NetBox cluster group %q not found; it must be created in NetBox before it can be referenced'' [AStr name]))"

definition LookupClusterID :: "'w netbox_api \<Rightarrow> string \<Rightarrow> ('w, int) go" where
  "LookupClusterID client name =
     bind (wrap_err (\<lambda>err. Errorf ''listing NetBox clusters: %w'' [AErr err])
       (ep_list (VirtualizationClusters client) (no_params\<lparr>lp_Name := Some name\<rparr>)))
     (\<lambda>resp. case List.find (\<lambda>cluster. ob_Name cluster = Some name) (pg_Results resp) of
        Some cluster \<Rightarrow> ret (ob_ID cluster)
      | None \<Rightarrow> fail (Errorf ''NetBox cluster %q not found; enable and sync spec.resources.cluster first, or point virtualMachine.clusterName at an existing Cluster'' [AStr name]))"

definition LookupDeviceRoleID :: "'w netbox_api \<Rightarrow> string \<Rightarrow> ('w, int) go" where
  "LookupDeviceRoleID client name =
     bind (wrap_err (\<lambda>err. Errorf ''listing NetBox device roles: %w'' [AErr err])
       (DcimDeviceRolesList client (no_params\<lparr>lp_Name := Some name\<rparr>)))
     (\<lambda>resp. case List.find (\<lambda>role. rf_Name role = Some name) (pg_Results resp) of
        Some role \<Rightarrow> ret (rf_ID role)
      | None \<Rightarrow> fail (Errorf ''NetBox device role %q not found; it must be created in NetBox before it can be referenced'' [AStr name]))"

definition LookupDeviceTypeID :: "'w netbox_api \<Rightarrow> string \<Rightarrow> ('w, int) go" where
  "LookupDeviceTypeID client model =
     bind (wrap_err (\<lambda>err. Errorf ''listing NetBox device types: %w'' [AErr err])
       (DcimDeviceTypesList client (no_params\<lparr>lp_Model := Some model\<rparr>)))
     (\<lambda>resp. case List.find (\<lambda>deviceType. dt_Model deviceType = Some model) (pg_Results resp) of
        Some deviceType \<Rightarrow> ret (dt_ID deviceType)
      | None \<Rightarrow> fail (Errorf ''NetBox device type %q not found; it must be created in NetBox before it can be referenced'' [AStr model]))"

definition LookupRIRID :: "'w netbox_api \<Rightarrow> string \<Rightarrow> ('w, int) go" where
  "LookupRIRID client name =
     bind (wrap_err (\<lambda>err. Errorf ''listing NetBox RIRs: %w'' [AErr err])
       (IpamRirsList client (no_params\<lparr>lp_Name := Some name\<rparr>)))
     (\<lambda>resp. case List.find (\<lambda>rir. rf_Name rir = Some name) (pg_Results resp) of
        Some rir \<Rightarrow> ret (rf_ID rir)
      | None \<Rightarrow> fail (Errorf ''NetBox RIR %q not found; it must be created in NetBox before it can be referenced'' [AStr name]))"

definition LookupPlatformID :: "'w netbox_api \<Rightarrow> string \<Rightarrow> ('w, int) go" where
  "LookupPlatformID client name =
     bind (wrap_err (\<lambda>err. Errorf ''listing NetBox platforms: %w'' [AErr err])
       (DcimPlatformsList client (no_params\<lparr>lp_Name := Some name\<rparr>)))
     (\<lambda>resp. case List.find (\<lambda>platform. rf_Name platform = Some name) (pg_Results resp) of
        Some platform \<Rightarrow> ret (rf_ID platform)
      | None \<Rightarrow> fail (Errorf ''NetBox platform %q not found; it must be created in NetBox before it can be referenced'' [AStr name]))"

section \<open>The contract of a lookup by name\<close>

text \<open>
  The error of a lookup: the list call failed, or there is no such object. \<open>missing\<close> is the
  format of the latter.
\<close>

locale name_lookup =
  fixes lst :: "'w netbox_api \<Rightarrow> list_params \<Rightarrow> ('w, 'o page) go"
    and params :: "string \<Rightarrow> list_params"
    and oid :: "'o \<Rightarrow> int"
    and oname :: "'o \<Rightarrow> string option"
    and listing_failed missing :: string
    and lookup :: "'w netbox_api \<Rightarrow> string \<Rightarrow> ('w, int) go"
  assumes lookup_eq: "lookup client n =
     bind (wrap_err (\<lambda>e. Errorf listing_failed [AErr e]) (lst client (params n)))
       (\<lambda>resp. case List.find (\<lambda>ob. oname ob = Some n) (pg_Results resp) of
          Some ob \<Rightarrow> ret (oid ob)
        | None \<Rightarrow> fail (Errorf missing [AStr n]))"
begin

lemma lookup_triple:
  assumes "lawful_names view ids fits oid oname params (lst client)"
  shows "triple (\<lambda>w. view w = v) (lookup client n)
    (\<lambda>i w. view w = v \<and> i \<in> ids v n)
    (\<lambda>e w. view w = v \<and> ((\<exists>e'. e = Errorf listing_failed [AErr e']) \<or>
       e = Errorf missing [AStr n] \<and> (fits v n \<longrightarrow> ids v n = {})))"
  unfolding lookup_eq
proof (rule triple_bind, rule triple_wrap_err)
  show "triple (\<lambda>w. view w = v) (lst client (params n))
      (\<lambda>pg w. view w = v \<and>
           (\<forall>ob \<in> set (pg_Results pg). oname ob = Some n \<longrightarrow> oid ob \<in> ids v n) \<and>
           (fits v n \<and> ids v n \<noteq> {} \<longrightarrow> (\<exists>ob \<in> set (pg_Results pg). oname ob = Some n)))
      (\<lambda>e w. view w = v \<and> ((\<exists>e'. Errorf listing_failed [AErr e] = Errorf listing_failed [AErr e']) \<or>
        Errorf listing_failed [AErr e] = Errorf missing [AStr n] \<and> (fits v n \<longrightarrow> ids v n = {})))"
    using assms unfolding lawful_names_def by (auto intro: triple_weaken)
next
  fix pg :: "'o page"
  show "triple (\<lambda>w. view w = v \<and>
           (\<forall>ob \<in> set (pg_Results pg). oname ob = Some n \<longrightarrow> oid ob \<in> ids v n) \<and>
           (fits v n \<and> ids v n \<noteq> {} \<longrightarrow> (\<exists>ob \<in> set (pg_Results pg). oname ob = Some n)))
      (case List.find (\<lambda>ob. oname ob = Some n) (pg_Results pg) of
          Some ob \<Rightarrow> ret (oid ob) | None \<Rightarrow> fail (Errorf missing [AStr n]))
      (\<lambda>i w. view w = v \<and> i \<in> ids v n)
      (\<lambda>e w. view w = v \<and> ((\<exists>e'. e = Errorf listing_failed [AErr e']) \<or>
         e = Errorf missing [AStr n] \<and> (fits v n \<longrightarrow> ids v n = {})))"
    by (auto split: option.splits intro!: triple_ret triple_fail
        dest!: find_Some_set simp: find_None_all)
qed

lemma lookup_reads:
  assumes "lawful_names view ids fits oid oname params (lst client)"
  shows "triple (\<lambda>w. view w = v) (lookup client n) (\<lambda>i w. view w = v \<and> i \<in> ids v n) (\<lambda>_ w. view w = v)"
  by (rule triple_weaken[OF lookup_triple[OF assms]]) auto

lemma lookup_keeps: "(\<And>p. keeps I (lst client p)) \<Longrightarrow> keeps I (lookup client n)"
  unfolding lookup_eq by (intro keeps_rules)

end

interpretation site: name_lookup DcimSitesList "\<lambda>n. no_params\<lparr>lp_Name := Some n\<rparr>" rf_ID rf_Name
  "''listing NetBox sites: %w''"
  "''NetBox site %q not found; it must be created in NetBox before it can be referenced''" LookupSiteID
  by unfold_locales (simp add: LookupSiteID_def)

interpretation cluster_type: name_lookup VirtualizationClusterTypesList
  "\<lambda>n. no_params\<lparr>lp_Name := Some n\<rparr>" rf_ID rf_Name
  "''listing NetBox cluster types: %w''"
  "''NetBox cluster type %q not found; it must be created in NetBox before it can be referenced''"
  LookupClusterTypeID
  by unfold_locales (simp add: LookupClusterTypeID_def)

interpretation cluster_group: name_lookup VirtualizationClusterGroupsList
  "\<lambda>n. no_params\<lparr>lp_Name := Some n\<rparr>" rf_ID rf_Name
  "''listing NetBox cluster groups: %w''"
  "''NetBox cluster group %q not found; it must be created in NetBox before it can be referenced''"
  LookupClusterGroupID
  by unfold_locales (simp add: LookupClusterGroupID_def)

interpretation cluster_name: name_lookup "\<lambda>client. ep_list (VirtualizationClusters client)"
  "\<lambda>n. no_params\<lparr>lp_Name := Some n\<rparr>" ob_ID ob_Name
  "''listing NetBox clusters: %w''"
  "''NetBox cluster %q not found; enable and sync spec.resources.cluster first, or point virtualMachine.clusterName at an existing Cluster''"
  LookupClusterID
  by unfold_locales (simp add: LookupClusterID_def)

interpretation device_role: name_lookup DcimDeviceRolesList "\<lambda>n. no_params\<lparr>lp_Name := Some n\<rparr>" rf_ID rf_Name
  "''listing NetBox device roles: %w''"
  "''NetBox device role %q not found; it must be created in NetBox before it can be referenced''"
  LookupDeviceRoleID
  by unfold_locales (simp add: LookupDeviceRoleID_def)

interpretation device_model: name_lookup DcimDeviceTypesList "\<lambda>n. no_params\<lparr>lp_Model := Some n\<rparr>" dt_ID dt_Model
  "''listing NetBox device types: %w''"
  "''NetBox device type %q not found; it must be created in NetBox before it can be referenced''"
  LookupDeviceTypeID
  by unfold_locales (simp add: LookupDeviceTypeID_def)

interpretation rir: name_lookup IpamRirsList "\<lambda>n. no_params\<lparr>lp_Name := Some n\<rparr>" rf_ID rf_Name
  "''listing NetBox RIRs: %w''"
  "''NetBox RIR %q not found; it must be created in NetBox before it can be referenced''" LookupRIRID
  by unfold_locales (simp add: LookupRIRID_def)

interpretation platform: name_lookup DcimPlatformsList "\<lambda>n. no_params\<lparr>lp_Name := Some n\<rparr>" rf_ID rf_Name
  "''listing NetBox platforms: %w''"
  "''NetBox platform %q not found; it must be created in NetBox before it can be referenced''"
  LookupPlatformID
  by unfold_locales (simp add: LookupPlatformID_def)

section \<open>The lookups on a lawful NetBox\<close>

text \<open>Clusters are listed by name through the managed endpoint, so completeness needs the page.\<close>

definition clusters_named :: "nb_view \<Rightarrow> string \<Rightarrow> int set" where
  "clusters_named v n = selected cluster_kind (no_params\<lparr>lp_Name := Some n\<rparr>) v"

definition clusters_like :: "nb_view \<Rightarrow> string \<Rightarrow> int set" where
  "clusters_like v n = candidates cluster_kind (no_params\<lparr>lp_Name := Some n\<rparr>) v"

lemma clusters_named_iff: "i \<in> clusters_named v n \<longleftrightarrow> (\<exists>d. v_clusters v i = Some d \<and> wc_Name d = n)"
  by (simp add: clusters_named_def selected_def selects_def no_params_def cluster_kind_def)

lemma lawful_cluster_names:
  assumes "lawful_ep psize view cluster_kind ep"
  shows "lawful_names view clusters_named (\<lambda>v n. card (clusters_like v n) \<le> psize) ob_ID ob_Name
    (\<lambda>n. no_params\<lparr>lp_Name := Some n\<rparr>) (ep_list ep)"
  unfolding lawful_names_def
proof (intro allI)
  fix n v
  have law: "triple (\<lambda>w. view w = v) (ep_list ep (no_params\<lparr>lp_Name := Some n\<rparr>))
      (\<lambda>pg w. view w = v \<and> listing psize cluster_kind (no_params\<lparr>lp_Name := Some n\<rparr>) v pg) (\<lambda>_ w. view w = v)"
    using assms by (simp add: lawful_ep_def)
  show "triple (\<lambda>w. view w = v) (ep_list ep (no_params\<lparr>lp_Name := Some n\<rparr>))
      (\<lambda>pg w. view w = v \<and>
         (\<forall>ob \<in> set (pg_Results pg). ob_Name ob = Some n \<longrightarrow> ob_ID ob \<in> clusters_named v n) \<and>
         (card (clusters_like v n) \<le> psize \<and> clusters_named v n \<noteq> {} \<longrightarrow>
            (\<exists>ob \<in> set (pg_Results pg). ob_Name ob = Some n)))
      (\<lambda>_ w. view w = v)"
  proof (rule triple_weaken[OF law])
    fix pg :: "nb_named page" and w
    assume "view w = v \<and> listing psize cluster_kind (no_params\<lparr>lp_Name := Some n\<rparr>) v pg"
    then have eq: "view w = v"
      and sound: "\<forall>ob \<in> set (pg_Results pg). \<exists>d. v_clusters v (ob_ID ob) = Some d \<and>
        ob_Name ob = Some (wc_Name d)"
      and complete: "card (clusters_like v n) \<le> psize \<longrightarrow> clusters_named v n \<subseteq> ob_ID ` set (pg_Results pg)"
      by (auto simp: listing_def clusters_named_def clusters_like_def page_size_def displays_def cluster_kind_def
          no_params_def)
    then show "view w = v \<and>
         (\<forall>ob \<in> set (pg_Results pg). ob_Name ob = Some n \<longrightarrow> ob_ID ob \<in> clusters_named v n) \<and>
         (card (clusters_like v n) \<le> psize \<and> clusters_named v n \<noteq> {} \<longrightarrow>
            (\<exists>ob \<in> set (pg_Results pg). ob_Name ob = Some n))"
      by (fastforce simp: clusters_named_iff)
  qed simp_all
qed

lemma lookups_keep [keeps_rules]:
  assumes "api_keeps I client"
  shows "keeps I (LookupSiteID client n)" "keeps I (LookupClusterTypeID client n)"
    "keeps I (LookupClusterGroupID client n)" "keeps I (LookupClusterID client n)"
    "keeps I (LookupDeviceRoleID client n)" "keeps I (LookupDeviceTypeID client n)"
    "keeps I (LookupRIRID client n)" "keeps I (LookupPlatformID client n)"
  using assms
  by (auto simp: api_keeps_def intro!: site.lookup_keeps cluster_type.lookup_keeps cluster_group.lookup_keeps
      cluster_name.lookup_keeps device_role.lookup_keeps device_model.lookup_keeps rir.lookup_keeps
      platform.lookup_keeps intro: ep_keepsD)

lemma lawful_lookups:
  assumes "lawful psize view client"
  shows "lawful_names view (\<lambda>v. v_refs v RSite) (\<lambda>_ _. True) rf_ID rf_Name (\<lambda>n. no_params\<lparr>lp_Name := Some n\<rparr>) (DcimSitesList client)"
    and "lawful_names view (\<lambda>v. v_refs v RClusterType) (\<lambda>_ _. True) rf_ID rf_Name (\<lambda>n. no_params\<lparr>lp_Name := Some n\<rparr>) (VirtualizationClusterTypesList client)"
    and "lawful_names view (\<lambda>v. v_refs v RClusterGroup) (\<lambda>_ _. True) rf_ID rf_Name (\<lambda>n. no_params\<lparr>lp_Name := Some n\<rparr>) (VirtualizationClusterGroupsList client)"
    and "lawful_names view (\<lambda>v. v_refs v RDeviceRole) (\<lambda>_ _. True) rf_ID rf_Name (\<lambda>n. no_params\<lparr>lp_Name := Some n\<rparr>) (DcimDeviceRolesList client)"
    and "lawful_names view (\<lambda>v. v_refs v RDeviceType) (\<lambda>_ _. True) dt_ID dt_Model (\<lambda>n. no_params\<lparr>lp_Model := Some n\<rparr>) (DcimDeviceTypesList client)"
    and "lawful_names view (\<lambda>v. v_refs v RRIR) (\<lambda>_ _. True) rf_ID rf_Name (\<lambda>n. no_params\<lparr>lp_Name := Some n\<rparr>) (IpamRirsList client)"
    and "lawful_names view (\<lambda>v. v_refs v RPlatform) (\<lambda>_ _. True) rf_ID rf_Name (\<lambda>n. no_params\<lparr>lp_Name := Some n\<rparr>) (DcimPlatformsList client)"
    and "lawful_names view clusters_named (\<lambda>v n. card (clusters_like v n) \<le> psize) ob_ID ob_Name (\<lambda>n. no_params\<lparr>lp_Name := Some n\<rparr>) (ep_list (VirtualizationClusters client))"
  using assms by (simp_all add: lawful_def lawful_refs_def lawful_cluster_names)

end
