(* ===== verification/NetBox_Cluster.thy ===== *)
theory NetBox_Cluster
  imports NetBox_Removal NetBox_Refs
begin

text \<open>
  \<open>internal/netbox/cluster.go\<close>: the NetBox Cluster that stands for the Kubernetes cluster
  itself, found by the kube-system Namespace's UID. \<open>EnsureCluster\<close> is the find step, the
  payload (\<open>cluster_data\<close>: the lookups and the optional group and site) and the update or
  create call.
\<close>

record cluster_spec =
  cs_Name :: string
  cs_ClusterTypeName :: string
  cs_ClusterGroupName :: string
  cs_SiteName :: string
  cs_ExternalID :: string
  cs_ManagedTag :: tag

definition findClusterByExternalID :: "'w netbox_api \<Rightarrow> string \<Rightarrow> string \<Rightarrow> ('w, nb_named option) go" where
  "findClusterByExternalID client managedTagSlug externalID =
     bind (wrap_err (\<lambda>err. Errorf ''listing NetBox clusters: %w'' [AErr err])
       (ep_list (VirtualizationClusters client) (no_params\<lparr>lp_Tag := [managedTagSlug]\<rparr>)))
     (\<lambda>listResp. ret (List.find
        (\<lambda>cluster. readExternalID (ob_CustomFields cluster) = Some externalID) (pg_Results listResp)))"

definition cluster_data :: "'w netbox_api \<Rightarrow> cluster_spec \<Rightarrow> ('w, writable_cluster) go" where
  "cluster_data client spec =
     bind (LookupClusterTypeID client (cs_ClusterTypeName spec)) (\<lambda>clusterTypeID.
     let data = \<lparr>wr_Tags = [NestedManagedTag (cs_ManagedTag spec)],
                 wr_CustomFields = GMap [(ExternalIDFieldName, GString (cs_ExternalID spec))],
                 wc_Name = cs_Name spec, wc_Type = clusterTypeID, wc_Group = None,
                 wc_ScopeType = None, wc_ScopeID = None\<rparr> in
     bind (if cs_ClusterGroupName spec \<noteq> '''' then
             bind (LookupClusterGroupID client (cs_ClusterGroupName spec)) (\<lambda>groupID.
             ret (data\<lparr>wc_Group := Some groupID\<rparr>))
           else ret data) (\<lambda>data.
     if cs_SiteName spec \<noteq> '''' then
       bind (LookupSiteID client (cs_SiteName spec)) (\<lambda>siteID.
       ret (data\<lparr>wc_ScopeType := Some ''dcim.site'', wc_ScopeID := Some siteID\<rparr>))
     else ret data))"

definition EnsureCluster :: "'w netbox_api \<Rightarrow> cluster_spec \<Rightarrow> ('w, int) go" where
  "EnsureCluster client spec =
     bind (deref (tg_Slug (cs_ManagedTag spec))) (\<lambda>slug.
     bind (findClusterByExternalID client slug (cs_ExternalID spec)) (\<lambda>existing.
     bind (cluster_data client spec) (\<lambda>data.
     case existing of
       Some existing \<Rightarrow>
         bind (wrap_err (\<lambda>err. Errorf ''updating NetBox cluster %q (id %d): %w''
             [AStr (cs_Name spec), AInt (ob_ID existing), AErr err])
           (ep_update (VirtualizationClusters client) (ob_ID existing) data))
         (\<lambda>updateResp. ret (ob_ID updateResp))
     | None \<Rightarrow>
         bind (wrap_err (\<lambda>err. Errorf ''creating NetBox cluster %q: %w'' [AStr (cs_Name spec), AErr err])
           (ep_create (VirtualizationClusters client) data))
         (\<lambda>createResp. ret (ob_ID createResp)))))"

definition DeleteCluster :: "'w netbox_api \<Rightarrow> string \<Rightarrow> string \<Rightarrow> ('w, unit) go" where
  "DeleteCluster client managedTagSlug externalID =
     bind (findClusterByExternalID client managedTagSlug externalID) (\<lambda>existing.
     case existing of
       None \<Rightarrow> ret ()
     | Some existing \<Rightarrow>
         bind (wrap_err (\<lambda>err. Errorf ''deleting NetBox cluster (id %d): %w'' [AInt (ob_ID existing), AErr err])
           (ep_delete (VirtualizationClusters client) (ob_ID existing)))
         (\<lambda>_. ret ()))"

section \<open>The payload\<close>

lemma cluster_data_written:
  assumes "cluster_data client spec w = (Ok d, w')"
  shows "wr_Tags d = [NestedManagedTag (cs_ManagedTag spec)] \<and>
    wr_CustomFields d = GMap [(ExternalIDFieldName, GString (cs_ExternalID spec))]"
  using assms unfolding cluster_data_def Let_def
  by (auto elim!: bind_OkE ret_OkE split: if_splits)

text \<open>What the payload says, given what the names resolve to.\<close>

definition cluster_payload :: "nb_view \<Rightarrow> cluster_spec \<Rightarrow> writable_cluster \<Rightarrow> bool" where
  "cluster_payload v spec d \<longleftrightarrow>
     wc_Name d = cs_Name spec \<and>
     wc_Type d \<in> v_refs v RClusterType (cs_ClusterTypeName spec) \<and>
     (if cs_ClusterGroupName spec = '''' then wc_Group d = None
      else \<exists>g \<in> v_refs v RClusterGroup (cs_ClusterGroupName spec). wc_Group d = Some g) \<and>
     (if cs_SiteName spec = '''' then wc_ScopeType d = None \<and> wc_ScopeID d = None
      else wc_ScopeType d = Some ''dcim.site'' \<and>
        (\<exists>s \<in> v_refs v RSite (cs_SiteName spec). wc_ScopeID d = Some s))"

lemma cluster_data_triple:
  assumes law: "lawful psize view client"
  shows "triple (\<lambda>w. view w = v) (cluster_data client spec)
    (\<lambda>d w. view w = v \<and> cluster_payload v spec d) (\<lambda>_ w. view w = v)"
  unfolding cluster_data_def Let_def
proof (rule triple_bind_fact[OF cluster_type.lookup_reads[OF lawful_lookups(2)[OF law]]])
  fix t
  assume t: "t \<in> v_refs v RClusterType (cs_ClusterTypeName spec)"
  let ?d = "\<lambda>g. \<lparr>wr_Tags = [NestedManagedTag (cs_ManagedTag spec)],
      wr_CustomFields = GMap [(ExternalIDFieldName, GString (cs_ExternalID spec))],
      wc_Name = cs_Name spec, wc_Type = t, wc_Group = g, wc_ScopeType = None, wc_ScopeID = None\<rparr>"
  let ?G = "\<lambda>d. \<exists>g. d = ?d g \<and> (if cs_ClusterGroupName spec = '''' then g = None
       else \<exists>i \<in> v_refs v RClusterGroup (cs_ClusterGroupName spec). g = Some i)"
  note group = triple_bind_fact[OF cluster_group.lookup_reads[OF lawful_lookups(3)[OF law]]]
  note site = triple_bind_fact[OF site.lookup_reads[OF lawful_lookups(1)[OF law]]]
  show "triple (\<lambda>w. view w = v)
      (bind (if cs_ClusterGroupName spec \<noteq> '''' then
          bind (LookupClusterGroupID client (cs_ClusterGroupName spec)) (\<lambda>g. ret ((?d None)\<lparr>wc_Group := Some g\<rparr>))
        else ret (?d None))
      (\<lambda>data. if cs_SiteName spec \<noteq> '''' then
          bind (LookupSiteID client (cs_SiteName spec))
            (\<lambda>s. ret (data\<lparr>wc_ScopeType := Some ''dcim.site'', wc_ScopeID := Some s\<rparr>))
        else ret data))
      (\<lambda>d w. view w = v \<and> cluster_payload v spec d) (\<lambda>_ w. view w = v)"
  proof (rule triple_bind_fact[where F = ?G])
    show "triple (\<lambda>w. view w = v)
        (if cs_ClusterGroupName spec \<noteq> '''' then
          bind (LookupClusterGroupID client (cs_ClusterGroupName spec)) (\<lambda>g. ret ((?d None)\<lparr>wc_Group := Some g\<rparr>))
        else ret (?d None)) (\<lambda>d w. view w = v \<and> ?G d) (\<lambda>_ w. view w = v)"
      by (auto intro!: group triple_ret)
  qed (insert t, auto intro!: site triple_ret simp: cluster_payload_def)
qed

text \<open>What the stored object says after such a write.\<close>

definition cluster_recorded :: "nb_view \<Rightarrow> cluster_spec \<Rightarrow> writable_cluster \<Rightarrow> bool" where
  "cluster_recorded v spec d \<longleftrightarrow>
     wc_Name d = cs_Name spec \<and>
     wc_Type d \<in> v_refs v RClusterType (cs_ClusterTypeName spec) \<and>
     (cs_ClusterGroupName spec \<noteq> '''' \<longrightarrow>
        (\<exists>g \<in> v_refs v RClusterGroup (cs_ClusterGroupName spec). wc_Group d = Some g)) \<and>
     (cs_SiteName spec \<noteq> '''' \<longrightarrow> wc_ScopeType d = Some ''dcim.site'' \<and>
        (\<exists>s \<in> v_refs v RSite (cs_SiteName spec). wc_ScopeID d = Some s))"

lemma cluster_payload_recorded:
  "cluster_payload v spec d \<Longrightarrow> stored_as cluster_kind d d' \<Longrightarrow> cluster_recorded v spec d'"
  by (auto simp: cluster_payload_def cluster_recorded_def stored_as_def cluster_kind_def kept_opt_def
      split: if_splits)

section \<open>The contracts\<close>

interpretation cluster: managed_ensure cluster_kind VirtualizationClusters "''listing NetBox clusters: %w''"
  findClusterByExternalID cs_ManagedTag cs_ExternalID cluster_data
  "\<lambda>spec i err. Errorf ''updating NetBox cluster %q (id %d): %w'' [AStr (cs_Name spec), AInt i, AErr err]"
  "\<lambda>spec err. Errorf ''creating NetBox cluster %q: %w'' [AStr (cs_Name spec), AErr err]" EnsureCluster
proof unfold_locales
  show "wr_Tags d = [NestedManagedTag (cs_ManagedTag spec)] \<and>
      wr_CustomFields d = GMap [(ExternalIDFieldName, GString (cs_ExternalID spec))]"
    if "cluster_data client spec w = (Ok d, w')" for client :: "'w netbox_api" and spec w d w'
    using that by (rule cluster_data_written)
qed (simp_all only: findClusterByExternalID_def EnsureCluster_def kind_ok_kinds)

interpretation cluster_delete: managed_delete cluster_kind VirtualizationClusters "''listing NetBox clusters: %w''"
  findClusterByExternalID "\<lambda>i err. Errorf ''deleting NetBox cluster (id %d): %w'' [AInt i, AErr err]" DeleteCluster
  by unfold_locales (simp only: DeleteCluster_def)

lemma cluster_keeps [keeps_rules]:
  assumes api: "api_keeps I client"
  shows "tg_Slug (cs_ManagedTag spec) \<noteq> None \<Longrightarrow> keeps I (EnsureCluster client spec)"
    and "keeps I (DeleteCluster client slug x)"
proof -
  have ep: "ep_keeps I (VirtualizationClusters client)" using api by (simp add: api_keeps_def)
  have "keeps I (cluster_data client spec)"
    unfolding cluster_data_def Let_def by (intro keeps_rules api)
  then show "tg_Slug (cs_ManagedTag spec) \<noteq> None \<Longrightarrow> keeps I (EnsureCluster client spec)"
    by (rule cluster.ensure_keeps[OF ep])
  show "keeps I (DeleteCluster client slug x)" by (rule cluster_delete.delete_ext_keeps[OF ep])
qed

lemma EnsureCluster_triple:
  assumes "lawful psize view client" and "tg_Slug (cs_ManagedTag spec) = Some slug"
  shows "triple (\<lambda>w. view w = v) (EnsureCluster client spec)
    (\<lambda>i w. ensured psize cluster_kind slug (cs_ExternalID spec) (cluster_recorded v spec) i v (view w))
    (\<lambda>_ w. view w = v \<or>
       (\<exists>i. ensured psize cluster_kind slug (cs_ExternalID spec) (cluster_recorded v spec) i v (view w)))"
  using assms by (intro cluster.ensure_triple[where P = "cluster_payload v spec"] cluster_data_triple)
    (auto simp: lawful_def intro: cluster_payload_recorded)

end
