(* ===== verification/Cluster_Controller.thy ===== *)
theory Cluster_Controller
  imports HeraldConfig_Controller NetBox_Cluster
begin

text \<open>
  \<open>internal/controller/cluster_controller.go\<close>: one NetBox Cluster per deployment, keyed by the
  UID of the kube-system Namespace.
\<close>

definition updateClusterStatus :: "('x, 'v) env \<Rightarrow> HeraldConfig \<Rightarrow> ResourceSyncStatus \<Rightarrow> ('x world_scheme, unit) go" where
  "updateClusterStatus env cr status =
     bind (UpdateStatus env (cr\<lparr>hc_Status := (hc_Status cr)
       \<lparr>hc_Resources := (hc_Resources (hc_Status cr))\<lparr>st_Cluster := status\<rparr>\<rparr>\<rparr>)) (\<lambda>_. ret ())"

definition reportClusterSyncError :: "('x, 'v) env \<Rightarrow> HeraldConfig \<Rightarrow> error \<Rightarrow> ('x world_scheme, result) go" where
  "reportClusterSyncError env cr cause =
     (let status = (st_Cluster (hc_Resources (hc_Status cr)))
            \<lparr>ss_LastError := ErrorText cause, ss_ObservedGeneration := hc_Generation cr\<rparr> in
      bind (attempt (UpdateStatus env (cr\<lparr>hc_Status := (hc_Status cr)
        \<lparr>hc_Resources := (hc_Resources (hc_Status cr))\<lparr>st_Cluster := status\<rparr>\<rparr>\<rparr>))) (\<lambda>_.
      fail cause))"

definition reconcileCluster :: "('x, 'v) env \<Rightarrow> request \<Rightarrow> ('x world_scheme, result) go" where
  "reconcileCluster env req =
     (if rq_Name req \<noteq> singletonName then ret no_requeue else
      bind StoreGet (\<lambda>(specp, clientp).
      case (specp, clientp) of
        (Some spec, Some netboxClient) \<Rightarrow>
          if_err (GetHeraldConfig env (rq_Name req))
            (\<lambda>err. if IsNotFound err then ret no_requeue else fail err) (\<lambda>cr.
          bind (wrap_err (\<lambda>err. Errorf ''getting kube-system namespace: %w'' [AErr err])
            (GetNamespace env ''kube-system'')) (\<lambda>kubeSystem.
          let externalID = nsp_UID kubeSystem;
              managedTagSlug = resolveManagedTagSlug spec;
              resyncInterval = resolveResyncInterval spec;
              api = Netbox env netboxClient;
              cluster = rc_Cluster (hs_Resources spec) in
          if \<not> cl_Enabled cluster then
            if_err (DeleteCluster api managedTagSlug externalID) (reportClusterSyncError env cr) (\<lambda>_.
            bind (updateClusterStatus env cr (zero_sync_status
                \<lparr>ss_Enabled := False, ss_ObservedGeneration := hc_Generation cr\<rparr>)) (\<lambda>_.
            ret \<lparr>RequeueAfter = resyncInterval\<rparr>))
          else
            if_err (EnsureManagedTag api managedTagSlug) (reportClusterSyncError env cr) (\<lambda>managedTag.
            if_err (EnsureCluster api
                \<lparr>cs_Name = cl_Name cluster, cs_ClusterTypeName = cl_ClusterTypeName cluster,
                 cs_ClusterGroupName = cl_ClusterGroupName cluster, cs_SiteName = cl_SiteName cluster,
                 cs_ExternalID = externalID, cs_ManagedTag = managedTag\<rparr>)
              (reportClusterSyncError env cr) (\<lambda>_.
            bind (Now env) (\<lambda>now.
            bind (updateClusterStatus env cr (zero_sync_status
                \<lparr>ss_Enabled := True, ss_LastSyncTime := Some now, ss_ObservedGeneration := hc_Generation cr,
                 ss_ObjectCount := 1\<rparr>)) (\<lambda>_.
            ret \<lparr>RequeueAfter = resyncInterval\<rparr>))))))
      | _ \<Rightarrow> ret \<lparr>RequeueAfter = storeNotReadyPollInterval\<rparr>))"

end
