(* ===== verification/NetBox_Node.thy ===== *)
theory NetBox_Node
  imports NetBox_Removal NetBox_Refs
begin

text \<open>
  \<open>internal/netbox/node.go\<close>: a Kubernetes Node as a NetBox Device or as a NetBox
  VirtualMachine, found by the Node's UID, deleted by UID or, once the Node is gone, by name.
\<close>

section \<open>Devices\<close>

record device_node_spec =
  ds_Name :: string
  ds_DeviceRoleName :: string
  ds_DeviceTypeName :: string
  ds_SiteName :: string
  ds_ExternalID :: string
  ds_ManagedTag :: tag

definition findDeviceByExternalID :: "'w netbox_api \<Rightarrow> string \<Rightarrow> string \<Rightarrow> ('w, nb_named option) go" where
  "findDeviceByExternalID client managedTagSlug externalID =
     bind (wrap_err (\<lambda>err. Errorf ''listing NetBox devices: %w'' [AErr err])
       (ep_list (DcimDevices client) (no_params\<lparr>lp_Tag := [managedTagSlug]\<rparr>)))
     (\<lambda>listResp. ret (List.find
        (\<lambda>device. readExternalID (ob_CustomFields device) = Some externalID) (pg_Results listResp)))"

definition device_data :: "'w netbox_api \<Rightarrow> device_node_spec \<Rightarrow> ('w, writable_device) go" where
  "device_data client spec =
     bind (LookupDeviceTypeID client (ds_DeviceTypeName spec)) (\<lambda>deviceTypeID.
     bind (LookupDeviceRoleID client (ds_DeviceRoleName spec)) (\<lambda>roleID.
     bind (LookupSiteID client (ds_SiteName spec)) (\<lambda>siteID.
     ret \<lparr>wr_Tags = [NestedManagedTag (ds_ManagedTag spec)],
          wr_CustomFields = GMap [(ExternalIDFieldName, GString (ds_ExternalID spec))],
          wd_Name = ds_Name spec, wd_DeviceType = deviceTypeID, wd_Role = roleID, wd_Site = siteID\<rparr>)))"

definition EnsureDevice :: "'w netbox_api \<Rightarrow> device_node_spec \<Rightarrow> ('w, int) go" where
  "EnsureDevice client spec =
     bind (deref (tg_Slug (ds_ManagedTag spec))) (\<lambda>slug.
     bind (findDeviceByExternalID client slug (ds_ExternalID spec)) (\<lambda>existing.
     bind (device_data client spec) (\<lambda>data.
     case existing of
       Some existing \<Rightarrow>
         bind (wrap_err (\<lambda>err. Errorf ''updating NetBox device %q (id %d): %w''
             [AStr (ds_Name spec), AInt (ob_ID existing), AErr err])
           (ep_update (DcimDevices client) (ob_ID existing) data))
         (\<lambda>updateResp. ret (ob_ID updateResp))
     | None \<Rightarrow>
         bind (wrap_err (\<lambda>err. Errorf ''creating NetBox device %q: %w'' [AStr (ds_Name spec), AErr err])
           (ep_create (DcimDevices client) data))
         (\<lambda>createResp. ret (ob_ID createResp)))))"

definition deleteDevice :: "'w netbox_api \<Rightarrow> int \<Rightarrow> ('w, unit) go" where
  "deleteDevice client i =
     bind (wrap_err (\<lambda>err. Errorf ''deleting NetBox device (id %d): %w'' [AInt i, AErr err])
       (ep_delete (DcimDevices client) i)) (\<lambda>_. ret ())"

definition DeleteDeviceByExternalID :: "'w netbox_api \<Rightarrow> string \<Rightarrow> string \<Rightarrow> ('w, unit) go" where
  "DeleteDeviceByExternalID client managedTagSlug externalID =
     bind (findDeviceByExternalID client managedTagSlug externalID) (\<lambda>existing.
     case existing of None \<Rightarrow> ret () | Some existing \<Rightarrow> deleteDevice client (ob_ID existing))"

definition DeleteDeviceByName :: "'w netbox_api \<Rightarrow> string \<Rightarrow> string \<Rightarrow> ('w, unit) go" where
  "DeleteDeviceByName client managedTagSlug name =
     bind (wrap_err (\<lambda>err. Errorf ''listing NetBox devices: %w'' [AErr err])
       (ep_list (DcimDevices client) (no_params\<lparr>lp_Tag := [managedTagSlug], lp_Name := Some name\<rparr>)))
     (\<lambda>listResp. case List.find (\<lambda>device. ob_Name device = Some name) (pg_Results listResp) of
        Some device \<Rightarrow> deleteDevice client (ob_ID device)
      | None \<Rightarrow> ret ())"

definition CountManagedDevices :: "'w netbox_api \<Rightarrow> string \<Rightarrow> ('w, 64 word) go" where
  "CountManagedDevices client managedTagSlug =
     bind (wrap_err (\<lambda>err. Errorf ''listing NetBox devices: %w'' [AErr err])
       (ep_list (DcimDevices client) (no_params\<lparr>lp_Tag := [managedTagSlug], lp_Limit := Some 1\<rparr>)))
     (\<lambda>resp. case pg_Count resp of None \<Rightarrow> ret 0 | Some count \<Rightarrow> ret count)"

lemma device_data_written:
  assumes "device_data client spec w = (Ok d, w')"
  shows "wr_Tags d = [NestedManagedTag (ds_ManagedTag spec)] \<and>
    wr_CustomFields d = GMap [(ExternalIDFieldName, GString (ds_ExternalID spec))]"
  using assms unfolding device_data_def by (auto elim!: bind_OkE ret_OkE)

definition device_recorded :: "nb_view \<Rightarrow> device_node_spec \<Rightarrow> writable_device \<Rightarrow> bool" where
  "device_recorded v spec d \<longleftrightarrow>
     wd_Name d = ds_Name spec \<and>
     wd_DeviceType d \<in> v_refs v RDeviceType (ds_DeviceTypeName spec) \<and>
     wd_Role d \<in> v_refs v RDeviceRole (ds_DeviceRoleName spec) \<and>
     wd_Site d \<in> v_refs v RSite (ds_SiteName spec)"

lemma device_data_triple:
  assumes law: "lawful psize view client"
  shows "triple (\<lambda>w. view w = v) (device_data client spec)
    (\<lambda>d w. view w = v \<and> device_recorded v spec d) (\<lambda>_ w. view w = v)"
  unfolding device_data_def
  by (rule triple_bind_fact[OF device_model.lookup_reads[OF lawful_lookups(5)[OF law]]],
      rule triple_bind_fact[OF device_role.lookup_reads[OF lawful_lookups(4)[OF law]]],
      rule triple_bind_fact[OF site.lookup_reads[OF lawful_lookups(1)[OF law]]])
    (auto intro!: triple_ret simp: device_recorded_def)

interpretation device: managed_ensure device_kind DcimDevices "''listing NetBox devices: %w''"
  findDeviceByExternalID ds_ManagedTag ds_ExternalID device_data
  "\<lambda>spec i err. Errorf ''updating NetBox device %q (id %d): %w'' [AStr (ds_Name spec), AInt i, AErr err]"
  "\<lambda>spec err. Errorf ''creating NetBox device %q: %w'' [AStr (ds_Name spec), AErr err]" EnsureDevice
proof unfold_locales
  show "wr_Tags d = [NestedManagedTag (ds_ManagedTag spec)] \<and>
      wr_CustomFields d = GMap [(ExternalIDFieldName, GString (ds_ExternalID spec))]"
    if "device_data client spec w = (Ok d, w')" for client :: "'w netbox_api" and spec w d w'
    using that by (rule device_data_written)
qed (simp_all only: findDeviceByExternalID_def EnsureDevice_def kind_ok_kinds)

interpretation device_delete: managed_delete device_kind DcimDevices "''listing NetBox devices: %w''"
  findDeviceByExternalID "\<lambda>i err. Errorf ''deleting NetBox device (id %d): %w'' [AInt i, AErr err]"
  DeleteDeviceByExternalID
  by unfold_locales (simp only: DeleteDeviceByExternalID_def deleteDevice_def)

lemma device_oname: "k_oname device_kind = ob_Name"
  by (simp add: device_kind_def)

interpretation device_name: managed_named device_kind DcimDevices "''listing NetBox devices: %w''"
  findDeviceByExternalID "\<lambda>i err. Errorf ''deleting NetBox device (id %d): %w'' [AInt i, AErr err]"
  deleteDevice DeleteDeviceByName
  by unfold_locales (simp_all only: DeleteDeviceByName_def deleteDevice_def device_oname)

interpretation device_count: managed_count device_kind DcimDevices "''listing NetBox devices: %w''"
  findDeviceByExternalID CountManagedDevices
  by unfold_locales (simp only: CountManagedDevices_def)

lemma device_keeps [keeps_rules]:
  assumes api: "api_keeps I client"
  shows "tg_Slug (ds_ManagedTag spec) \<noteq> None \<Longrightarrow> keeps I (EnsureDevice client spec)"
    and "keeps I (DeleteDeviceByExternalID client slug x)" and "keeps I (DeleteDeviceByName client slug x)"
    and "keeps I (CountManagedDevices client slug)"
proof -
  have ep: "ep_keeps I (DcimDevices client)" using api by (simp add: api_keeps_def)
  have "keeps I (device_data client spec)"
    unfolding device_data_def by (intro keeps_rules api)
  then show "tg_Slug (ds_ManagedTag spec) \<noteq> None \<Longrightarrow> keeps I (EnsureDevice client spec)"
    by (rule device.ensure_keeps[OF ep])
  show "keeps I (DeleteDeviceByExternalID client slug x)" by (rule device_delete.delete_ext_keeps[OF ep])
  show "keeps I (DeleteDeviceByName client slug x)" by (rule device_name.delete_name_keeps[OF ep])
  show "keeps I (CountManagedDevices client slug)" by (rule device_count.count_keeps[OF ep])
qed

lemma EnsureDevice_triple:
  assumes "lawful psize view client" and "tg_Slug (ds_ManagedTag spec) = Some slug"
  shows "triple (\<lambda>w. view w = v) (EnsureDevice client spec)
    (\<lambda>i w. ensured psize device_kind slug (ds_ExternalID spec) (device_recorded v spec) i v (view w))
    (\<lambda>_ w. view w = v \<or>
       (\<exists>i. ensured psize device_kind slug (ds_ExternalID spec) (device_recorded v spec) i v (view w)))"
  using assms by (intro device.ensure_triple[where P = "device_recorded v spec"] device_data_triple)
    (auto simp: lawful_def device_recorded_def stored_as_def device_kind_def)

section \<open>Virtual machines\<close>

record vm_node_spec =
  vs_Name :: string
  vs_ClusterName :: string
  vs_PlatformName :: string
  vs_ExternalID :: string
  vs_ManagedTag :: tag

definition findVirtualMachineByExternalID :: "'w netbox_api \<Rightarrow> string \<Rightarrow> string \<Rightarrow> ('w, nb_named option) go" where
  "findVirtualMachineByExternalID client managedTagSlug externalID =
     bind (wrap_err (\<lambda>err. Errorf ''listing NetBox virtual machines: %w'' [AErr err])
       (ep_list (VirtualizationVirtualMachines client) (no_params\<lparr>lp_Tag := [managedTagSlug]\<rparr>)))
     (\<lambda>listResp. ret (List.find
        (\<lambda>vm. readExternalID (ob_CustomFields vm) = Some externalID) (pg_Results listResp)))"

definition vm_data :: "'w netbox_api \<Rightarrow> vm_node_spec \<Rightarrow> ('w, writable_vm) go" where
  "vm_data client spec =
     bind (LookupClusterID client (vs_ClusterName spec)) (\<lambda>clusterID.
     let data = \<lparr>wr_Tags = [NestedManagedTag (vs_ManagedTag spec)],
                 wr_CustomFields = GMap [(ExternalIDFieldName, GString (vs_ExternalID spec))],
                 wv_Name = vs_Name spec, wv_Cluster = clusterID, wv_Platform = None\<rparr> in
     if vs_PlatformName spec \<noteq> '''' then
       bind (LookupPlatformID client (vs_PlatformName spec)) (\<lambda>platformID.
       ret (data\<lparr>wv_Platform := Some platformID\<rparr>))
     else ret data)"

definition EnsureVirtualMachine :: "'w netbox_api \<Rightarrow> vm_node_spec \<Rightarrow> ('w, int) go" where
  "EnsureVirtualMachine client spec =
     bind (deref (tg_Slug (vs_ManagedTag spec))) (\<lambda>slug.
     bind (findVirtualMachineByExternalID client slug (vs_ExternalID spec)) (\<lambda>existing.
     bind (vm_data client spec) (\<lambda>data.
     case existing of
       Some existing \<Rightarrow>
         bind (wrap_err (\<lambda>err. Errorf ''updating NetBox virtual machine %q (id %d): %w''
             [AStr (vs_Name spec), AInt (ob_ID existing), AErr err])
           (ep_update (VirtualizationVirtualMachines client) (ob_ID existing) data))
         (\<lambda>updateResp. ret (ob_ID updateResp))
     | None \<Rightarrow>
         bind (wrap_err (\<lambda>err. Errorf ''creating NetBox virtual machine %q: %w'' [AStr (vs_Name spec), AErr err])
           (ep_create (VirtualizationVirtualMachines client) data))
         (\<lambda>createResp. ret (ob_ID createResp)))))"

definition deleteVirtualMachine :: "'w netbox_api \<Rightarrow> int \<Rightarrow> ('w, unit) go" where
  "deleteVirtualMachine client i =
     bind (wrap_err (\<lambda>err. Errorf ''deleting NetBox virtual machine (id %d): %w'' [AInt i, AErr err])
       (ep_delete (VirtualizationVirtualMachines client) i)) (\<lambda>_. ret ())"

definition DeleteVirtualMachineByExternalID :: "'w netbox_api \<Rightarrow> string \<Rightarrow> string \<Rightarrow> ('w, unit) go" where
  "DeleteVirtualMachineByExternalID client managedTagSlug externalID =
     bind (findVirtualMachineByExternalID client managedTagSlug externalID) (\<lambda>existing.
     case existing of None \<Rightarrow> ret () | Some existing \<Rightarrow> deleteVirtualMachine client (ob_ID existing))"

definition DeleteVirtualMachineByName :: "'w netbox_api \<Rightarrow> string \<Rightarrow> string \<Rightarrow> ('w, unit) go" where
  "DeleteVirtualMachineByName client managedTagSlug name =
     bind (wrap_err (\<lambda>err. Errorf ''listing NetBox virtual machines: %w'' [AErr err])
       (ep_list (VirtualizationVirtualMachines client) (no_params\<lparr>lp_Tag := [managedTagSlug], lp_Name := Some name\<rparr>)))
     (\<lambda>listResp. case List.find (\<lambda>vm. ob_Name vm = Some name) (pg_Results listResp) of
        Some vm \<Rightarrow> deleteVirtualMachine client (ob_ID vm)
      | None \<Rightarrow> ret ())"

definition CountManagedVirtualMachines :: "'w netbox_api \<Rightarrow> string \<Rightarrow> ('w, 64 word) go" where
  "CountManagedVirtualMachines client managedTagSlug =
     bind (wrap_err (\<lambda>err. Errorf ''listing NetBox virtual machines: %w'' [AErr err])
       (ep_list (VirtualizationVirtualMachines client) (no_params\<lparr>lp_Tag := [managedTagSlug], lp_Limit := Some 1\<rparr>)))
     (\<lambda>resp. case pg_Count resp of None \<Rightarrow> ret 0 | Some count \<Rightarrow> ret count)"

lemma vm_data_written:
  assumes "vm_data client spec w = (Ok d, w')"
  shows "wr_Tags d = [NestedManagedTag (vs_ManagedTag spec)] \<and>
    wr_CustomFields d = GMap [(ExternalIDFieldName, GString (vs_ExternalID spec))]"
  using assms unfolding vm_data_def Let_def by (auto elim!: bind_OkE ret_OkE split: if_splits)

definition vm_recorded :: "nb_view \<Rightarrow> vm_node_spec \<Rightarrow> writable_vm \<Rightarrow> bool" where
  "vm_recorded v spec d \<longleftrightarrow>
     wv_Name d = vs_Name spec \<and> wv_Cluster d \<in> clusters_named v (vs_ClusterName spec) \<and>
     (vs_PlatformName spec \<noteq> '''' \<longrightarrow>
        (\<exists>p \<in> v_refs v RPlatform (vs_PlatformName spec). wv_Platform d = Some p))"

lemma vm_data_triple:
  assumes law: "lawful psize view client"
  shows "triple (\<lambda>w. view w = v) (vm_data client spec)
    (\<lambda>d w. view w = v \<and> vm_recorded v spec d) (\<lambda>_ w. view w = v)"
  unfolding vm_data_def Let_def
proof (rule triple_bind_fact[OF cluster_name.lookup_reads[OF lawful_lookups(8)[OF law]]])
  fix c
  assume c: "c \<in> clusters_named v (vs_ClusterName spec)"
  note platform = triple_bind_fact[OF platform.lookup_reads[OF lawful_lookups(7)[OF law]]]
  let ?d = "\<lparr>wr_Tags = [NestedManagedTag (vs_ManagedTag spec)],
      wr_CustomFields = GMap [(ExternalIDFieldName, GString (vs_ExternalID spec))],
      wv_Name = vs_Name spec, wv_Cluster = c, wv_Platform = None\<rparr>"
  show "triple (\<lambda>w. view w = v)
      (if vs_PlatformName spec \<noteq> '''' then
         bind (LookupPlatformID client (vs_PlatformName spec)) (\<lambda>p. ret (?d\<lparr>wv_Platform := Some p\<rparr>))
       else ret ?d)
      (\<lambda>d w. view w = v \<and> vm_recorded v spec d) (\<lambda>_ w. view w = v)"
    using c by (auto intro!: platform triple_ret simp: vm_recorded_def)
qed

interpretation vm: managed_ensure vm_kind VirtualizationVirtualMachines "''listing NetBox virtual machines: %w''"
  findVirtualMachineByExternalID vs_ManagedTag vs_ExternalID vm_data
  "\<lambda>spec i err. Errorf ''updating NetBox virtual machine %q (id %d): %w'' [AStr (vs_Name spec), AInt i, AErr err]"
  "\<lambda>spec err. Errorf ''creating NetBox virtual machine %q: %w'' [AStr (vs_Name spec), AErr err]" EnsureVirtualMachine
proof unfold_locales
  show "wr_Tags d = [NestedManagedTag (vs_ManagedTag spec)] \<and>
      wr_CustomFields d = GMap [(ExternalIDFieldName, GString (vs_ExternalID spec))]"
    if "vm_data client spec w = (Ok d, w')" for client :: "'w netbox_api" and spec w d w'
    using that by (rule vm_data_written)
qed (simp_all only: findVirtualMachineByExternalID_def EnsureVirtualMachine_def kind_ok_kinds)

interpretation vm_delete: managed_delete vm_kind VirtualizationVirtualMachines
  "''listing NetBox virtual machines: %w''" findVirtualMachineByExternalID
  "\<lambda>i err. Errorf ''deleting NetBox virtual machine (id %d): %w'' [AInt i, AErr err]" DeleteVirtualMachineByExternalID
  by unfold_locales (simp only: DeleteVirtualMachineByExternalID_def deleteVirtualMachine_def)

lemma vm_oname: "k_oname vm_kind = ob_Name"
  by (simp add: vm_kind_def)

interpretation vm_name: managed_named vm_kind VirtualizationVirtualMachines
  "''listing NetBox virtual machines: %w''" findVirtualMachineByExternalID
  "\<lambda>i err. Errorf ''deleting NetBox virtual machine (id %d): %w'' [AInt i, AErr err]"
  deleteVirtualMachine DeleteVirtualMachineByName
  by unfold_locales (simp_all only: DeleteVirtualMachineByName_def deleteVirtualMachine_def vm_oname)

interpretation vm_count: managed_count vm_kind VirtualizationVirtualMachines
  "''listing NetBox virtual machines: %w''" findVirtualMachineByExternalID CountManagedVirtualMachines
  by unfold_locales (simp only: CountManagedVirtualMachines_def)

lemma vm_keeps [keeps_rules]:
  assumes api: "api_keeps I client"
  shows "tg_Slug (vs_ManagedTag spec) \<noteq> None \<Longrightarrow> keeps I (EnsureVirtualMachine client spec)"
    and "keeps I (DeleteVirtualMachineByExternalID client slug x)"
    and "keeps I (DeleteVirtualMachineByName client slug x)"
    and "keeps I (CountManagedVirtualMachines client slug)"
proof -
  have ep: "ep_keeps I (VirtualizationVirtualMachines client)" using api by (simp add: api_keeps_def)
  have "keeps I (vm_data client spec)"
    unfolding vm_data_def Let_def by (intro keeps_rules api)
  then show "tg_Slug (vs_ManagedTag spec) \<noteq> None \<Longrightarrow> keeps I (EnsureVirtualMachine client spec)"
    by (rule vm.ensure_keeps[OF ep])
  show "keeps I (DeleteVirtualMachineByExternalID client slug x)" by (rule vm_delete.delete_ext_keeps[OF ep])
  show "keeps I (DeleteVirtualMachineByName client slug x)" by (rule vm_name.delete_name_keeps[OF ep])
  show "keeps I (CountManagedVirtualMachines client slug)" by (rule vm_count.count_keeps[OF ep])
qed

lemma EnsureVirtualMachine_triple:
  assumes "lawful psize view client" and "tg_Slug (vs_ManagedTag spec) = Some slug"
  shows "triple (\<lambda>w. view w = v) (EnsureVirtualMachine client spec)
    (\<lambda>i w. ensured psize vm_kind slug (vs_ExternalID spec) (vm_recorded v spec) i v (view w))
    (\<lambda>_ w. view w = v \<or>
       (\<exists>i. ensured psize vm_kind slug (vs_ExternalID spec) (vm_recorded v spec) i v (view w)))"
  using assms by (intro vm.ensure_triple[where P = "vm_recorded v spec"] vm_data_triple)
    (auto simp: lawful_def vm_recorded_def stored_as_def vm_kind_def kept_opt_def)

end
