(* ===== verification/Node_Controller.thy ===== *)
theory Node_Controller
  imports HeraldConfig_Controller NetBox_Node
begin

text \<open>
  \<open>internal/controller/node_controller.go\<close>: one NetBox Device or VirtualMachine per Node.
\<close>

definition deleteNodeByExternalID :: "'w netbox_api \<Rightarrow> HeraldConfigSpec \<Rightarrow> string \<Rightarrow> string \<Rightarrow> ('w, unit) go" where
  "deleteNodeByExternalID nbClient spec managedTagSlug externalID =
     (if nd_Mapping (rc_Nodes (hs_Resources spec)) = NodeMappingVirtualMachine
      then DeleteVirtualMachineByExternalID nbClient managedTagSlug externalID
      else DeleteDeviceByExternalID nbClient managedTagSlug externalID)"

definition deleteNodeByName :: "'w netbox_api \<Rightarrow> string \<Rightarrow> string \<Rightarrow> ('w, unit) go" where
  "deleteNodeByName nbClient managedTagSlug name =
     bind (DeleteDeviceByName nbClient managedTagSlug name) (\<lambda>_.
     DeleteVirtualMachineByName nbClient managedTagSlug name)"

definition syncNodesStatus :: "('x, 'v) env \<Rightarrow> string \<Rightarrow> HeraldConfigSpec \<Rightarrow> error option \<Rightarrow> ('x world_scheme, unit) go" where
  "syncNodesStatus env managedTagSlug spec syncErr =
     if_err (GetHeraldConfig env singletonName)
       (\<lambda>err. if IsNotFound err then ret () else fail err) (\<lambda>cr.
     bind StoreGet (\<lambda>(_, clientp).
     case clientp of
       None \<Rightarrow> ret ()
     | Some netboxClient \<Rightarrow>
         let nodes = rc_Nodes (hs_Resources spec); api = Netbox env netboxClient in
         bind (attempt (if nd_Mapping nodes = NodeMappingVirtualMachine
             then CountManagedVirtualMachines api managedTagSlug
             else CountManagedDevices api managedTagSlug)) (\<lambda>count.
         bind (sync_status env (nd_Enabled nodes) (hc_Generation cr) count syncErr) (\<lambda>status.
         bind (UpdateStatus env (cr\<lparr>hc_Status := (hc_Status cr)
           \<lparr>hc_Resources := (hc_Resources (hc_Status cr))\<lparr>st_Nodes := status\<rparr>\<rparr>\<rparr>)) (\<lambda>_. ret ())))))"

text \<open>The body of the \<open>switch\<close> on the mapping.\<close>

definition ensureNode :: "'w netbox_api \<Rightarrow> HeraldConfigSpec \<Rightarrow> node \<Rightarrow> tag \<Rightarrow> ('w, unit) go" where
  "ensureNode nbClient spec node managedTag =
     (let nodes = rc_Nodes (hs_Resources spec) in
      if nd_Mapping nodes = NodeMappingDevice then
        bind (EnsureDevice nbClient
            \<lparr>ds_Name = nod_Name node, ds_DeviceRoleName = dm_DeviceRoleName (nd_Device nodes),
             ds_DeviceTypeName = dm_DeviceTypeName (nd_Device nodes), ds_SiteName = dm_SiteName (nd_Device nodes),
             ds_ExternalID = nod_UID node, ds_ManagedTag = managedTag\<rparr>) (\<lambda>_. ret ())
      else if nd_Mapping nodes = NodeMappingVirtualMachine then
        bind (EnsureVirtualMachine nbClient
            \<lparr>vs_Name = nod_Name node,
             vs_ClusterName = (if vm_ClusterName (nd_VirtualMachine nodes) = ''''
               then cl_Name (rc_Cluster (hs_Resources spec)) else vm_ClusterName (nd_VirtualMachine nodes)),
             vs_PlatformName = vm_PlatformName (nd_VirtualMachine nodes),
             vs_ExternalID = nod_UID node, vs_ManagedTag = managedTag\<rparr>) (\<lambda>_. ret ())
      else fail (Errorf ''spec.resources.nodes.mapping must be %q or %q, got %q''
        [AStr NodeMappingDevice, AStr NodeMappingVirtualMachine, AStr (nd_Mapping nodes)]))"

definition reconcileNode :: "('x, 'v) env \<Rightarrow> request \<Rightarrow> ('x world_scheme, result) go" where
  "reconcileNode env req =
     bind StoreGet (\<lambda>(specp, clientp).
     case (specp, clientp) of
       (Some spec, Some netboxClient) \<Rightarrow>
         let managedTagSlug = resolveManagedTagSlug spec;
             resyncInterval = resolveResyncInterval spec;
             api = Netbox env netboxClient;
             nodes = rc_Nodes (hs_Resources spec);
             status = syncNodesStatus env managedTagSlug spec;
             failed = (\<lambda>err. bind (status (Some err)) (\<lambda>_. ret no_requeue)) in
         if_err (GetNode env (rq_Name req))
           (\<lambda>err. if IsNotFound err then
                if_err (deleteNodeByName api managedTagSlug (rq_Name req)) failed (\<lambda>_.
                bind (status None) (\<lambda>_. ret no_requeue))
              else fail err) (\<lambda>node.
         if \<not> nd_Enabled nodes then
           if_err (if \<not> nd_RetainOnDisable nodes
               then deleteNodeByExternalID api spec managedTagSlug (nod_UID node) else ret ())
             failed (\<lambda>_.
           bind (status None) (\<lambda>_. ret \<lparr>RequeueAfter = resyncInterval\<rparr>))
         else
           if_err (EnsureManagedTag api managedTagSlug) failed (\<lambda>managedTag.
           if_err (ensureNode api spec node managedTag) failed (\<lambda>_.
           bind (status None) (\<lambda>_. ret \<lparr>RequeueAfter = resyncInterval\<rparr>))))
     | _ \<Rightarrow> ret \<lparr>RequeueAfter = storeNotReadyPollInterval\<rparr>)"

definition enqueueAllNodes :: "('x, 'v) env \<Rightarrow> ('x world_scheme, request list) go" where
  "enqueueAllNodes env =
     if_err (ListNodes env) (\<lambda>_. ret [])
       (\<lambda>nodes. ret (map (\<lambda>node. \<lparr>rq_Namespace = '''', rq_Name = nod_Name node\<rparr>) nodes))"

end
