(* ===== verification/NetBox_Service.thy ===== *)
theory NetBox_Service
  imports NetBox_Removal
begin

text \<open>
  \<open>internal/netbox/service.go\<close>: the external addresses of a LoadBalancer Service as NetBox IP
  addresses. The external ID of an address is \<open>namespace/name/address\<close>; what a Service owns
  is recognised by the prefix \<open>namespace/name/\<close>, so it can be cleaned up after the Service
  is gone.
\<close>

section \<open>External IDs\<close>

definition serviceExternalIDPrefix :: "string \<Rightarrow> string \<Rightarrow> string" where
  "serviceExternalIDPrefix namespace name = namespace @ ''/'' @ name @ ''/''"

definition ExternalIDForServiceAddress :: "string \<Rightarrow> string \<Rightarrow> string \<Rightarrow> string" where
  "ExternalIDForServiceAddress namespace name address = serviceExternalIDPrefix namespace name @ address"

text \<open>Kubernetes names hold no slash, so the prefix of a Service selects its own addresses only.\<close>

lemma service_prefix_append:
  "serviceExternalIDPrefix ns n @ a = ns @ CHR ''/'' # n @ CHR ''/'' # a"
  by (simp add: serviceExternalIDPrefix_def)

lemma service_external_id_inj:
  assumes "CHR ''/'' \<notin> set ns" "CHR ''/'' \<notin> set n" "CHR ''/'' \<notin> set ns'" "CHR ''/'' \<notin> set n'"
  shows "ExternalIDForServiceAddress ns n a = ExternalIDForServiceAddress ns' n' a' \<longleftrightarrow> ns = ns' \<and> n = n' \<and> a = a'"
  unfolding ExternalIDForServiceAddress_def service_prefix_append by (rule two_seps_eq[OF assms])

lemma service_prefix_iff:
  assumes "CHR ''/'' \<notin> set ns" "CHR ''/'' \<notin> set n" "CHR ''/'' \<notin> set ns'" "CHR ''/'' \<notin> set n'"
  shows "prefix (serviceExternalIDPrefix ns n) (ExternalIDForServiceAddress ns' n' a) \<longleftrightarrow> ns = ns' \<and> n = n'"
  unfolding prefix_def ExternalIDForServiceAddress_def service_prefix_append
    two_seps_eq[OF assms(3,4,1,2)] by blast

section \<open>Operations\<close>

record service_ip_spec =
  is_Address :: string
  is_Description :: string
  is_ExternalID :: string
  is_ManagedTag :: tag

definition findServiceIPByExternalID :: "'w netbox_api \<Rightarrow> string \<Rightarrow> string \<Rightarrow> ('w, nb_object option) go" where
  "findServiceIPByExternalID client managedTagSlug externalID =
     bind (wrap_err (\<lambda>err. Errorf ''listing NetBox IP addresses: %w'' [AErr err])
       (ep_list (IpamIPAddresses client) (no_params\<lparr>lp_Tag := [managedTagSlug]\<rparr>)))
     (\<lambda>listResp. ret (List.find
        (\<lambda>addr. readExternalID (ob_CustomFields addr) = Some externalID) (pg_Results listResp)))"

definition service_ip_data :: "service_ip_spec \<Rightarrow> writable_ip" where
  "service_ip_data spec =
     \<lparr>wr_Tags = [NestedManagedTag (is_ManagedTag spec)],
      wr_CustomFields = GMap [(ExternalIDFieldName, GString (is_ExternalID spec))],
      wi_Address = is_Address spec, wi_Description = is_Description spec\<rparr>"

definition EnsureServiceIP :: "'w netbox_api \<Rightarrow> service_ip_spec \<Rightarrow> ('w, int) go" where
  "EnsureServiceIP client spec =
     bind (deref (tg_Slug (is_ManagedTag spec))) (\<lambda>slug.
     bind (findServiceIPByExternalID client slug (is_ExternalID spec)) (\<lambda>existing.
     let data = service_ip_data spec in
     case existing of
       Some existing \<Rightarrow>
         bind (wrap_err (\<lambda>err. Errorf ''updating NetBox IP address %q (id %d): %w''
             [AStr (is_Address spec), AInt (ob_ID existing), AErr err])
           (ep_update (IpamIPAddresses client) (ob_ID existing) data))
         (\<lambda>updateResp. ret (ob_ID updateResp))
     | None \<Rightarrow>
         bind (wrap_err (\<lambda>err. Errorf ''creating NetBox IP address %q: %w'' [AStr (is_Address spec), AErr err])
           (ep_create (IpamIPAddresses client) data))
         (\<lambda>createResp. ret (ob_ID createResp))))"

definition ListServiceIPs :: "'w netbox_api \<Rightarrow> string \<Rightarrow> string \<Rightarrow> string \<Rightarrow> ('w, nb_object list) go" where
  "ListServiceIPs client managedTagSlug namespace name =
     (let pre = serviceExternalIDPrefix namespace name in
      bind (wrap_err (\<lambda>err. Errorf ''listing NetBox IP addresses: %w'' [AErr err])
        (ep_list (IpamIPAddresses client) (no_params\<lparr>lp_Tag := [managedTagSlug]\<rparr>)))
      (\<lambda>listResp. ret (filter (\<lambda>addr. case readExternalID (ob_CustomFields addr) of
           Some i \<Rightarrow> prefix pre i | None \<Rightarrow> False) (pg_Results listResp))))"

definition deleteServiceIP :: "'w netbox_api \<Rightarrow> int \<Rightarrow> ('w, unit) go" where
  "deleteServiceIP client i =
     bind (wrap_err (\<lambda>err. Errorf ''deleting NetBox IP address (id %d): %w'' [AInt i, AErr err])
       (ep_delete (IpamIPAddresses client) i)) (\<lambda>_. ret ())"

definition DeleteServiceIP :: "'w netbox_api \<Rightarrow> int \<Rightarrow> ('w, unit) go" where
  "DeleteServiceIP client i = deleteServiceIP client i"

definition DeleteServiceIPs :: "'w netbox_api \<Rightarrow> string \<Rightarrow> string \<Rightarrow> string \<Rightarrow> ('w, unit) go" where
  "DeleteServiceIPs client managedTagSlug namespace name =
     bind (ListServiceIPs client managedTagSlug namespace name) (\<lambda>owned.
     for_each owned (\<lambda>addr. deleteServiceIP client (ob_ID addr)))"

definition CountManagedServiceIPs :: "'w netbox_api \<Rightarrow> string \<Rightarrow> ('w, 64 word) go" where
  "CountManagedServiceIPs client managedTagSlug =
     bind (wrap_err (\<lambda>err. Errorf ''listing NetBox IP addresses: %w'' [AErr err])
       (ep_list (IpamIPAddresses client) (no_params\<lparr>lp_Tag := [managedTagSlug], lp_Limit := Some 1\<rparr>)))
     (\<lambda>resp. case pg_Count resp of None \<Rightarrow> ret 0 | Some count \<Rightarrow> ret count)"

section \<open>The contracts\<close>

lemma service_ip_data_written:
  "wr_Tags (service_ip_data spec) = [NestedManagedTag (is_ManagedTag spec)]"
  "wr_CustomFields (service_ip_data spec) = GMap [(ExternalIDFieldName, GString (is_ExternalID spec))]"
  by (simp_all add: service_ip_data_def)

interpretation ip: managed_ensure ip_kind IpamIPAddresses "''listing NetBox IP addresses: %w''"
  findServiceIPByExternalID is_ManagedTag is_ExternalID "\<lambda>_ spec. ret (service_ip_data spec)"
  "\<lambda>spec i err. Errorf ''updating NetBox IP address %q (id %d): %w'' [AStr (is_Address spec), AInt i, AErr err]"
  "\<lambda>spec err. Errorf ''creating NetBox IP address %q: %w'' [AStr (is_Address spec), AErr err]" EnsureServiceIP
proof unfold_locales
  show "wr_Tags d = [NestedManagedTag (is_ManagedTag spec)] \<and>
      wr_CustomFields d = GMap [(ExternalIDFieldName, GString (is_ExternalID spec))]"
    if "ret (service_ip_data spec) w = (Ok d, w')" for spec and w :: 'w and d w'
    using that by (auto elim!: ret_OkE simp: service_ip_data_written)
qed (simp_all only: findServiceIPByExternalID_def EnsureServiceIP_def kind_ok_kinds bind_ret Let_def)

interpretation ip_delete: managed_by_id ip_kind IpamIPAddresses "''listing NetBox IP addresses: %w''"
  findServiceIPByExternalID "\<lambda>i err. Errorf ''deleting NetBox IP address (id %d): %w'' [AInt i, AErr err]"
  DeleteServiceIP
  by unfold_locales (simp only: deleteServiceIP_def DeleteServiceIP_def)

interpretation ip_owner: managed_owner ip_kind IpamIPAddresses "''listing NetBox IP addresses: %w''"
  findServiceIPByExternalID "\<lambda>i err. Errorf ''deleting NetBox IP address (id %d): %w'' [AInt i, AErr err]"
  deleteServiceIP "\<lambda>(ns, n). serviceExternalIDPrefix ns n" "\<lambda>client slug (ns, n). ListServiceIPs client slug ns n"
  "\<lambda>client slug (ns, n). DeleteServiceIPs client slug ns n"
  by unfold_locales
    (simp_all only: deleteServiceIP_def ListServiceIPs_def DeleteServiceIPs_def Let_def split_beta)

interpretation ip_count: managed_count ip_kind IpamIPAddresses "''listing NetBox IP addresses: %w''"
  findServiceIPByExternalID CountManagedServiceIPs
  by unfold_locales (simp only: CountManagedServiceIPs_def)

definition ip_recorded :: "service_ip_spec \<Rightarrow> writable_ip \<Rightarrow> bool" where
  "ip_recorded spec d \<longleftrightarrow> wi_Address d = is_Address spec"

lemma service_ip_keeps [keeps_rules]:
  assumes api: "api_keeps I client"
  shows "tg_Slug (is_ManagedTag spec) \<noteq> None \<Longrightarrow> keeps I (EnsureServiceIP client spec)"
    and "keeps I (DeleteServiceIPs client slug ns n)" and "keeps I (CountManagedServiceIPs client slug)"
proof -
  have ep: "ep_keeps I (IpamIPAddresses client)" using api by (simp add: api_keeps_def)
  show "tg_Slug (is_ManagedTag spec) \<noteq> None \<Longrightarrow> keeps I (EnsureServiceIP client spec)"
    by (rule ip.ensure_keeps[OF ep keeps_ret])
  show "keeps I (DeleteServiceIPs client slug ns n)"
    using ip_owner.delete_owned_keeps[where client = client and slug = slug and k = "(ns, n)", OF ep] by simp
  show "keeps I (CountManagedServiceIPs client slug)" by (rule ip_count.count_keeps[OF ep])
qed

lemma EnsureServiceIP_triple:
  assumes "lawful psize view client" and "tg_Slug (is_ManagedTag spec) = Some slug"
  shows "triple (\<lambda>w. view w = v) (EnsureServiceIP client spec)
    (\<lambda>i w. ensured psize ip_kind slug (is_ExternalID spec) (ip_recorded spec) i v (view w))
    (\<lambda>_ w. view w = v \<or> (\<exists>i. ensured psize ip_kind slug (is_ExternalID spec) (ip_recorded spec) i v (view w)))"
  using assms by (intro ip.ensure_triple[where P = "ip_recorded spec"] triple_ret)
    (auto simp: lawful_def ip_recorded_def stored_as_def ip_kind_def service_ip_data_def)

end
