(* ===== verification/NetBox_Sync.thy ===== *)
theory NetBox_Sync
  imports NetBox_Removal
begin

text \<open>
  Ensure-then-prune: the contract of \<open>syncServiceAddresses\<close> and \<open>syncNodePrefixes\<close>. Both make
  sure every desired object of one owner exists and then delete the owner's other objects.
  The locale \<open>ensure_and_prune\<close> states what that achieves on a lawful NetBox.
\<close>

section \<open>Frames\<close>

text \<open>Only the table of one kind differs.\<close>

definition only :: "('o, 'd) kind \<Rightarrow> nb_view \<Rightarrow> nb_view \<Rightarrow> bool" where
  "only K v v' \<longleftrightarrow> (\<exists>f. v' = k_upd K f v)"

lemma only_drop: "only K v (drop_ids K I v)"
  unfolding only_def drop_ids_def by blast

lemma only_refl:
  assumes "kind_ok K"
  shows "only K v v"
  using only_drop[of K v "{}"] by (simp add: assms)

lemma only_trans:
  assumes "kind_ok K" and "only K v v'" and "only K v' v''"
  shows "only K v v''"
proof -
  obtain f g where "v' = k_upd K f v" "v'' = k_upd K g v'" using assms(2,3) unfolding only_def by blast
  moreover have "k_upd K g (k_upd K f v) = k_upd K (g \<circ> f) v" using assms(1) unfolding kind_ok_def by blast
  ultimately show ?thesis unfolding only_def by blast
qed

lemma only_put: "only K v (put_obj K i d v)"
  unfolding only_def put_obj_def by blast

lemma only_ensured: "ensured psize K slug x R i v v' \<Longrightarrow> only K v v'"
  by (auto simp: ensured_def intro: only_put)

lemma only_removed: "kind_ok K \<Longrightarrow> removed psize K slug x v v' \<Longrightarrow> only K v v'"
  by (auto simp: removed_def intro: only_drop only_refl)

lemma only_pruned: "partly_pruned K slug pre D v v' \<Longrightarrow> only K v v'"
  by (auto simp: partly_pruned_def intro: only_drop)

text \<open>A write to the table of one kind leaves the other tables alone.\<close>

lemma other_tables:
  "only cluster_kind v v' \<Longrightarrow> k_get device_kind v' = k_get device_kind v \<and> k_get vm_kind v' = k_get vm_kind v \<and>
     k_get ip_kind v' = k_get ip_kind v \<and> k_get prefix_kind v' = k_get prefix_kind v \<and>
     k_get aggregate_kind v' = k_get aggregate_kind v"
  "only device_kind v v' \<Longrightarrow> k_get cluster_kind v' = k_get cluster_kind v \<and> k_get vm_kind v' = k_get vm_kind v \<and>
     k_get ip_kind v' = k_get ip_kind v \<and> k_get prefix_kind v' = k_get prefix_kind v \<and>
     k_get aggregate_kind v' = k_get aggregate_kind v"
  "only vm_kind v v' \<Longrightarrow> k_get cluster_kind v' = k_get cluster_kind v \<and> k_get device_kind v' = k_get device_kind v \<and>
     k_get ip_kind v' = k_get ip_kind v \<and> k_get prefix_kind v' = k_get prefix_kind v \<and>
     k_get aggregate_kind v' = k_get aggregate_kind v"
  "only ip_kind v v' \<Longrightarrow> k_get cluster_kind v' = k_get cluster_kind v \<and> k_get device_kind v' = k_get device_kind v \<and>
     k_get vm_kind v' = k_get vm_kind v \<and> k_get prefix_kind v' = k_get prefix_kind v \<and>
     k_get aggregate_kind v' = k_get aggregate_kind v"
  "only prefix_kind v v' \<Longrightarrow> k_get cluster_kind v' = k_get cluster_kind v \<and> k_get device_kind v' = k_get device_kind v \<and>
     k_get vm_kind v' = k_get vm_kind v \<and> k_get ip_kind v' = k_get ip_kind v \<and>
     k_get aggregate_kind v' = k_get aggregate_kind v"
  "only aggregate_kind v v' \<Longrightarrow> k_get cluster_kind v' = k_get cluster_kind v \<and> k_get device_kind v' = k_get device_kind v \<and>
     k_get vm_kind v' = k_get vm_kind v \<and> k_get ip_kind v' = k_get ip_kind v \<and>
     k_get prefix_kind v' = k_get prefix_kind v"
  by (auto simp: only_def kind_defs)

lemma other_refs:
  "only cluster_kind v v' \<Longrightarrow> v_refs v' = v_refs v" "only device_kind v v' \<Longrightarrow> v_refs v' = v_refs v"
  "only vm_kind v v' \<Longrightarrow> v_refs v' = v_refs v" "only ip_kind v v' \<Longrightarrow> v_refs v' = v_refs v"
  "only prefix_kind v v' \<Longrightarrow> v_refs v' = v_refs v" "only aggregate_kind v v' \<Longrightarrow> v_refs v' = v_refs v"
  by (auto simp: only_def kind_defs)

lemma same_table:
  assumes "k_get K v' = k_get K v"
  shows "ids_for K slug x v' = ids_for K slug x v" and "managed K slug v' = managed K slug v"
    and "unique_ids K slug v' = unique_ids K slug v" and "untouched K slug v v'"
    and "untouched K slug v' v'' = untouched K slug v v''"
  by (simp_all add: assms ids_for_def managed_def unique_ids_def untouched_def)

section \<open>Ensuring a list of external IDs\<close>

fun ensured_all :: "nat \<Rightarrow> ('o, 'd writable_scheme) kind \<Rightarrow> string \<Rightarrow> (string \<Rightarrow> 'd writable_scheme \<Rightarrow> bool) \<Rightarrow>
    string list \<Rightarrow> nb_view \<Rightarrow> nb_view \<Rightarrow> bool" where
  "ensured_all psize K slug R [] v v' \<longleftrightarrow> v' = v"
| "ensured_all psize K slug R (x # xs) v v' \<longleftrightarrow>
     (\<exists>i u. ensured psize K slug x (R x) i v u \<and> ensured_all psize K slug R xs u v')"

lemma ensured_mono: "ensured psize K slug x R i v v' \<Longrightarrow> (\<And>d. R d \<Longrightarrow> R' d) \<Longrightarrow> ensured psize K slug x R' i v v'"
  unfolding ensured_def by blast

text \<open>A loop that has ensured (some of, if it failed) the external IDs \<open>ys\<close> from the view \<open>v\<close>.\<close>

definition loop_done :: "nat \<Rightarrow> ('o, 'd writable_scheme) kind \<Rightarrow> string \<Rightarrow> (string \<Rightarrow> 'd writable_scheme \<Rightarrow> bool) \<Rightarrow>
    string list \<Rightarrow> nb_view \<Rightarrow> string list \<Rightarrow> nb_view \<Rightarrow> bool" where
  "loop_done psize K slug R ys v xs v' \<longleftrightarrow> xs = ys \<and> ensured_all psize K slug R xs v v'"

definition loop_failed :: "nat \<Rightarrow> ('o, 'd writable_scheme) kind \<Rightarrow> string \<Rightarrow> (string \<Rightarrow> 'd writable_scheme \<Rightarrow> bool) \<Rightarrow>
    string list \<Rightarrow> nb_view \<Rightarrow> nb_view \<Rightarrow> bool" where
  "loop_failed psize K slug R ys v v' \<longleftrightarrow> (\<exists>xs. set xs \<subseteq> set ys \<and> ensured_all psize K slug R xs v v')"

lemma loop_failed_now: "loop_failed psize K slug R ys v v"
  unfolding loop_failed_def by (rule exI[of _ "[]"]) simp

lemma loop_failed_step: "ensured psize K slug x (R x) i v v' \<Longrightarrow> loop_failed psize K slug R (x # ys) v v'"
  unfolding loop_failed_def by (rule exI[of _ "[x]"]) auto

lemma loop_failed_later:
  assumes "ensured psize K slug x (R x) i v u" and "loop_failed psize K slug R ys u v'"
  shows "loop_failed psize K slug R (x # ys) v v'"
proof -
  obtain xs where xs: "set xs \<subseteq> set ys" "ensured_all psize K slug R xs u v'"
    using assms(2) unfolding loop_failed_def by blast
  then have "set (x # xs) \<subseteq> set (x # ys)" "ensured_all psize K slug R (x # xs) v v'" using assms(1) by auto
  then show ?thesis unfolding loop_failed_def by blast
qed

lemma ensure_cons_triple:
  assumes step: "triple (\<lambda>w. view w = v) m (\<lambda>_ w. \<exists>i. ensured psize K slug x (R x) i v (view w))
      (\<lambda>_ w. view w = v \<or> (\<exists>i. ensured psize K slug x (R x) i v (view w)))"
    and rest: "\<And>u. triple (\<lambda>w. view w = u) n (\<lambda>xs w. loop_done psize K slug R ys u xs (view w))
      (\<lambda>_ w. loop_failed psize K slug R ys u (view w))"
  shows "triple (\<lambda>w. view w = v) (bind m (\<lambda>_. bind n (\<lambda>xs. ret (x # xs))))
    (\<lambda>xs w. loop_done psize K slug R (x # ys) v xs (view w))
    (\<lambda>_ w. loop_failed psize K slug R (x # ys) v (view w))"
proof (rule triple_bind_some[where F = "\<lambda>_ u. \<exists>i. ensured psize K slug x (R x) i v u"])
  show "triple (\<lambda>w. view w = v) m (\<lambda>_ w. \<exists>i. ensured psize K slug x (R x) i v (view w))
      (\<lambda>_ w. loop_failed psize K slug R (x # ys) v (view w))"
    by (rule triple_post[OF step]) (auto intro: loop_failed_now loop_failed_step)
  fix a u
  assume "\<exists>i. ensured psize K slug x (R x) i v u"
  then obtain i where u: "ensured psize K slug x (R x) i v u" by blast
  show "triple (\<lambda>w. view w = u) (bind n (\<lambda>xs. ret (x # xs)))
      (\<lambda>xs w. loop_done psize K slug R (x # ys) v xs (view w))
      (\<lambda>_ w. loop_failed psize K slug R (x # ys) v (view w))"
  proof (rule triple_bind)
    show "triple (\<lambda>w. view w = u) n (\<lambda>xs w. loop_done psize K slug R (x # ys) v (x # xs) (view w))
        (\<lambda>_ w. loop_failed psize K slug R (x # ys) v (view w))"
      by (rule triple_post[OF rest]) (use u in \<open>auto simp: loop_done_def intro: loop_failed_later\<close>)
  qed (auto intro!: triple_ret)
qed

text \<open>There is exactly one managed object with the external ID, and it records what \<open>R\<close> says.\<close>

definition settled :: "('o, 'd writable_scheme) kind \<Rightarrow> string \<Rightarrow> (string \<Rightarrow> 'd writable_scheme \<Rightarrow> bool) \<Rightarrow>
    string \<Rightarrow> nb_view \<Rightarrow> bool" where
  "settled K slug R x v \<longleftrightarrow> (\<exists>i d. ids_for K slug x v = {i} \<and> k_get K v i = Some d \<and> R x d)"

lemma ensured_settled:
  assumes "kind_ok K" and "ensured psize K slug x (R x) i v v'"
    and "unique_ids K slug v" and "card (managed K slug v) \<le> psize"
  shows "settled K slug R x v'" and "settled K slug R y v \<Longrightarrow> settled K slug R y v'"
proof -
  obtain d where d: "k_get K v' = (k_get K v)(i \<mapsto> d)" "R x d"
    by (rule ensured_get[OF assms(1,2)])
  show x: "settled K slug R x v'"
    using ensured_unique(2)[OF assms] d by (auto simp: settled_def)
  assume y: "settled K slug R y v"
  show "settled K slug R y v'"
  proof (cases "y = x")
    case False
    obtain j e where j: "ids_for K slug y v = {j}" "k_get K v j = Some e" "R y e"
      using y unfolding settled_def by blast
    have "i \<noteq> j"
    proof
      assume "i = j"
      then have "i \<in> ids_for K slug y v" "k_get K v i \<noteq> None" using j by auto
      then have "i \<in> ids_for K slug x v" using assms(2) by (auto simp: ensured_def)
      with \<open>i \<in> ids_for K slug y v\<close> False show False using ids_for_disjoint by metis
    qed
    then show ?thesis using j d False by (auto simp: settled_def ensured_ids_for[OF assms(1,2)])
  qed (simp add: x)
qed

lemma ensured_all_frame:
  assumes "kind_ok K" and "ensured_all psize K slug R xs v v'"
  shows "only K v v' \<and> untouched K slug v v' \<and> (\<forall>y. y \<notin> set xs \<longrightarrow> ids_for K slug y v' = ids_for K slug y v)"
  using assms(2)
proof (induction xs arbitrary: v)
  case Nil
  then show ?case by (simp add: only_refl[OF assms(1)])
next
  case (Cons x xs)
  then obtain i u where u: "ensured psize K slug x (R x) i v u" "ensured_all psize K slug R xs u v'" by auto
  note rest = Cons.IH[OF u(2)]
  have "only K v v'" using only_trans[OF assms(1) only_ensured[OF u(1)]] rest by blast
  moreover have "untouched K slug v v'"
    using untouched_trans[OF ensured_untouched[OF assms(1) u(1)]] rest by blast
  moreover have "ids_for K slug y v' = ids_for K slug y v" if "y \<notin> set (x # xs)" for y
    using rest that by (simp add: ensured_ids_for[OF assms(1) u(1)])
  ultimately show ?case by blast
qed

lemma ensured_all_settled:
  assumes "kind_ok K" and "ensured_all psize K slug R xs v v'" and "unique_ids K slug v"
    and "finite (managed K slug v)" and "card (managed K slug v) + length xs \<le> psize"
  shows "unique_ids K slug v' \<and> card (managed K slug v') \<le> psize \<and>
    (\<forall>y. y \<in> set xs \<or> settled K slug R y v \<longrightarrow> settled K slug R y v')"
  using assms(2-)
proof (induction xs arbitrary: v)
  case (Cons x xs)
  then obtain i u where u: "ensured psize K slug x (R x) i v u" "ensured_all psize K slug R xs u v'" by auto
  have fits: "card (managed K slug v) \<le> psize" using Cons.prems by simp
  have fin: "finite (managed K slug u)" using Cons.prems(3) by (simp add: ensured_managed[OF assms(1) u(1)])
  have "card (managed K slug u) \<le> Suc (card (managed K slug v))"
    by (rule ensured_card[OF assms(1) u(1) Cons.prems(3)])
  then have card: "card (managed K slug u) + length xs \<le> psize" using Cons.prems by simp
  note rest = Cons.IH[OF u(2) ensured_unique(1)[OF assms(1) u(1) Cons.prems(2) fits] fin card]
  note now = ensured_settled[where R = R, OF assms(1) u(1) Cons.prems(2) fits]
  show ?case using rest now by auto
qed simp

lemma pruned_settled:
  assumes "kind_ok K" and "partly_pruned K slug pre D v v'" and "x \<in> D" and "settled K slug R x v"
  shows "settled K slug R x v'"
proof -
  obtain i d where i: "ids_for K slug x v = {i}" "k_get K v i = Some d" "R x d"
    using assms(4) unfolding settled_def by blast
  have ids: "ids_for K slug x v' = {i}"
    using partly_pruned_ids_for[OF assms(1,2), of x] assms(3) i(1) by simp
  obtain I where "v' = drop_ids K I v" using assms(2) by (auto simp: partly_pruned_def)
  then have "k_get K v' i = (if i \<in> I then None else k_get K v i)"
    by (simp add: drop_ids_get[OF assms(1)] restrict_map_def)
  moreover have "\<exists>e. k_get K v' i = Some e" using ids by (auto simp: ids_for_def)
  ultimately have "k_get K v' i = Some d" using i(2) by (auto split: if_splits)
  then show ?thesis using ids i(3) by (auto simp: settled_def)
qed

text \<open>Every object stays as it is, save managed ones with an external ID in \<open>X\<close>.\<close>

definition spares :: "('o, 'd writable_scheme) kind \<Rightarrow> string \<Rightarrow> string set \<Rightarrow> nb_view \<Rightarrow> nb_view \<Rightarrow> bool" where
  "spares K slug X v v' \<longleftrightarrow>
     (\<forall>i d. k_get K v i = Some d \<longrightarrow> (\<forall>x \<in> X. i \<notin> ids_for K slug x v) \<longrightarrow> k_get K v' i = Some d)"

lemma spares_refl [simp]: "spares K slug X v v"
  by (simp add: spares_def)

lemma spares_trans: "spares K slug X v u \<Longrightarrow> spares K slug X u v' \<Longrightarrow> spares K slug X v v'"
  by (auto simp: spares_def ids_for_def)

lemma spares_mono: "spares K slug X v v' \<Longrightarrow> X \<subseteq> Y \<Longrightarrow> spares K slug Y v v'"
  by (auto simp: spares_def)

lemma spares_same: "k_get K u = k_get K v \<Longrightarrow> spares K slug X u v' = spares K slug X v v'"
  by (simp add: spares_def ids_for_def)

lemma ensured_spares:
  assumes "kind_ok K" and "ensured psize K slug x R i v v'"
  shows "spares K slug {x} v v'"
proof -
  obtain d where d: "k_get K v' = (k_get K v)(i \<mapsto> d)"
    by (rule ensured_get[OF assms])
  moreover have "i \<in> ids_for K slug x v \<or> k_get K v i = None" using assms(2) by (auto simp: ensured_def)
  ultimately show ?thesis by (auto simp: spares_def)
qed

lemma ensured_all_spares:
  assumes "kind_ok K"
  shows "ensured_all psize K slug R xs v v' \<Longrightarrow> spares K slug (set xs) v v'"
proof (induction xs arbitrary: v)
  case (Cons x xs)
  then obtain i u where u: "ensured psize K slug x (R x) i v u" "ensured_all psize K slug R xs u v'" by auto
  have "spares K slug (set (x # xs)) v u" by (rule spares_mono[OF ensured_spares[OF assms u(1)]]) simp
  moreover have "spares K slug (set (x # xs)) u v'" by (rule spares_mono[OF Cons.IH[OF u(2)]]) auto
  ultimately show ?case by (rule spares_trans)
qed simp

lemma ensured_all_card:
  assumes "kind_ok K"
  shows "ensured_all psize K slug R xs v v' \<Longrightarrow> finite (managed K slug v) \<Longrightarrow>
    finite (managed K slug v') \<and> card (managed K slug v') \<le> card (managed K slug v) + length xs"
proof (induction xs arbitrary: v)
  case (Cons x xs)
  then obtain i u where u: "ensured psize K slug x (R x) i v u" "ensured_all psize K slug R xs u v'" by auto
  have "finite (managed K slug u)" using Cons.prems(2) by (simp add: ensured_managed[OF assms u(1)])
  from Cons.IH[OF u(2) this] ensured_card[OF assms u(1) Cons.prems(2)] show ?case by simp
qed simp

text \<open>An object that is there already is updated in place.\<close>

lemma ensured_all_in_place:
  assumes "kind_ok K"
  shows "ensured_all psize K slug R xs v v' \<Longrightarrow> unique_ids K slug v \<Longrightarrow> finite (managed K slug v) \<Longrightarrow>
    card (managed K slug v) + length xs \<le> psize \<Longrightarrow> ids_for K slug y v \<noteq> {} \<Longrightarrow>
    ids_for K slug y v' = ids_for K slug y v"
proof (induction xs arbitrary: v)
  case (Cons x xs)
  then obtain i u where u: "ensured psize K slug x (R x) i v u" "ensured_all psize K slug R xs u v'" by auto
  have fits: "card (managed K slug v) \<le> psize" using Cons.prems by simp
  have "i \<in> ids_for K slug x v \<or> ids_for K slug x v = {}" using u(1) fits by (auto simp: ensured_def)
  then have same: "ids_for K slug y u = ids_for K slug y v"
    using Cons.prems(5) by (auto simp: ensured_ids_for[OF assms u(1)])
  have fin: "finite (managed K slug u)" using Cons.prems(3) by (simp add: ensured_managed[OF assms u(1)])
  have "card (managed K slug u) + length xs \<le> psize"
    using Cons.prems ensured_card[OF assms u(1) Cons.prems(3)] by simp
  from Cons.IH[OF u(2) ensured_unique(1)[OF assms u(1) Cons.prems(2) fits] fin this] same Cons.prems(5)
  show ?case by simp
qed simp

lemma pruned_spares:
  assumes "kind_ok K" and "partly_pruned K slug pre D v v'"
  shows "spares K slug {y. prefix pre y} v v'"
proof -
  obtain I where I: "I \<subseteq> stale_ids K slug pre D v" "v' = drop_ids K I v" using assms(2) unfolding partly_pruned_def by blast
  then have "\<exists>y. prefix pre y \<and> i \<in> ids_for K slug y v" if "i \<in> I" for i using that by (auto simp: stale_ids_def)
  then show ?thesis unfolding I(2) spares_def by (auto simp: drop_ids_get[OF assms(1)] restrict_map_def)
qed

lemma pruned_card:
  assumes "kind_ok K" and "partly_pruned K slug pre D v v'" and "finite (managed K slug v)"
  shows "card (managed K slug v') \<le> card (managed K slug v)"
  using assms by (auto simp: partly_pruned_def drop_ids_managed intro: card_mono)

section \<open>The contract\<close>

text \<open>
  After a run: only this kind's table (and the managed tag) changed, unmanaged objects and
  other owners' objects are as they were; and if external IDs were unique and everything fits
  on a page, the owner now has exactly the desired objects, each recorded as specified.
\<close>

definition sync_frame :: "('o, 'd writable_scheme) kind \<Rightarrow> string \<Rightarrow> string \<Rightarrow> nb_view \<Rightarrow> nb_view \<Rightarrow> bool" where
  "sync_frame K slug pre v v' \<longleftrightarrow>
     (\<exists>u. tag_ensured slug v u \<and> only K u v') \<and> untouched K slug v v' \<and>
     spares K slug {y. prefix pre y} v v' \<and>
     (\<forall>y. \<not> prefix pre y \<longrightarrow> ids_for K slug y v' = ids_for K slug y v)"

definition synced :: "nat \<Rightarrow> ('o, 'd writable_scheme) kind \<Rightarrow> string \<Rightarrow> string \<Rightarrow> (string \<Rightarrow> 'd writable_scheme \<Rightarrow> bool) \<Rightarrow>
    string list \<Rightarrow> nb_view \<Rightarrow> nb_view \<Rightarrow> bool" where
  "synced psize K slug pre R xs v v' \<longleftrightarrow> sync_frame K slug pre v v' \<and>
     (unique_ids K slug v \<and> card (managed K slug v) + length xs \<le> psize \<longrightarrow>
        unique_ids K slug v' \<and> card (managed K slug v') \<le> card (managed K slug v) + length xs \<and>
        (\<forall>y \<in> set xs. ids_for K slug y v \<noteq> {} \<longrightarrow> ids_for K slug y v' = ids_for K slug y v) \<and>
        (\<forall>y. prefix pre y \<longrightarrow> (if y \<in> set xs then settled K slug R y v' else ids_for K slug y v' = {})))"

lemma pruned_synced:
  assumes ok: "kind_ok K" and get: "k_get K u = k_get K v" and tag: "tag_ensured slug v u"
    and fin: "finite (managed K slug v)"
    and all: "ensured_all psize K slug R xs u u'" and pre: "\<forall>x \<in> set xs. prefix pre x"
  shows "partly_pruned K slug pre (set xs) u' v' \<Longrightarrow> sync_frame K slug pre v v'"
    and "pruned psize K slug pre (set xs) u' v' \<Longrightarrow> synced psize K slug pre R xs v v'"
proof -
  note same = same_table[OF get]
  note frame = ensured_all_frame[OF ok all]
  show part: "sync_frame K slug pre v v'" if p: "partly_pruned K slug pre (set xs) u' v'" for v'
  proof -
    have "only K u v'" using only_trans[OF ok _ only_pruned[OF p]] frame by blast
    moreover have "untouched K slug v v'"
      using untouched_trans[OF _ partly_pruned_untouched[OF ok p]] frame same(5) by blast
    moreover have "ids_for K slug y v' = ids_for K slug y v" if "\<not> prefix pre y" for y
      using that partly_pruned_ids_for[OF ok p, of y] frame pre same(1) by auto
    moreover have "spares K slug {y. prefix pre y} v v'"
    proof (rule spares_trans[OF _ pruned_spares[OF ok p]])
      show "spares K slug {y. prefix pre y} v u'"
        by (rule spares_mono[OF ensured_all_spares[OF ok all, unfolded spares_same[OF get]]]) (use pre in auto)
    qed
    ultimately show ?thesis using tag by (auto simp: sync_frame_def)
  qed
  show "synced psize K slug pre R xs v v'" if p: "pruned psize K slug pre (set xs) u' v'"
  proof -
    have "unique_ids K slug v' \<and> card (managed K slug v') \<le> card (managed K slug v) + length xs \<and>
        (\<forall>y \<in> set xs. ids_for K slug y v \<noteq> {} \<longrightarrow> ids_for K slug y v' = ids_for K slug y v) \<and>
        (\<forall>y. prefix pre y \<longrightarrow> (if y \<in> set xs then settled K slug R y v' else ids_for K slug y v' = {}))"
      if un: "unique_ids K slug v" and fits: "card (managed K slug v) + length xs \<le> psize"
    proof -
      have all': "unique_ids K slug u' \<and> card (managed K slug u') \<le> psize \<and>
          (\<forall>y. y \<in> set xs \<or> settled K slug R y u \<longrightarrow> settled K slug R y u')"
        by (rule ensured_all_settled[OF ok all]) (use un fits fin same in simp_all)
      have ids: "ids_for K slug y v' = (if prefix pre y \<and> y \<notin> set xs then {} else ids_for K slug y u')" for y
        using pruned_ids_for[OF ok p] all' by blast
      moreover have "ids_for K slug y u' = ids_for K slug y v" if "ids_for K slug y v \<noteq> {}" for y
        using ensured_all_in_place[OF ok all, of y] un fits fin same that by simp
      moreover from ids have "unique_ids K slug v'" using all' by (simp add: unique_ids_def)
      moreover have "card (managed K slug v') \<le> card (managed K slug v) + length xs"
        using ensured_all_card[OF ok all] pruned_card[OF ok pruned_partly[OF p]] fin same(2) by simp
      ultimately show ?thesis
        using all' pruned_settled[OF ok pruned_partly[OF p]] by auto
    qed
    then show ?thesis using part[OF pruned_partly[OF p]] by (simp add: synced_def)
  qed
qed

lemma partly_frame:
  assumes "kind_ok K" "k_get K u = k_get K v" "tag_ensured slug v u" "ensured_all psize K slug R xs u u'"
    "\<forall>x \<in> set xs. prefix pre x" "finite (managed K slug v)"
  shows "sync_frame K slug pre v u'"
  by (rule pruned_synced(1)[OF assms(1-3,6,4,5)]) (rule partly_pruned_refl[OF assms(1)])

locale ensure_and_prune =
  managed_owner K ep listing_failed find_ext delete_failed delete_id owner_prefix list_owned delete_owned
  for K :: "('o nb_object_scheme, 'd writable_scheme) kind"
    and ep :: "'w netbox_api \<Rightarrow> ('o nb_object_scheme, 'd writable_scheme, 'w) endpoint"
    and listing_failed :: string
    and find_ext :: "'w netbox_api \<Rightarrow> string \<Rightarrow> string \<Rightarrow> ('w, 'o nb_object_scheme option) go"
    and delete_failed :: "int \<Rightarrow> error \<Rightarrow> error"
    and delete_id :: "'w netbox_api \<Rightarrow> int \<Rightarrow> ('w, unit) go"
    and owner_prefix :: "'k \<Rightarrow> string"
    and list_owned :: "'w netbox_api \<Rightarrow> string \<Rightarrow> 'k \<Rightarrow> ('w, 'o nb_object_scheme list) go"
    and delete_owned :: "'w netbox_api \<Rightarrow> string \<Rightarrow> 'k \<Rightarrow> ('w, unit) go" +
  fixes owner_of :: "'s \<Rightarrow> 'k"
    and ensure_desired :: "'w netbox_api \<Rightarrow> tag \<Rightarrow> 's \<Rightarrow> ('w, string list) go"
    and records :: "'s \<Rightarrow> string \<Rightarrow> 'd writable_scheme \<Rightarrow> bool"
    and desired :: "'s \<Rightarrow> string list"
    and sync :: "'w netbox_api \<Rightarrow> string \<Rightarrow> 's \<Rightarrow> ('w, unit) go"
  assumes sync_eq: "sync client slug s =
      bind (EnsureManagedTag client slug) (\<lambda>tag.
      bind (ensure_desired client tag s) (\<lambda>xs.
      bind (list_owned client slug (owner_of s)) (\<lambda>owned.
      for_each owned (\<lambda>ob.
        bind (assertExternalID (ob_CustomFields ob)) (\<lambda>x.
        if x \<in> set xs then ret () else delete_id client (ob_ID ob))))))"
    and ensure_desired_triple: "lawful psize view client \<Longrightarrow> tg_Slug tag = Some slug \<Longrightarrow>
      triple (\<lambda>w. view w = v) (ensure_desired client tag s)
        (\<lambda>xs w. loop_done psize K slug (records s) (desired s) v xs (view w))
        (\<lambda>_ w. loop_failed psize K slug (records s) (desired s) v (view w))"
    and desired_owned: "x \<in> set (desired s) \<Longrightarrow> prefix (owner_prefix (owner_of s)) x"
    and tag_frame: "tag_ensured slug v v' \<Longrightarrow> k_get K v' = k_get K v"
    and lawful_kind: "lawful psize view client \<Longrightarrow> lawful_ep psize view K (ep client)"
begin

lemma sync_keeps:
  assumes api: "api_keeps I client" and "ep_keeps I (ep client)"
    and "\<And>tag :: tag. tg_Slug tag \<noteq> None \<Longrightarrow> keeps I (ensure_desired client tag s)"
  shows "keeps I (sync client slug s)"
  unfolding sync_eq
proof (rule keeps_bind_fact[OF EnsureManagedTag_slug[OF api]])
  fix tag :: tag
  assume "tg_Slug tag \<noteq> None"
  then show "keeps I (bind (ensure_desired client tag s) (\<lambda>xs.
      bind (list_owned client slug (owner_of s)) (\<lambda>owned.
      for_each owned (\<lambda>ob. bind (assertExternalID (ob_CustomFields ob)) (\<lambda>x.
        if x \<in> set xs then ret () else delete_id client (ob_ID ob))))))"
    by (intro keeps_bind prune_keeps assms(2,3))
qed

lemma sync_triple:
  assumes law: "lawful psize view client"
  shows "triple (\<lambda>w. view w = v) (sync client slug s)
    (\<lambda>_ w. synced psize K slug (owner_prefix (owner_of s)) (records s) (desired s) v (view w))
    (\<lambda>_ w. sync_frame K slug (owner_prefix (owner_of s)) v (view w))"
  unfolding sync_eq
proof (rule triple_bind_some[where F = "\<lambda>tag u. tg_Slug tag = Some slug \<and> tag_ensured slug v u \<and>
    finite (managed K slug v)"])
  let ?pre = "owner_prefix (owner_of s)"
  note ep = lawful_kind[OF law]
  have tags: "lawful_tags view client" using law by (simp add: lawful_def)
  have framed: "sync_frame K slug ?pre v u" if "tag_ensured slug v u" "finite (managed K slug v)" for u
    by (rule partly_frame[OF kind tag_frame[OF that(1)] that(1), where xs = "[]"]) (use that in simp_all)
  show "triple (\<lambda>w. view w = v) (EnsureManagedTag client slug)
      (\<lambda>tag w. tg_Slug tag = Some slug \<and> tag_ensured slug v (view w) \<and> finite (managed K slug v))
      (\<lambda>_ w. sync_frame K slug ?pre v (view w))"
    by (rule triple_weaken[OF triple_finite[OF ep EnsureManagedTag_triple[OF tags], of v slug slug]]) (use framed in auto)
  fix tag :: tag and u
  assume "tg_Slug tag = Some slug \<and> tag_ensured slug v u \<and> finite (managed K slug v)"
  then have slug: "tg_Slug tag = Some slug" and tagged: "tag_ensured slug v u" and fin: "finite (managed K slug v)"
    by simp_all
  note tab = tag_frame[OF tagged]
  show "triple (\<lambda>w. view w = u) (bind (ensure_desired client tag s) (\<lambda>xs.
      bind (list_owned client slug (owner_of s)) (\<lambda>owned.
      for_each owned (\<lambda>ob. bind (assertExternalID (ob_CustomFields ob)) (\<lambda>x.
        if x \<in> set xs then ret () else delete_id client (ob_ID ob))))))
      (\<lambda>_ w. synced psize K slug ?pre (records s) (desired s) v (view w))
      (\<lambda>_ w. sync_frame K slug ?pre v (view w))"
  proof (rule triple_bind_some[where F = "loop_done psize K slug (records s) (desired s) u"])
    show "triple (\<lambda>w. view w = u) (ensure_desired client tag s)
        (\<lambda>xs w. loop_done psize K slug (records s) (desired s) u xs (view w))
        (\<lambda>_ w. sync_frame K slug ?pre v (view w))"
    proof (rule triple_post[OF ensure_desired_triple[OF law slug]])
      fix w
      assume "loop_failed psize K slug (records s) (desired s) u (view w)"
      then obtain xs where xs: "set xs \<subseteq> set (desired s)" "ensured_all psize K slug (records s) xs u (view w)"
        unfolding loop_failed_def by blast
      show "sync_frame K slug ?pre v (view w)"
        by (rule partly_frame[OF kind tab tagged xs(2) _ fin]) (use xs(1) desired_owned in blast)
    qed
    fix xs u'
    assume "loop_done psize K slug (records s) (desired s) u xs u'"
    then have xs: "xs = desired s" and all0: "ensured_all psize K slug (records s) xs u u'"
      unfolding loop_done_def by (rule conjunct1, rule conjunct2)
    note all = all0[unfolded xs]
    have pre: "\<forall>x \<in> set (desired s). prefix ?pre x" using desired_owned by blast
    note ends = pruned_synced[OF kind tab tagged fin all pre]
    show "triple (\<lambda>w. view w = u') (bind (list_owned client slug (owner_of s)) (\<lambda>owned.
        for_each owned (\<lambda>ob. bind (assertExternalID (ob_CustomFields ob)) (\<lambda>x.
          if x \<in> set xs then ret () else delete_id client (ob_ID ob)))))
        (\<lambda>_ w. synced psize K slug ?pre (records s) (desired s) v (view w))
        (\<lambda>_ w. sync_frame K slug ?pre v (view w))"
      unfolding xs by (rule triple_post[OF prune_triple[OF ep]]) (use ends in blast)+
  qed
qed

end

end
