(* ===== verification/Go_Net.thy ===== *)
theory Go_Net
  imports Herald_Prelude
begin

unbundle bit_operations_syntax

text \<open>
  What the operator uses of Go's \<open>net\<close>, \<open>net/netip\<close> and \<open>math/big\<close>: parsing and printing of
  addresses and CIDR blocks, masks, and the unsigned reading of big-endian bytes. An \<open>IP\<close> is
  its byte slice; the nil slice is the empty one. Parse errors carry no detail beyond failing.
\<close>

section \<open>Bytes and numbers\<close>

type_synonym bytes = "8 word list"

text \<open>\<open>new(big.Int).SetBytes\<close> and \<open>FillBytes\<close> into a buffer of \<open>k\<close> bytes.\<close>

definition SetBytes :: "bytes \<Rightarrow> nat" where
  "SetBytes bs = foldl (\<lambda>n b. n * 256 + unat b) 0 bs"

fun FillBytes :: "nat \<Rightarrow> nat \<Rightarrow> bytes" where
  "FillBytes 0 n = []"
| "FillBytes (Suc k) n = of_nat (n div 256 ^ k) # FillBytes k (n mod 256 ^ k)"

text \<open>\<open>BitLen\<close>: the length of the binary representation; 0 for 0.\<close>

fun BitLen :: "nat \<Rightarrow> nat" where
  "BitLen n = (if n = 0 then 0 else Suc (BitLen (n div 2)))"

declare BitLen.simps [simp del]

section \<open>Masks\<close>

text \<open>\<open>net.CIDRMask\<close>: \<open>ones\<close> one bits, then zero bits, in \<open>k\<close> bytes.\<close>

fun CIDRMask :: "nat \<Rightarrow> nat \<Rightarrow> bytes" where
  "CIDRMask ones 0 = []"
| "CIDRMask ones (Suc k) =
     (if 8 \<le> ones then 0xFF # CIDRMask (ones - 8) k
      else NOT (drop_bit ones 0xFF) # CIDRMask 0 k)"

text \<open>\<open>simpleMaskLength\<close>: the number of leading ones, or \<open>None\<close> (Go: -1) if a one follows a zero.\<close>

fun leading_ones :: "nat \<Rightarrow> 8 word \<Rightarrow> nat \<times> 8 word" where
  "leading_ones 0 v = (0, v)"
| "leading_ones (Suc fuel) v =
     (if bit v 7 then (case leading_ones fuel (push_bit 1 v) of (n, v') \<Rightarrow> (Suc n, v')) else (0, v))"

fun simpleMaskLength :: "bytes \<Rightarrow> nat option" where
  "simpleMaskLength [] = Some 0"
| "simpleMaskLength (v # vs) =
     (if v = 0xFF then map_option ((+) 8) (simpleMaskLength vs)
      else case leading_ones 8 v of
        (n, v') \<Rightarrow> if v' \<noteq> 0 \<or> (\<exists>b \<in> set vs. b \<noteq> 0) then None else Some n)"

text \<open>\<open>IPMask.Size\<close>: \<open>(ones, bits)\<close>, or \<open>(0, 0)\<close> for a mask that is not of the simple form.\<close>

definition mask_Size :: "bytes \<Rightarrow> nat \<times> nat" where
  "mask_Size m = (case simpleMaskLength m of None \<Rightarrow> (0, 0) | Some ones \<Rightarrow> (ones, length m * 8))"

section \<open>Addresses\<close>

definition v4InV6Prefix :: bytes where
  "v4InV6Prefix = [0, 0, 0, 0, 0, 0, 0, 0, 0, 0, 0xFF, 0xFF]"

definition To4 :: "bytes \<Rightarrow> bytes" where
  "To4 ip = (if length ip = 4 then ip
     else if length ip = 16 \<and> take 12 ip = v4InV6Prefix then drop 12 ip else [])"

text \<open>\<open>IP.Mask\<close>; nil when the lengths do not fit.\<close>

definition ip_Mask :: "bytes \<Rightarrow> bytes \<Rightarrow> bytes" where
  "ip_Mask ip m =
     (let m' = (if length m = 16 \<and> length ip = 4 \<and> (\<forall>b \<in> set (take 12 m). b = 0xFF)
                then drop 12 m else m);
          ip' = (if length m' = 4 \<and> length ip = 16 \<and> take 12 ip = v4InV6Prefix then drop 12 ip else ip)
      in if length ip' \<noteq> length m' then [] else map2 (AND) ip' m')"

text \<open>\<open>netip.Addr\<close>: 4 or 16 bytes, and the zone of an IPv6 address.\<close>

record addr =
  ad_bytes :: bytes
  ad_zone :: string

definition addr_BitLen :: "addr \<Rightarrow> nat" where
  "addr_BitLen a = length (ad_bytes a) * 8"

definition addr_As16 :: "addr \<Rightarrow> bytes" where
  "addr_As16 a = (if length (ad_bytes a) = 4 then v4InV6Prefix @ ad_bytes a else ad_bytes a)"

section \<open>Parsing addresses\<close>

definition digit_val :: "char \<Rightarrow> nat option" where
  "digit_val c = (let n = of_char c :: nat in if 48 \<le> n \<and> n \<le> 57 then Some (n - 48) else None)"

definition hex_val :: "char \<Rightarrow> nat option" where
  "hex_val c = (let n = of_char c :: nat in
     if 48 \<le> n \<and> n \<le> 57 then Some (n - 48)
     else if 97 \<le> n \<and> n \<le> 102 then Some (n - 87)
     else if 65 \<le> n \<and> n \<le> 70 then Some (n - 55) else None)"

text \<open>
  \<open>parseIPv4Fields\<close>: the accumulated fields, the value and the number of digits of the current
  one. A dot is refused at the start, at the end, after a dot (no digits so far) and after the
  fourth field; a digit is refused after a lone zero and when the value passes 255.
\<close>

fun parseIPv4Fields :: "string \<Rightarrow> bytes \<Rightarrow> nat \<Rightarrow> nat \<Rightarrow> bytes option" where
  "parseIPv4Fields [] flds val digLen =
     (if length flds < 3 then None else Some (flds @ [of_nat val]))"
| "parseIPv4Fields (c # s) flds val digLen =
     (case digit_val c of
        Some d \<Rightarrow>
          if digLen = 1 \<and> val = 0 then None
          else if val * 10 + d > 255 then None
          else parseIPv4Fields s flds (val * 10 + d) (Suc digLen)
      | None \<Rightarrow>
          if c = CHR ''.'' then
            if digLen = 0 \<or> s = [] then None
            else if length flds = 3 then None
            else parseIPv4Fields s (flds @ [of_nat val]) 0 0
          else None)"

text \<open>
  One group of \<open>parseIPv6\<close>: the digits read, their value, and the rest of the text. More than
  four digits are refused.
\<close>

fun hex_group :: "string \<Rightarrow> nat \<Rightarrow> nat \<Rightarrow> (nat \<times> nat \<times> string) option" where
  "hex_group [] off acc = Some (off, acc, [])"
| "hex_group (c # s) off acc =
     (case hex_val c of
        None \<Rightarrow> Some (off, acc, c # s)
      | Some d \<Rightarrow> if off > 3 then None else hex_group s (Suc off) (acc * 16 + d))"

text \<open>
  The loop of \<open>parseIPv6\<close> with \<open>k\<close> groups still to fill: the bytes so far, the position of the
  ellipsis, and the text; it ends with the bytes, the ellipsis and the unread text.
\<close>

fun parseIPv6_loop :: "nat \<Rightarrow> string \<Rightarrow> bytes \<Rightarrow> nat option \<Rightarrow> (bytes \<times> nat option \<times> string) option" where
  "parseIPv6_loop 0 s ip ellipsis = Some (ip, ellipsis, s)"
| "parseIPv6_loop (Suc k) s ip ellipsis =
     (case hex_group s 0 0 of
        None \<Rightarrow> None
      | Some (off, acc, rest) \<Rightarrow>
          if off = 0 then None
          else if rest \<noteq> [] \<and> hd rest = CHR ''.'' then
            if ellipsis = None \<and> length ip \<noteq> 12 then None
            else if length ip + 4 > 16 then None
            else (case parseIPv4Fields s [] 0 0 of
                    None \<Rightarrow> None
                  | Some flds \<Rightarrow> Some (ip @ flds, ellipsis, []))
          else
            let ip = ip @ [of_nat (acc div 256), of_nat (acc mod 256)] in
            (case rest of
               [] \<Rightarrow> Some (ip, ellipsis, [])
             | c # s \<Rightarrow>
                 if c \<noteq> CHR '':'' then None
                 else if s = [] then None
                 else if hd s = CHR '':'' then
                   if ellipsis \<noteq> None then None
                   else if tl s = [] then Some (ip, Some (length ip), [])
                   else parseIPv6_loop k (tl s) ip (Some (length ip))
                 else parseIPv6_loop k s ip ellipsis))"

definition parseIPv6 :: "string \<Rightarrow> addr option" where
  "parseIPv6 inp =
     (let s = takeWhile (\<lambda>c. c \<noteq> CHR ''%'') inp;
          zoned = CHR ''%'' \<in> set inp;
          zone = tl (dropWhile (\<lambda>c. c \<noteq> CHR ''%'') inp) in
      if zoned \<and> zone = [] then None else
      let (ellipsis, s) = (if take 2 s = ''::'' then (Some 0, drop 2 s) else (None, s)) in
      if ellipsis \<noteq> None \<and> s = [] then Some \<lparr>ad_bytes = replicate 16 0, ad_zone = zone\<rparr> else
      case parseIPv6_loop 8 s [] ellipsis of
        None \<Rightarrow> None
      | Some (ip, ellipsis, rest) \<Rightarrow>
          if rest \<noteq> [] then None
          else if length ip < 16 then
            (case ellipsis of
               None \<Rightarrow> None
             | Some e \<Rightarrow> Some \<lparr>ad_bytes = take e ip @ replicate (16 - length ip) 0 @ drop e ip, ad_zone = zone\<rparr>)
          else if ellipsis \<noteq> None then None
          else Some \<lparr>ad_bytes = ip, ad_zone = zone\<rparr>)"

text \<open>\<open>netip.ParseAddr\<close>: the first of the three characters decides.\<close>

fun ParseAddr_at :: "string \<Rightarrow> string \<Rightarrow> addr option" where
  "ParseAddr_at whole [] = None"
| "ParseAddr_at whole (c # s) =
     (if c = CHR ''.'' then
        map_option (\<lambda>b. \<lparr>ad_bytes = b, ad_zone = ''''\<rparr>) (parseIPv4Fields whole [] 0 0)
      else if c = CHR '':'' then parseIPv6 whole
      else if c = CHR ''%'' then None
      else ParseAddr_at whole s)"

definition ParseAddr :: "string \<Rightarrow> addr option" where
  "ParseAddr s = ParseAddr_at s s"

text \<open>\<open>net.ParseIP\<close>: the 16-byte form, nil for anything with a zone or malformed.\<close>

definition ParseIP :: "string \<Rightarrow> bytes" where
  "ParseIP s = (case ParseAddr s of
     None \<Rightarrow> [] | Some a \<Rightarrow> if ad_zone a \<noteq> '''' then [] else addr_As16 a)"

section \<open>CIDR blocks\<close>

record ipnet =
  in_IP :: bytes
  in_Mask :: bytes

text \<open>\<open>dtoi\<close>: the value and the number of digits, refusing values from \<open>0xFFFFFF\<close> on.\<close>

fun dtoi_from :: "string \<Rightarrow> nat \<Rightarrow> nat \<Rightarrow> (nat \<times> nat) option" where
  "dtoi_from [] n i = Some (n, i)"
| "dtoi_from (c # s) n i =
     (case digit_val c of
        None \<Rightarrow> Some (n, i)
      | Some d \<Rightarrow> if n * 10 + d \<ge> 0xFFFFFF then None else dtoi_from s (n * 10 + d) (Suc i))"

definition dtoi :: "string \<Rightarrow> (nat \<times> nat) option" where
  "dtoi s = (case dtoi_from s 0 0 of None \<Rightarrow> None | Some (n, i) \<Rightarrow> if i = 0 then None else Some (n, i))"

definition ParseCIDR :: "string \<Rightarrow> error + bytes \<times> ipnet" where
  "ParseCIDR s =
     (let err = Inl (Errorf ''invalid CIDR address: %s'' [AStr s]);
          a = takeWhile (\<lambda>c. c \<noteq> CHR ''/'') s;
          len = tl (dropWhile (\<lambda>c. c \<noteq> CHR ''/'') s) in
      if CHR ''/'' \<notin> set s then err else
      case ParseAddr a of
        None \<Rightarrow> err
      | Some ipAddr \<Rightarrow>
          if ad_zone ipAddr \<noteq> '''' then err else
          case dtoi len of
            None \<Rightarrow> err
          | Some (n, i) \<Rightarrow>
              if i \<noteq> length len \<or> n > addr_BitLen ipAddr then err
              else let m = CIDRMask n (addr_BitLen ipAddr div 8); addr16 = addr_As16 ipAddr in
                Inr (addr16, \<lparr>in_IP = ip_Mask addr16 m, in_Mask = m\<rparr>))"

section \<open>Printing\<close>

fun print_base :: "nat \<Rightarrow> nat \<Rightarrow> string" where
  "print_base b n = (if b < 2 \<or> n < b then [] else print_base b (n div b)) @
     [char_of (if n mod b < 10 then n mod b + 48 else n mod b + 87)]"

declare print_base.simps [simp del]

definition decimal :: "nat \<Rightarrow> string" where "decimal n = print_base 10 n"
definition hexadecimal :: "nat \<Rightarrow> string" where "hexadecimal n = print_base 16 n"

definition hexString :: "bytes \<Rightarrow> string" where
  "hexString bs = concat (map (\<lambda>b. hexadecimal (unat b div 16) @ hexadecimal (unat b mod 16)) bs)"

fun join :: "char \<Rightarrow> string list \<Rightarrow> string" where
  "join c [] = []"
| "join c [s] = s"
| "join c (s # t # ss) = s @ c # join c (t # ss)"

definition string4 :: "bytes \<Rightarrow> string" where
  "string4 ip = join (CHR ''.'') (map (\<lambda>b. decimal (unat b)) ip)"

fun groups :: "bytes \<Rightarrow> nat list" where
  "groups (a # b # bs) = (unat a * 256 + unat b) # groups bs"
| "groups _ = []"

text \<open>The longest run of at least two zero groups, the first of its length: \<open>(start, length)\<close>.\<close>

definition zero_run :: "nat list \<Rightarrow> nat \<times> nat" where
  "zero_run gs = foldl (\<lambda>(st, l) i.
     let l' = length (takeWhile (\<lambda>g. g = 0) (drop i gs)) in
     if 2 \<le> l' \<and> l < l' then (i, l') else (st, l)) (255, 0) [0..<length gs]"

definition string6 :: "bytes \<Rightarrow> string" where
  "string6 ip = (let gs = groups ip; (st, l) = zero_run gs; hex = (\<lambda>xs. join (CHR '':'') (map hexadecimal xs)) in
     if l = 0 then hex gs else hex (take st gs) @ ''::'' @ hex (drop (st + l) gs))"

definition ip_String :: "bytes \<Rightarrow> string" where
  "ip_String ip =
     (if ip = [] then ''<nil>''
      else if length ip \<noteq> 4 \<and> length ip \<noteq> 16 then ''?'' @ hexString ip
      else if To4 ip \<noteq> [] then string4 (To4 ip)
      else string6 ip)"

definition networkNumberAndMask :: "ipnet \<Rightarrow> bytes \<times> bytes" where
  "networkNumberAndMask n =
     (let ip = (if To4 (in_IP n) \<noteq> [] then To4 (in_IP n) else in_IP n); m = in_Mask n in
      if To4 (in_IP n) = [] \<and> length (in_IP n) \<noteq> 16 then ([], [])
      else if length m = 4 then (if length ip \<noteq> 4 then ([], []) else (ip, m))
      else if length m = 16 then (ip, if length ip = 4 then drop 12 m else m)
      else ([], []))"

definition ipnet_String :: "ipnet \<Rightarrow> string" where
  "ipnet_String n = (case networkNumberAndMask n of (nn, m) \<Rightarrow>
     if nn = [] \<or> m = [] then ''<nil>''
     else case simpleMaskLength m of
       None \<Rightarrow> ip_String nn @ ''/'' @ hexString m
     | Some l \<Rightarrow> ip_String nn @ ''/'' @ decimal l)"

end
