(* ===== verification/Go_Net_Facts.thy ===== *)
theory Go_Net_Facts
  imports Go_Net
begin

text \<open>
  Facts about the \<open>net\<close> model: lengths of parsed addresses, the numbers behind bytes and masks,
  and the bit length of a difference.
\<close>

section \<open>Bytes\<close>

lemma SetBytes_Nil [simp]: "SetBytes [] = 0"
  by (simp add: SetBytes_def)

lemma SetBytes_Cons [simp]: "SetBytes (b # bs) = unat b * 256 ^ length bs + SetBytes bs"
proof -
  let ?f = "\<lambda>n (b :: 8 word). n * 256 + unat b"
  have *: "foldl ?f a cs = a * 256 ^ length cs + foldl ?f 0 cs" for a cs
  proof (induction cs arbitrary: a)
    case (Cons c cs)
    show ?case
      unfolding foldl_Cons Cons[of "a * 256 + unat c"] Cons[of "0 * 256 + unat c"]
      by (simp add: algebra_simps del: foldl_Cons)
  qed simp
  from *[of "unat b" bs] show ?thesis by (simp add: SetBytes_def)
qed

lemma unat_byte_less: "unat (b :: 8 word) < 256"
proof -
  have "unat b < 2 ^ LENGTH(8)" by (rule unsigned_less)
  then show ?thesis by simp
qed

lemma SetBytes_less: "SetBytes bs < 256 ^ length bs"
proof (induction bs)
  case (Cons b bs)
  have "unat b * 256 ^ length bs + SetBytes bs < (unat b + 1) * 256 ^ length bs" using Cons by simp
  also have "\<dots> \<le> 256 * 256 ^ length bs" using unat_byte_less[of b] by (intro mult_right_mono) simp_all
  finally show ?case by simp
qed simp

lemma length_FillBytes [simp]: "length (FillBytes k n) = k"
  by (induction k arbitrary: n) simp_all

lemma SetBytes_FillBytes: "n < 256 ^ k \<Longrightarrow> SetBytes (FillBytes k n) = n"
proof (induction k arbitrary: n)
  case (Suc k)
  have "n div 256 ^ k < 256" using Suc.prems by (simp add: less_mult_imp_div_less)
  then have "unat (of_nat (n div 256 ^ k) :: 8 word) = n div 256 ^ k"
    by (simp add: unat_of_nat)
  moreover have "SetBytes (FillBytes k (n mod 256 ^ k)) = n mod 256 ^ k"
    by (rule Suc.IH) simp
  ultimately show ?case by (simp only: FillBytes.simps SetBytes_Cons length_FillBytes div_mult_mod_eq)
qed simp

section \<open>Masks\<close>

lemma length_CIDRMask [simp]: "length (CIDRMask n k) = k"
  by (induction n k rule: CIDRMask.induct) simp_all

lemma ff_mask: "(0xFF :: 8 word) = mask 8"
  by (simp add: mask_eq_exp_minus_1)

lemma and_ff: "(b :: 8 word) AND 0xFF = b"
  unfolding ff_mask by (rule bit_eqI) (auto simp: bit_simps)

lemma and_mask_byte:
  assumes "n < 8"
  shows "unat ((b :: 8 word) AND NOT (drop_bit n 0xFF)) = unat b div 2 ^ (8 - n) * 2 ^ (8 - n)"
proof -
  have low: "drop_bit n (0xFF :: 8 word) = mask (8 - n)"
    unfolding ff_mask by (rule bit_eqI) (auto simp: bit_simps)
  have "b AND NOT (drop_bit n 0xFF) = push_bit (8 - n) (drop_bit (8 - n) b)"
    unfolding low by (rule bit_eqI) (auto simp: bit_simps)
  then have "unat (b AND NOT (drop_bit n 0xFF)) = take_bit 8 (push_bit (8 - n) (drop_bit (8 - n) (unat b)))"
    by (simp add: unsigned_push_bit_eq unat_drop_bit_eq)
  also have "\<dots> = push_bit (8 - n) (drop_bit (8 - n) (unat b))"
  proof -
    have "push_bit (8 - n) (drop_bit (8 - n) (unat b)) \<le> unat b"
      by (simp add: push_bit_eq_mult drop_bit_eq_div)
    then show ?thesis using unat_byte_less[of b] by (simp add: take_bit_nat_eq_self)
  qed
  finally show ?thesis by (simp add: push_bit_eq_mult drop_bit_eq_div)
qed

lemma and_zero_byte: "(b :: 8 word) AND NOT (drop_bit 0 0xFF) = 0"
proof -
  have "unat (b AND NOT (drop_bit 0 0xFF)) = unat b div 2 ^ (8 - 0) * 2 ^ (8 - 0)"
    by (rule and_mask_byte) simp
  also have "\<dots> = 0" using unat_byte_less[of b] by simp
  finally show ?thesis by (simp only: unsigned_eq_0_iff)
qed

lemma div_mult_shift: "0 < (m :: nat) \<Longrightarrow> (x * m + c) div m * m = x * m + c div m * m"
  by (simp add: algebra_simps)

lemma SetBytes_zero_mask: "SetBytes (map2 (AND) bs (CIDRMask 0 (length bs))) = 0"
  by (induction bs) (simp_all add: and_zero_byte[simplified])

lemma SetBytes_mask:
  assumes "ones \<le> 8 * length bs"
  shows "SetBytes (map2 (AND) bs (CIDRMask ones (length bs))) =
    SetBytes bs div 2 ^ (8 * length bs - ones) * 2 ^ (8 * length bs - ones)"
  using assms
proof (induction bs arbitrary: ones)
  case (Cons b bs)
  let ?k = "length bs"
  have pow: "(256 :: nat) ^ ?k = 2 ^ (8 * ?k)" by (simp add: power_mult)
  show ?case
  proof (cases "8 \<le> ones")
    case True
    let ?s = "8 * ?k - (ones - 8)"
    have le: "?s \<le> 8 * ?k" by simp
    have "unat b * 2 ^ (8 * ?k) = unat b * 2 ^ (8 * ?k - ?s) * 2 ^ ?s"
      using le by (simp only: mult.assoc power_add[symmetric] le_add_diff_inverse2)
    then have "(unat b * 2 ^ (8 * ?k) + SetBytes bs) div 2 ^ ?s * 2 ^ ?s =
        unat b * 2 ^ (8 * ?k) + SetBytes bs div 2 ^ ?s * 2 ^ ?s"
      by (simp only: div_mult_shift zero_less_power zero_less_numeral)
    moreover have "8 * length (b # bs) - ones = ?s" using True by simp
    ultimately show ?thesis
      using True Cons.IH[of "ones - 8"] Cons.prems by (simp add: and_ff pow)
  next
    case False
    let ?s = "8 - ones"
    have split: "8 * length (b # bs) - ones = 8 * ?k + ?s" using False by simp
    have "SetBytes bs < 2 ^ (8 * ?k)" using SetBytes_less[of bs] by (simp add: pow)
    then have "(unat b * 2 ^ (8 * ?k) + SetBytes bs) div 2 ^ (8 * ?k) = unat b" by simp
    then have "(unat b * 2 ^ (8 * ?k) + SetBytes bs) div 2 ^ (8 * ?k + ?s) = unat b div 2 ^ ?s"
      by (simp add: power_add div_mult2_eq)
    moreover have "(2 :: nat) ^ (8 - ones) * 2 ^ (8 * ?k) = 2 ^ (8 * ?k + 8 - ones)"
      using False by (simp add: power_add[symmetric])
    ultimately show ?thesis
      unfolding split using False and_mask_byte[of ones b]
      by (simp add: pow SetBytes_zero_mask power_add mult.assoc mult.left_commute)
  qed
qed simp

lemma leading_ones_mask:
  assumes "n < 8"
  shows "leading_ones 8 (NOT (drop_bit n 0xFF)) = (n, 0)" and "NOT (drop_bit n 0xFF) \<noteq> (0xFF :: 8 word)"
proof -
  have n: "n = 0 \<or> n = 1 \<or> n = 2 \<or> n = 3 \<or> n = 4 \<or> n = 5 \<or> n = 6 \<or> n = 7" using assms by linarith
  show "leading_ones 8 (NOT (drop_bit n 0xFF)) = (n, 0)"
    using n by (elim disjE) (hypsubst, code_simp)+
  show "NOT (drop_bit n 0xFF) \<noteq> (0xFF :: 8 word)"
    using n by (elim disjE) (hypsubst, code_simp)+
qed

lemma zero_mask_byte: "NOT (drop_bit 0 0xFF) = (0 :: 8 word)"
  by code_simp

lemma CIDRMask_zero: "\<forall>b \<in> set (CIDRMask 0 k). b = 0"
proof (induction k)
  case (Suc k)
  have "CIDRMask 0 (Suc k) = 0 # CIDRMask 0 k" unfolding CIDRMask.simps zero_mask_byte by simp
  then show ?case using Suc by simp
qed simp

lemma simpleMaskLength_CIDRMask:
  assumes "ones \<le> 8 * k"
  shows "simpleMaskLength (CIDRMask ones k) = Some ones"
  using assms
proof (induction ones k rule: CIDRMask.induct)
  case (2 ones k)
  show ?case
  proof (cases "8 \<le> ones")
    case True
    then show ?thesis using 2 by simp
  next
    case False
    then have n: "ones < 8" and m: "CIDRMask ones (Suc k) = NOT (drop_bit ones 0xFF) # CIDRMask 0 k"
      unfolding CIDRMask.simps by simp_all
    have "\<not> (\<exists>b \<in> set (CIDRMask 0 k). b \<noteq> 0)" using CIDRMask_zero by blast
    then show ?thesis
      unfolding m simpleMaskLength.simps leading_ones_mask(1)[OF n] prod.case if_not_P[OF leading_ones_mask(2)[OF n]]
      by (simp only: simp_thms if_False)
  qed
qed simp

lemma mask_Size_CIDRMask: "ones \<le> 8 * k \<Longrightarrow> mask_Size (CIDRMask ones k) = (ones, k * 8)"
  by (simp add: mask_Size_def simpleMaskLength_CIDRMask)

section \<open>Bit lengths\<close>

lemma BitLen_le: "BitLen n \<le> k \<longleftrightarrow> n < 2 ^ k"
proof (induction n arbitrary: k rule: BitLen.induct)
  case (1 n)
  show ?case
  proof (cases "n = 0")
    case True
    then show ?thesis by (simp add: BitLen.simps[of 0])
  next
    case False
    then show ?thesis
    proof (cases k)
      case (Suc k')
      have "BitLen (n div 2) \<le> k' \<longleftrightarrow> n div 2 < 2 ^ k'" by (rule 1[OF False])
      then show ?thesis using False Suc by (simp add: BitLen.simps[of n]) linarith
    qed (simp add: BitLen.simps[of n])
  qed
qed

text \<open>The bit length of a XOR: the fewest low bits to drop for the numbers to agree.\<close>

lemma BitLen_xor: "BitLen (x XOR y) \<le> k \<longleftrightarrow> x div 2 ^ k = y div 2 ^ k"
proof -
  have "x XOR y < 2 ^ k \<longleftrightarrow> drop_bit k (x XOR y) = 0"
    by (simp add: drop_bit_eq_div div_eq_0_iff)
  also have "\<dots> \<longleftrightarrow> drop_bit k x XOR drop_bit k y = 0" by simp
  also have "\<dots> \<longleftrightarrow> drop_bit k x = drop_bit k y"
    by (auto simp: bit_eq_iff bit_simps)
  finally show ?thesis by (simp add: BitLen_le drop_bit_eq_div)
qed

section \<open>Lengths of what is parsed\<close>

lemma parseIPv4Fields_length: "parseIPv4Fields s flds val n = Some bs \<Longrightarrow> length flds \<le> 3 \<Longrightarrow> length bs = 4"
  by (induction s flds val n rule: parseIPv4Fields.induct) (auto split: if_splits option.splits)

lemma parseIPv6_loop_length:
  assumes "parseIPv6_loop k s ip e = Some (bs, e', left)" and "length ip + 2 * k = 16"
    and "e \<noteq> None \<Longrightarrow> the e \<le> length ip"
  shows "length bs \<le> 16 \<and> (e' \<noteq> None \<longrightarrow> the e' \<le> length bs)"
  using assms
proof (induction k s ip e rule: parseIPv6_loop.induct)
  case (2 k s ip e)
  note res = 2(3) and len = 2(4) and ell = 2(5)
  obtain off acc rest where hg: "hex_group s 0 0 = Some (off, acc, rest)" and off: "off \<noteq> 0"
    using res by (auto split: option.splits if_splits)
  let ?ip = "ip @ [of_nat (acc div 256), of_nat (acc mod 256)]"
  show ?case
  proof (cases "rest \<noteq> [] \<and> hd rest = CHR ''.''")
    case True
    then obtain flds where "parseIPv4Fields s [] 0 0 = Some flds" "bs = ip @ flds" "e' = e" "length ip + 4 \<le> 16"
      using res by (simp only: parseIPv6_loop.simps hg option.case prod.case off if_True if_False)
        (auto split: if_splits option.splits)
    then show ?thesis using ell parseIPv4Fields_length[of s "[]" 0 0 flds] by auto
  next
    case False
    note ih = 2(1)[OF hg refl refl off False refl] 2(2)[OF hg refl refl off False refl]
    have step: "parseIPv6_loop (Suc k) s ip e = (case rest of
         [] \<Rightarrow> Some (?ip, e, [])
       | c # s \<Rightarrow>
           if c \<noteq> CHR '':'' then None
           else if s = [] then None
           else if hd s = CHR '':'' then
             if e \<noteq> None then None
             else if tl s = [] then Some (?ip, Some (length ?ip), [])
             else parseIPv6_loop k (tl s) ?ip (Some (length ?ip))
           else parseIPv6_loop k s ?ip e)"
      by (simp only: parseIPv6_loop.simps hg option.case prod.case off False if_False Let_def)
    show ?thesis
    proof (cases rest)
      case Nil
      then show ?thesis using res[unfolded step] len ell by auto
    next
      case (Cons c t)
      have more: "length ?ip + 2 * k = 16" using len by simp
      have e: "e \<noteq> None \<Longrightarrow> the e \<le> length ?ip" using ell by simp
      show ?thesis
      proof (cases "hd t = CHR '':''")
        case colon: True
        have ell': "Some (length ?ip) \<noteq> None \<Longrightarrow> the (Some (length ?ip)) \<le> length ?ip" by simp
        show ?thesis
        proof (cases "tl t = []")
          case True
          then have "bs = ?ip" "e' = Some (length ?ip)"
            using res[unfolded step Cons list.case] colon by (simp_all split: if_splits)
          then show ?thesis using len by simp
        next
          case tl: False
          have cond: "\<not> c \<noteq> CHR '':''" "t \<noteq> []" "\<not> e \<noteq> None"
            and run: "parseIPv6_loop k (tl t) ?ip (Some (length ?ip)) = Some (bs, e', left)"
            using res[unfolded step Cons list.case] colon tl by (auto split: if_splits)
          show ?thesis
            by (rule 2(1)[OF hg refl refl off False refl Cons cond(1,2) colon cond(3) tl run more ell'])
        qed
      next
        case colon: False
        have cond: "\<not> c \<noteq> CHR '':''" "t \<noteq> []" and run: "parseIPv6_loop k t ?ip e = Some (bs, e', left)"
          using res[unfolded step Cons list.case] colon by (auto split: if_splits)
        show ?thesis
          by (rule 2(2)[OF hg refl refl off False refl Cons cond colon run more e])
      qed
    qed
  qed
qed simp

lemma parseIPv6_length:
  assumes "parseIPv6 s = Some a"
  shows "length (ad_bytes a) = 16"
proof -
  have loop: "length ip \<le> 16 \<and> (e' \<noteq> None \<longrightarrow> the e' \<le> length ip)"
    if "parseIPv6_loop 8 t [] e = Some (ip, e', left)" and "e = None \<or> e = Some 0" for t e ip e' left
    by (rule parseIPv6_loop_length[OF that(1)]) (use that(2) in auto)
  show ?thesis
    using assms unfolding parseIPv6_def Let_def
    by (auto split: if_splits option.splits prod.splits dest!: loop)
qed

lemma ParseAddr_length:
  assumes "ParseAddr s = Some a"
  shows "length (ad_bytes a) = 4 \<or> length (ad_bytes a) = 16"
proof -
  have "ParseAddr_at w t = Some a \<Longrightarrow> length (ad_bytes a) = 4 \<or> length (ad_bytes a) = 16" for w t
    by (induction w t rule: ParseAddr_at.induct)
      (auto split: if_splits dest: parseIPv4Fields_length parseIPv6_length)
  then show ?thesis using assms by (simp add: ParseAddr_def)
qed

text \<open>A parsed block: its network and mask, of 4 or 16 bytes, with the host bits cleared.\<close>

lemma ParseCIDR_block:
  assumes "ParseCIDR s = Inr (ip, n)"
  obtains ones k bs where "k = 4 \<or> k = 16" and "length bs = k" and "ones \<le> 8 * k"
    and "in_Mask n = CIDRMask ones k" and "in_IP n = map2 (AND) bs (CIDRMask ones k)"
proof -
  obtain a ones where a: "ParseAddr (takeWhile (\<lambda>c. c \<noteq> CHR ''/'') s) = Some a"
    and le: "ones \<le> addr_BitLen a"
    and n: "n = \<lparr>in_IP = ip_Mask (addr_As16 a) (CIDRMask ones (addr_BitLen a div 8)),
                in_Mask = CIDRMask ones (addr_BitLen a div 8)\<rparr>"
  proof (cases "ParseAddr (takeWhile (\<lambda>c. c \<noteq> CHR ''/'') s)")
    case (Some a)
    obtain ones i where "dtoi (tl (dropWhile (\<lambda>c. c \<noteq> CHR ''/'') s)) = Some (ones, i)"
      using assms Some by (auto simp: ParseCIDR_def Let_def split: if_splits option.splits)
    then show thesis using assms Some that[of a ones] by (auto simp: ParseCIDR_def Let_def split: if_splits)
  qed (use assms in \<open>simp add: ParseCIDR_def Let_def split: if_splits\<close>)
  let ?k = "length (ad_bytes a)"
  have k: "?k = 4 \<or> ?k = 16" by (rule ParseAddr_length[OF a])
  have div: "addr_BitLen a div 8 = ?k" by (simp add: addr_BitLen_def)
  have "ip_Mask (addr_As16 a) (CIDRMask ones ?k) = map2 (AND) (ad_bytes a) (CIDRMask ones ?k)"
    using k by (auto simp: ip_Mask_def addr_As16_def Let_def v4InV6Prefix_def)
  then show thesis
    using that[of ?k "ad_bytes a" ones] k le n by (simp add: div addr_BitLen_def)
qed

end
