(* ===== verification/Supernets.thy ===== *)
theory Supernets
  imports Go_Net_Facts
begin

text \<open>
  \<open>computeSupernets\<close> and \<open>cidrForIP\<close>: the arithmetic of the reconcilers. The numbers of
  \<open>math/big\<close> are non-negative here and so natural numbers. The two maps keyed by address
  family are HOL maps, so no iteration order shows.
\<close>

section \<open>Definitions\<close>

definition familyIPv4 :: string where "familyIPv4 = ''ipv4''"
definition familyIPv6 :: string where "familyIPv6 = ''ipv6''"

lemma families_distinct [simp]: "familyIPv4 \<noteq> familyIPv6" "familyIPv6 \<noteq> familyIPv4"
  by (simp_all add: familyIPv4_def familyIPv6_def)

definition podCIDRAddressFamilies :: "string list" where
  "podCIDRAddressFamilies = [familyIPv4, familyIPv6]"

record bounds =
  b_bits :: nat
  b_min :: nat
  b_max :: nat

text \<open>The family, first and last address of a parsed block.\<close>

definition family_of :: "ipnet \<Rightarrow> string" where
  "family_of n = (if length (in_IP n) * 8 = 128 then familyIPv6 else familyIPv4)"

definition block_start :: "ipnet \<Rightarrow> nat" where
  "block_start n = SetBytes (in_IP n)"

definition block_end :: "ipnet \<Rightarrow> nat" where
  "block_end n = block_start n + 2 ^ (length (in_IP n) * 8 - fst (mask_Size (in_Mask n))) - 1"

text \<open>One round of the first loop: the bounds of the block's family are widened or created.\<close>

definition widen :: "ipnet \<Rightarrow> (string \<rightharpoonup> bounds) \<Rightarrow> (string \<rightharpoonup> bounds)" where
  "widen ipnet families =
     (let family = family_of ipnet; start = block_start ipnet; end = block_end ipnet in
      case families family of
        Some b \<Rightarrow>
          let b = (if start < b_min b then b\<lparr>b_min := start\<rparr> else b);
              b = (if end > b_max b then b\<lparr>b_max := end\<rparr> else b)
          in families(family \<mapsto> b)
      | None \<Rightarrow> families(family \<mapsto> \<lparr>b_bits = length (in_IP ipnet) * 8, b_min = start, b_max = end\<rparr>))"

fun collect_bounds :: "string list \<Rightarrow> (string \<rightharpoonup> bounds) \<Rightarrow> error + (string \<rightharpoonup> bounds)" where
  "collect_bounds [] families = Inr families"
| "collect_bounds (c # cidrs) families =
     (case ParseCIDR c of
        Inl err \<Rightarrow> Inl (Errorf ''invalid pod CIDR %q: %w'' [AStr c, AErr err])
      | Inr (_, ipnet) \<Rightarrow> collect_bounds cidrs (widen ipnet families))"

text \<open>One round of the second loop: the smallest block enclosing the bounds.\<close>

definition enclosing :: "bounds \<Rightarrow> ipnet" where
  "enclosing b =
     (let diff = b_min b XOR b_max b;
          prefixLen = b_bits b - BitLen diff;
          mask = CIDRMask prefixLen (b_bits b div 8);
          networkBytes = FillBytes (b_bits b div 8) (b_min b)
      in \<lparr>in_IP = ip_Mask networkBytes mask, in_Mask = mask\<rparr>)"

definition computeSupernets :: "string list \<Rightarrow> error + (string \<rightharpoonup> string)" where
  "computeSupernets cidrs =
     (case collect_bounds cidrs Map.empty of
        Inl err \<Rightarrow> Inl err
      | Inr families \<Rightarrow> Inr (\<lambda>family. map_option (\<lambda>b. ipnet_String (enclosing b)) (families family)))"

definition cidrForIP :: "string \<Rightarrow> error + string" where
  "cidrForIP ip =
     (let parsed = ParseIP ip in
      if parsed = [] then Inl (Errorf ''invalid IP address %q'' [AStr ip])
      else if To4 parsed \<noteq> [] then Inr (ip @ ''/32'')
      else Inr (ip @ ''/128''))"

section \<open>Blocks\<close>

text \<open>A block of \<open>2 ^ (bits - ones)\<close> addresses with the given network bytes and mask.\<close>

definition is_block :: "ipnet \<Rightarrow> nat \<Rightarrow> nat \<Rightarrow> bool" where
  "is_block n bits ones \<longleftrightarrow> (bits = 32 \<or> bits = 128) \<and> ones \<le> bits \<and> length (in_IP n) * 8 = bits \<and>
     mask_Size (in_Mask n) = (ones, bits) \<and> 2 ^ (bits - ones) dvd block_start n \<and> block_start n < 2 ^ bits"

lemma masked_block:
  assumes "k = 4 \<or> k = 16" and "length bs = k" and "ones \<le> 8 * k"
    and "in_IP n = map2 (AND) bs (CIDRMask ones k)" and "in_Mask n = CIDRMask ones k"
  shows "is_block n (8 * k) ones"
    and "block_start n = SetBytes bs div 2 ^ (8 * k - ones) * 2 ^ (8 * k - ones)"
proof -
  show start: "block_start n = SetBytes bs div 2 ^ (8 * k - ones) * 2 ^ (8 * k - ones)"
    using SetBytes_mask[of ones bs] assms by (simp add: block_start_def)
  have len: "length (in_IP n) = k" using assms by simp
  have "SetBytes (in_IP n) < 256 ^ k" using SetBytes_less[of "in_IP n"] len by simp
  also have "(256 :: nat) ^ k = 2 ^ (8 * k)" by (simp add: power_mult)
  finally have "block_start n < 2 ^ (8 * k)" by (simp add: block_start_def)
  then show "is_block n (8 * k) ones"
    using assms(1,3,5) len by (auto simp: is_block_def start mask_Size_CIDRMask)
qed

lemma ParseCIDR_is_block:
  assumes "ParseCIDR s = Inr (ip, n)"
  shows "\<exists>bits ones. is_block n bits ones"
  using assms by (rule ParseCIDR_block) (blast intro: masked_block(1))

lemma is_block_end:
  assumes "is_block n bits ones"
  shows "block_end n = block_start n + 2 ^ (bits - ones) - 1" and "block_start n \<le> block_end n"
    and "block_end n < 2 ^ bits"
proof -
  show e: "block_end n = block_start n + 2 ^ (bits - ones) - 1"
    using assms by (simp add: is_block_def block_end_def)
  have pos: "0 < (2 :: nat) ^ (bits - ones)" by simp
  then show "block_start n \<le> block_end n" unfolding e by linarith
  from assms obtain q where q: "block_start n = q * 2 ^ (bits - ones)"
    by (auto simp: is_block_def dvd_def mult.commute)
  have pow: "(2 :: nat) ^ bits = 2 ^ ones * 2 ^ (bits - ones)"
    using assms by (simp add: is_block_def power_add[symmetric])
  have "q * 2 ^ (bits - ones) < 2 ^ ones * 2 ^ (bits - ones)"
    using assms q pow by (simp add: is_block_def)
  then have "Suc q \<le> 2 ^ ones" by simp
  then have "Suc q * 2 ^ (bits - ones) \<le> 2 ^ bits" unfolding pow by (rule mult_right_mono) simp
  then show "block_end n < 2 ^ bits" using pos unfolding e q mult_Suc by linarith
qed

lemma is_block_family: "is_block n bits ones \<Longrightarrow> family_of n = (if bits = 128 then familyIPv6 else familyIPv4)"
  by (simp add: is_block_def family_of_def)

lemma same_family_bits:
  "is_block n bits ones \<Longrightarrow> is_block n' bits' ones' \<Longrightarrow> family_of n = family_of n' \<Longrightarrow> bits = bits'"
proof -
  assume n: "is_block n bits ones" and n': "is_block n' bits' ones'" and "family_of n = family_of n'"
  then have "(bits = 128) = (bits' = 128)" by (simp add: is_block_family[OF n] is_block_family[OF n'] split: if_splits)
  moreover have "bits = 32 \<or> bits = 128" "bits' = 32 \<or> bits' = 128" using n n' by (simp_all add: is_block_def)
  ultimately show ?thesis by auto
qed

section \<open>The enclosing block\<close>

definition bounds_ok :: "bounds \<Rightarrow> bool" where
  "bounds_ok b \<longleftrightarrow> (b_bits b = 32 \<or> b_bits b = 128) \<and> b_min b \<le> b_max b \<and> b_max b < 2 ^ b_bits b"

lemma enclosing_block:
  assumes "bounds_ok b"
  defines "d \<equiv> BitLen (b_min b XOR b_max b)"
  shows "is_block (enclosing b) (b_bits b) (b_bits b - d)"
    and "block_start (enclosing b) = b_min b div 2 ^ d * 2 ^ d" and "d \<le> b_bits b"
proof -
  let ?k = "b_bits b div 8"
  have k: "?k = 4 \<or> ?k = 16" "8 * ?k = b_bits b" using assms(1) by (auto simp: bounds_ok_def)
  have lt: "b_min b < 2 ^ b_bits b" "b_max b < 2 ^ b_bits b" using assms(1) by (auto simp: bounds_ok_def)
  then show le: "d \<le> b_bits b" unfolding d_def by (simp add: BitLen_xor)
  have "(256 :: nat) ^ ?k = 2 ^ (8 * ?k)" by (simp add: power_mult)
  then have fill: "SetBytes (FillBytes ?k (b_min b)) = b_min b"
    using lt(1) k(2) by (intro SetBytes_FillBytes) simp
  have enc: "in_IP (enclosing b) = map2 (AND) (FillBytes ?k (b_min b)) (CIDRMask (b_bits b - d) ?k)"
    "in_Mask (enclosing b) = CIDRMask (b_bits b - d) ?k"
    using k(1) by (auto simp: enclosing_def Let_def ip_Mask_def d_def)
  note blk = masked_block[OF k(1) length_FillBytes _ enc, unfolded k(2) fill]
  have rev: "b_bits b - (b_bits b - d) = d" using le by simp
  show "is_block (enclosing b) (b_bits b) (b_bits b - d)" by (rule blk(1)) simp
  show "block_start (enclosing b) = b_min b div 2 ^ d * 2 ^ d" using blk(2)[unfolded rev] by simp
qed

text \<open>It contains the bounds, and every aligned block that contains them is at least as large.\<close>

lemma enclosing_contains:
  assumes "bounds_ok b"
  shows "block_start (enclosing b) \<le> b_min b" and "b_max b \<le> block_end (enclosing b)"
proof -
  let ?d = "BitLen (b_min b XOR b_max b)"
  note blk = enclosing_block[OF assms]
  show "block_start (enclosing b) \<le> b_min b" by (simp add: blk(2))
  have "b_min b div 2 ^ ?d = b_max b div 2 ^ ?d" by (simp add: BitLen_xor[symmetric])
  then have "b_max b = b_min b div 2 ^ ?d * 2 ^ ?d + b_max b mod 2 ^ ?d" by (simp add: div_mult_mod_eq)
  moreover have "b_max b mod 2 ^ ?d < 2 ^ ?d" by simp
  moreover have "block_end (enclosing b) = b_min b div 2 ^ ?d * 2 ^ ?d + 2 ^ ?d - 1"
    using is_block_end(1)[OF blk(1)] blk(2,3) by simp
  ultimately show "b_max b \<le> block_end (enclosing b)" by linarith
qed

lemma enclosing_smallest:
  assumes "bounds_ok b" and "is_block n (b_bits b) ones"
    and "block_start n \<le> b_min b" and "b_max b \<le> block_end n"
  shows "ones \<le> b_bits b - BitLen (b_min b XOR b_max b)"
proof -
  let ?s = "b_bits b - ones"
  obtain q where q: "block_start n = q * 2 ^ ?s"
    using assms(2) by (auto simp: is_block_def dvd_def mult.commute)
  have q_div: "x div 2 ^ ?s = q" if "block_start n \<le> x" "x \<le> block_end n" for x
  proof -
    have "block_end n < Suc q * 2 ^ ?s"
    proof -
      have "0 < (2 :: nat) ^ ?s" by simp
      then show ?thesis using is_block_end(1)[OF assms(2)] unfolding q mult_Suc by linarith
    qed
    then have "x < Suc q * 2 ^ ?s" "q * 2 ^ ?s \<le> x" using that q by linarith+
    then show ?thesis by (metis div_nat_eqI mult.commute)
  qed
  have "b_min b \<le> b_max b" using assms(1) by (simp add: bounds_ok_def)
  then have "b_min b div 2 ^ ?s = q" "b_max b div 2 ^ ?s = q" using q_div assms(3,4) by auto
  then have "BitLen (b_min b XOR b_max b) \<le> ?s" by (simp add: BitLen_xor)
  moreover have "ones \<le> b_bits b" using assms(2) by (simp add: is_block_def)
  ultimately show ?thesis by linarith
qed

section \<open>The bounds of a list of blocks\<close>

text \<open>What the first loop knows of the set \<open>N\<close> of blocks it has seen.\<close>

definition summarises :: "(string \<rightharpoonup> bounds) \<Rightarrow> ipnet set \<Rightarrow> bool" where
  "summarises families N \<longleftrightarrow> (\<forall>F. case families F of
     None \<Rightarrow> \<forall>n \<in> N. family_of n \<noteq> F
   | Some b \<Rightarrow> bounds_ok b \<and> (\<exists>n \<in> N. family_of n = F) \<and>
       (\<exists>n \<in> N. family_of n = F \<and> b_min b = block_start n) \<and>
       (\<exists>n \<in> N. family_of n = F \<and> b_max b = block_end n) \<and>
       (\<forall>n \<in> N. family_of n = F \<longrightarrow>
          b_min b \<le> block_start n \<and> block_end n \<le> b_max b \<and> b_bits b = length (in_IP n) * 8))"

lemma summarisesD:
  assumes "summarises families N"
  shows "families F = None \<Longrightarrow> n \<in> N \<Longrightarrow> family_of n \<noteq> F"
    and "families F = Some b \<Longrightarrow> bounds_ok b \<and> (\<exists>n \<in> N. family_of n = F) \<and>
       (\<exists>n \<in> N. family_of n = F \<and> b_min b = block_start n) \<and>
       (\<exists>n \<in> N. family_of n = F \<and> b_max b = block_end n)"
    and "families F = Some b \<Longrightarrow> n \<in> N \<Longrightarrow> family_of n = F \<Longrightarrow>
       b_min b \<le> block_start n \<and> block_end n \<le> b_max b \<and> b_bits b = length (in_IP n) * 8"
  using assms[unfolded summarises_def, rule_format, of F] by auto

lemma widen_other: "F \<noteq> family_of n \<Longrightarrow> widen n families F = families F"
  by (simp add: widen_def Let_def split: option.splits)

lemma widen_same: "widen n families (family_of n) = Some (case families (family_of n) of
    None \<Rightarrow> \<lparr>b_bits = length (in_IP n) * 8, b_min = block_start n, b_max = block_end n\<rparr>
  | Some b \<Rightarrow> b\<lparr>b_min := min (b_min b) (block_start n), b_max := max (b_max b) (block_end n)\<rparr>)"
  by (auto simp: widen_def Let_def min_def max_def split: option.splits)

lemma widen_summarises:
  assumes n: "is_block n bits ones" and sum: "summarises families N"
    and N: "\<forall>m \<in> N. \<exists>bits ones. is_block m bits ones"
  shows "summarises (widen n families) (insert n N)"
  unfolding summarises_def
proof
  fix F
  note ends = is_block_end[OF n]
  have bits: "length (in_IP n) * 8 = bits" "bits = 32 \<or> bits = 128" using n by (auto simp: is_block_def)
  show "case widen n families F of
     None \<Rightarrow> \<forall>m \<in> insert n N. family_of m \<noteq> F
   | Some b \<Rightarrow> bounds_ok b \<and> (\<exists>m \<in> insert n N. family_of m = F) \<and>
       (\<exists>m \<in> insert n N. family_of m = F \<and> b_min b = block_start m) \<and>
       (\<exists>m \<in> insert n N. family_of m = F \<and> b_max b = block_end m) \<and>
       (\<forall>m \<in> insert n N. family_of m = F \<longrightarrow>
          b_min b \<le> block_start m \<and> block_end m \<le> b_max b \<and> b_bits b = length (in_IP m) * 8)"
  proof (cases "F = family_of n")
    case False
    then show ?thesis
      using sum[unfolded summarises_def, rule_format, of F] by (auto simp: widen_other split: option.splits)
  next
    case F: True
    show ?thesis
    proof (cases "families F")
      case None
      then show ?thesis
        using summarisesD(1)[OF sum None] ends(2,3) bits
        by (auto simp: F widen_same bounds_ok_def)
    next
      case (Some b)
      obtain m0 where m0: "m0 \<in> N" "family_of m0 = F" using summarisesD(2)[OF sum Some] by blast
      obtain bits' ones' where b0: "is_block m0 bits' ones'" using N m0(1) by blast
      have b: "b_bits b = length (in_IP n) * 8"
        using summarisesD(3)[OF sum Some m0] same_family_bits[OF n b0] m0(2) F n b0 by (simp add: is_block_def)
      have ok: "bounds_ok b" and mn: "\<exists>m \<in> N. family_of m = F \<and> b_min b = block_start m" and mx: "\<exists>m \<in> N. family_of m = F \<and> b_max b = block_end m"
        using summarisesD(2)[OF sum Some] by auto
      let ?b = "b\<lparr>b_min := min (b_min b) (block_start n), b_max := max (b_max b) (block_end n)\<rparr>"
      have w: "widen n families F = Some ?b" using Some F by (simp add: widen_same)
      have "bounds_ok ?b" using ok b bits ends(2,3) by (auto simp: bounds_ok_def min_def max_def)
      moreover have "\<exists>m \<in> insert n N. family_of m = F \<and> b_min ?b = block_start m" using mn F by (auto simp: min_def)
      moreover have "\<exists>m \<in> insert n N. family_of m = F \<and> b_max ?b = block_end m" using mx F by (auto simp: max_def)
      moreover have "b_min ?b \<le> block_start m \<and> block_end m \<le> b_max ?b \<and> b_bits ?b = length (in_IP m) * 8"
        if m: "m \<in> insert n N" "family_of m = F" for m
      proof (cases "m = n")
        case True
        then show ?thesis using b by simp
      next
        case False
        then show ?thesis using summarisesD(3)[OF sum Some _ m(2)] m(1) by auto
      qed
      ultimately show ?thesis unfolding w using F by auto
    qed
  qed
qed

text \<open>The blocks of the CIDRs that parse.\<close>

definition nets_of :: "string list \<Rightarrow> ipnet set" where
  "nets_of cidrs = {n. \<exists>c \<in> set cidrs. \<exists>ip. ParseCIDR c = Inr (ip, n)}"

lemma nets_of_blocks: "n \<in> nets_of cidrs \<Longrightarrow> \<exists>bits ones. is_block n bits ones"
  by (auto simp: nets_of_def dest: ParseCIDR_is_block)

lemma nets_of_Cons: "ParseCIDR c = Inr (ip, n) \<Longrightarrow> nets_of (c # cidrs) = insert n (nets_of cidrs)"
  by (auto simp: nets_of_def)

lemma collect_bounds_summarises:
  assumes "collect_bounds cidrs families = Inr families'" and "summarises families N"
    and "\<forall>m \<in> N. \<exists>bits ones. is_block m bits ones"
  shows "summarises families' (nets_of cidrs \<union> N)"
  using assms
proof (induction cidrs families arbitrary: N rule: collect_bounds.induct)
  case (1 families)
  then show ?case by (simp add: nets_of_def)
next
  case (2 c cidrs families)
  obtain ip n where p: "ParseCIDR c = Inr (ip, n)"
    using 2(2) by (auto split: sum.splits prod.splits)
  obtain bits ones where blk: "is_block n bits ones" using ParseCIDR_is_block[OF p] by blast
  have "summarises families' (nets_of cidrs \<union> insert n N)"
    by (rule "2.IH"[OF p refl])
      (use 2(2,4) p blk widen_summarises[OF blk "2"(3,4)] in \<open>auto split: sum.splits\<close>)
  then show ?case by (simp add: nets_of_Cons[OF p])
qed

lemma computeSupernets_summary:
  assumes "computeSupernets cidrs = Inr result"
  obtains families where "summarises families (nets_of cidrs)"
    and "result = (\<lambda>F. map_option (\<lambda>b. ipnet_String (enclosing b)) (families F))"
proof -
  obtain families where f: "collect_bounds cidrs Map.empty = Inr families"
    and r: "result = (\<lambda>F. map_option (\<lambda>b. ipnet_String (enclosing b)) (families F))"
    using assms by (auto simp: computeSupernets_def split: sum.splits)
  have "summarises Map.empty {}" by (simp add: summarises_def)
  from collect_bounds_summarises[OF f this] have "summarises families (nets_of cidrs)" by simp
  then show thesis using r by (rule that)
qed

text \<open>\<open>e\<close> covers the blocks of a family, and no smaller block does.\<close>

definition covers :: "ipnet \<Rightarrow> string \<Rightarrow> string list \<Rightarrow> bool" where
  "covers e F cidrs \<longleftrightarrow> (\<forall>n \<in> nets_of cidrs. family_of n = F \<longrightarrow>
     block_start e \<le> block_start n \<and> block_end n \<le> block_end e)"

definition smallest_cover :: "ipnet \<Rightarrow> string \<Rightarrow> string list \<Rightarrow> bool" where
  "smallest_cover e F cidrs \<longleftrightarrow> family_of e = F \<and> covers e F cidrs \<and>
     (\<exists>bits ones. is_block e bits ones \<and>
        (\<forall>e' ones'. is_block e' bits ones' \<longrightarrow> covers e' F cidrs \<longrightarrow> ones' \<le> ones))"

lemma enclosing_smallest_cover:
  assumes sum: "summarises families (nets_of cidrs)" and F: "families F = Some b"
  shows "smallest_cover (enclosing b) F cidrs"
proof -
  have ok: "bounds_ok b" using summarisesD(2)[OF sum F] by blast
  note blk = enclosing_block(1)[OF ok] and cont = enclosing_contains[OF ok]
  obtain n where n: "n \<in> nets_of cidrs" "family_of n = F" using summarisesD(2)[OF sum F] by blast
  have bits: "b_bits b = length (in_IP n) * 8" using summarisesD(3)[OF sum F n] by blast
  have fam: "family_of (enclosing b) = F"
    using n(2) bits blk by (simp add: family_of_def is_block_def)
  have cov: "covers (enclosing b) F cidrs"
    unfolding covers_def using summarisesD(3)[OF sum F] cont by (meson order_trans)
  have "ones' \<le> b_bits b - BitLen (b_min b XOR b_max b)"
    if "is_block e' (b_bits b) ones'" "covers e' F cidrs" for e' ones'
  proof (rule enclosing_smallest[OF ok that(1)])
    show "block_start e' \<le> b_min b" "b_max b \<le> block_end e'"
      using summarisesD(2)[OF sum F] that(2) unfolding covers_def by auto
  qed
  with fam cov blk show ?thesis unfolding smallest_cover_def by blast
qed

end
