(* ===== verification/Service_Controller.thy ===== *)
theory Service_Controller
  imports HeraldConfig_Controller NetBox_Service NetBox_Sync Supernets
begin

text \<open>
  \<open>internal/controller/service_controller.go\<close>: the external addresses of LoadBalancer Services
  as NetBox IP addresses.
\<close>

definition ServiceTypeLoadBalancer :: string where
  "ServiceTypeLoadBalancer = ''LoadBalancer''"

text \<open>\<open>fmt.Sprintf("Kubernetes Service %s/%s", ...)\<close>.\<close>

definition service_description :: "service \<Rightarrow> string" where
  "service_description svc = ''Kubernetes Service '' @ svc_Namespace svc @ ''/'' @ svc_Name svc"

text \<open>The first loop: it returns the desired external IDs, in order.\<close>

fun ensure_addresses :: "'w netbox_api \<Rightarrow> tag \<Rightarrow> service \<Rightarrow> string list \<Rightarrow> ('w, string list) go" where
  "ensure_addresses api managedTag svc [] = ret []"
| "ensure_addresses api managedTag svc (ip # ingress) =
     (if ip = '''' then ensure_addresses api managedTag svc ingress
      else case cidrForIP ip of
        Inl err \<Rightarrow> fail (Errorf ''service %s/%s: %w'' [AStr (svc_Namespace svc), AStr (svc_Name svc), AErr err])
      | Inr address \<Rightarrow>
          let externalID = ExternalIDForServiceAddress (svc_Namespace svc) (svc_Name svc) ip in
          bind (EnsureServiceIP api
              \<lparr>is_Address = address, is_Description = service_description svc,
               is_ExternalID = externalID, is_ManagedTag = managedTag\<rparr>) (\<lambda>_.
          bind (ensure_addresses api managedTag svc ingress) (\<lambda>ids.
          ret (externalID # ids))))"

definition syncServiceAddresses :: "'w netbox_api \<Rightarrow> string \<Rightarrow> service \<Rightarrow> ('w, unit) go" where
  "syncServiceAddresses api managedTagSlug svc =
     bind (EnsureManagedTag api managedTagSlug) (\<lambda>managedTag.
     bind (ensure_addresses api managedTag svc (svc_Ingress svc)) (\<lambda>desiredExternalIDs.
     bind (ListServiceIPs api managedTagSlug (svc_Namespace svc) (svc_Name svc)) (\<lambda>owned.
     for_each owned (\<lambda>addr.
       bind (assertExternalID (ob_CustomFields addr)) (\<lambda>i.
       if i \<in> set desiredExternalIDs then ret () else DeleteServiceIP api (ob_ID addr))))))"

text \<open>What a Service should have in NetBox, and what each of its objects should record.\<close>

definition addresses_of :: "service \<Rightarrow> string list \<Rightarrow> string list" where
  "addresses_of svc ips = map (ExternalIDForServiceAddress (svc_Namespace svc) (svc_Name svc))
     (filter (\<lambda>ip. ip \<noteq> '''') ips)"

definition desired_addresses :: "service \<Rightarrow> string list" where
  "desired_addresses svc = addresses_of svc (svc_Ingress svc)"

definition address_recorded :: "service \<Rightarrow> string \<Rightarrow> writable_ip \<Rightarrow> bool" where
  "address_recorded svc x d \<longleftrightarrow>
     (\<exists>ip. x = ExternalIDForServiceAddress (svc_Namespace svc) (svc_Name svc) ip \<and>
        cidrForIP ip = Inr (wi_Address d))"

lemma ensure_addresses_triple:
  assumes law: "lawful psize view api" and tag: "tg_Slug managedTag = Some slug"
  shows "triple (\<lambda>w. view w = v) (ensure_addresses api managedTag svc ips)
    (\<lambda>xs w. loop_done psize ip_kind slug (address_recorded svc) (addresses_of svc ips) v xs (view w))
    (\<lambda>_ w. loop_failed psize ip_kind slug (address_recorded svc) (addresses_of svc ips) v (view w))"
proof (induction ips arbitrary: v)
  case Nil
  show ?case by (auto intro!: triple_ret simp: addresses_of_def loop_done_def)
next
  case (Cons ip ips)
  let ?x = "ExternalIDForServiceAddress (svc_Namespace svc) (svc_Name svc) ip"
  consider "ip = ''''" | err where "ip \<noteq> ''''" "cidrForIP ip = Inl err"
    | address where "ip \<noteq> ''''" "cidrForIP ip = Inr address" by (cases "cidrForIP ip") auto
  then show ?case
  proof cases
    case 1
    then show ?thesis using Cons.IH[of v] by (simp add: addresses_of_def)
  next
    case 2
    then show ?thesis by (auto intro!: triple_fail loop_failed_now)
  next
    case 3
    let ?spec = "\<lparr>is_Address = address, is_Description = service_description svc,
        is_ExternalID = ?x, is_ManagedTag = managedTag\<rparr>"
    have rec: "ensured psize ip_kind slug ?x (ip_recorded ?spec) i v u \<Longrightarrow>
        ensured psize ip_kind slug ?x (address_recorded svc ?x) i v u" for i u
      by (erule ensured_mono) (use 3 in \<open>auto simp: ip_recorded_def address_recorded_def\<close>)
    have step: "triple (\<lambda>w. view w = v) (EnsureServiceIP api ?spec)
        (\<lambda>_ w. \<exists>i. ensured psize ip_kind slug ?x (address_recorded svc ?x) i v (view w))
        (\<lambda>_ w. view w = v \<or> (\<exists>i. ensured psize ip_kind slug ?x (address_recorded svc ?x) i v (view w)))"
      by (rule triple_post[OF EnsureServiceIP_triple[OF law]]) (use tag rec in auto)
    have body: "ensure_addresses api managedTag svc (ip # ips) = bind (EnsureServiceIP api ?spec) (\<lambda>_.
        bind (ensure_addresses api managedTag svc ips) (\<lambda>xs. ret (?x # xs)))"
      and ids: "addresses_of svc (ip # ips) = ?x # addresses_of svc ips"
      using 3 by (simp_all add: Let_def addresses_of_def)
    show ?thesis unfolding body ids by (rule ensure_cons_triple[OF step Cons.IH])
  qed
qed

interpretation service_sync: ensure_and_prune ip_kind IpamIPAddresses "''listing NetBox IP addresses: %w''"
  findServiceIPByExternalID "\<lambda>i err. Errorf ''deleting NetBox IP address (id %d): %w'' [AInt i, AErr err]"
  DeleteServiceIP "\<lambda>(ns, n). serviceExternalIDPrefix ns n" "\<lambda>client slug (ns, n). ListServiceIPs client slug ns n"
  "\<lambda>client slug (ns, n). DeleteServiceIPs client slug ns n"
  "\<lambda>svc. (svc_Namespace svc, svc_Name svc)"
  "\<lambda>api managedTag svc. ensure_addresses api managedTag svc (svc_Ingress svc)"
  address_recorded desired_addresses syncServiceAddresses
proof unfold_locales
  fix psize v slug and view :: "'w \<Rightarrow> nb_view" and client and tag :: tag and s :: service
  assume "lawful psize view client" "tg_Slug tag = Some slug"
  then show "triple (\<lambda>w. view w = v) (ensure_addresses client tag s (svc_Ingress s))
      (\<lambda>xs w. loop_done psize ip_kind slug (address_recorded s) (desired_addresses s) v xs (view w))
      (\<lambda>_ w. loop_failed psize ip_kind slug (address_recorded s) (desired_addresses s) v (view w))"
    unfolding desired_addresses_def by (rule ensure_addresses_triple)
next
  fix x and s :: service
  assume "x \<in> set (desired_addresses s)"
  then show "prefix (case (svc_Namespace s, svc_Name s) of (ns, n) \<Rightarrow> serviceExternalIDPrefix ns n) x"
    by (auto simp: desired_addresses_def addresses_of_def ExternalIDForServiceAddress_def)
next
  fix slug v v'
  assume "tag_ensured slug v v'"
  then show "k_get ip_kind v' = k_get ip_kind v" by (simp add: tag_ensured_tables ip_kind_def)
next
  fix psize and view :: "'w \<Rightarrow> nb_view" and client
  assume "lawful psize view client"
  then show "lawful_ep psize view ip_kind (IpamIPAddresses client)" by (simp add: lawful_def)
qed (simp_all only: syncServiceAddresses_def prod.case, simp_all only: DeleteServiceIP_def
    deleteServiceIP_def ListServiceIPs_def DeleteServiceIPs_def Let_def split_beta)

definition syncServicesStatus :: "('x, 'v) env \<Rightarrow> string \<Rightarrow> HeraldConfigSpec \<Rightarrow> error option \<Rightarrow> ('x world_scheme, unit) go" where
  "syncServicesStatus env managedTagSlug spec syncErr =
     if_err (GetHeraldConfig env singletonName)
       (\<lambda>err. if IsNotFound err then ret () else fail err) (\<lambda>cr.
     bind StoreGet (\<lambda>(_, clientp).
     case clientp of
       None \<Rightarrow> ret ()
     | Some netboxClient \<Rightarrow>
         bind (attempt (CountManagedServiceIPs (Netbox env netboxClient) managedTagSlug)) (\<lambda>count.
         bind (sync_status env (sv_Enabled (rc_Services (hs_Resources spec))) (hc_Generation cr) count syncErr) (\<lambda>status.
         bind (UpdateStatus env (cr\<lparr>hc_Status := (hc_Status cr)
           \<lparr>hc_Resources := (hc_Resources (hc_Status cr))\<lparr>st_Services := status\<rparr>\<rparr>\<rparr>)) (\<lambda>_. ret ())))))"

definition reconcileService :: "('x, 'v) env \<Rightarrow> request \<Rightarrow> ('x world_scheme, result) go" where
  "reconcileService env req =
     bind StoreGet (\<lambda>(specp, clientp).
     case (specp, clientp) of
       (Some spec, Some netboxClient) \<Rightarrow>
         let managedTagSlug = resolveManagedTagSlug spec;
             resyncInterval = resolveResyncInterval spec;
             api = Netbox env netboxClient;
             services = rc_Services (hs_Resources spec);
             status = syncServicesStatus env managedTagSlug spec;
             failed = (\<lambda>err. bind (status (Some err)) (\<lambda>_. ret no_requeue)) in
         if_err (GetService env (rq_Namespace req) (rq_Name req))
           (\<lambda>err. if IsNotFound err then
                if_err (DeleteServiceIPs api managedTagSlug (rq_Namespace req) (rq_Name req)) failed (\<lambda>_.
                bind (status None) (\<lambda>_. ret no_requeue))
              else fail err) (\<lambda>svc.
         if \<not> (sv_Enabled services \<and> svc_Type svc = ServiceTypeLoadBalancer) then
           if_err (if sv_Enabled services \<or> \<not> sv_RetainOnDisable services
               then DeleteServiceIPs api managedTagSlug (svc_Namespace svc) (svc_Name svc) else ret ())
             failed (\<lambda>_.
           bind (status None) (\<lambda>_. ret \<lparr>RequeueAfter = resyncInterval\<rparr>))
         else
           if_err (syncServiceAddresses api managedTagSlug svc) failed (\<lambda>_.
           bind (status None) (\<lambda>_. ret \<lparr>RequeueAfter = resyncInterval\<rparr>)))
     | _ \<Rightarrow> ret \<lparr>RequeueAfter = storeNotReadyPollInterval\<rparr>)"

definition enqueueAllServices :: "('x, 'v) env \<Rightarrow> ('x world_scheme, request list) go" where
  "enqueueAllServices env =
     if_err (ListServices env) (\<lambda>_. ret [])
       (\<lambda>services. ret (map (\<lambda>svc. \<lparr>rq_Namespace = svc_Namespace svc, rq_Name = svc_Name svc\<rparr>) services))"

end
