(* ===== verification/NetBox_PodCIDR.thy ===== *)
theory NetBox_PodCIDR
  imports NetBox_Removal NetBox_Refs
begin

text \<open>
  \<open>internal/netbox/podcidr.go\<close>: pod CIDRs as NetBox Prefixes, one per Node and CIDR with the
  external ID \<open>node/cidr\<close>, or as one Aggregate per address family with the external ID
  \<open>cluster-pod-cidrs/family\<close>.
\<close>

section \<open>Prefixes\<close>

definition nodePodCIDRExternalIDPrefix :: "string \<Rightarrow> string" where
  "nodePodCIDRExternalIDPrefix nodeName = nodeName @ ''/''"

definition ExternalIDForNodePodCIDR :: "string \<Rightarrow> string \<Rightarrow> string" where
  "ExternalIDForNodePodCIDR nodeName cidr = nodePodCIDRExternalIDPrefix nodeName @ cidr"

lemma node_prefix_append: "nodePodCIDRExternalIDPrefix n @ a = n @ CHR ''/'' # a"
  by (simp add: nodePodCIDRExternalIDPrefix_def)

lemma node_prefix_iff:
  assumes "CHR ''/'' \<notin> set n" "CHR ''/'' \<notin> set n'"
  shows "prefix (nodePodCIDRExternalIDPrefix n) (ExternalIDForNodePodCIDR n' c) \<longleftrightarrow> n = n'"
  unfolding nodePodCIDRExternalIDPrefix_def ExternalIDForNodePodCIDR_def append_assoc append_Cons append_Nil
  by (rule prefix_sep[OF assms])

record pod_cidr_prefix_spec =
  ps_CIDR :: string
  ps_Description :: string
  ps_ExternalID :: string
  ps_ManagedTag :: tag

definition findPrefixByExternalID :: "'w netbox_api \<Rightarrow> string \<Rightarrow> string \<Rightarrow> ('w, nb_object option) go" where
  "findPrefixByExternalID client managedTagSlug externalID =
     bind (wrap_err (\<lambda>err. Errorf ''listing NetBox prefixes: %w'' [AErr err])
       (ep_list (IpamPrefixes client) (no_params\<lparr>lp_Tag := [managedTagSlug]\<rparr>)))
     (\<lambda>listResp. ret (List.find
        (\<lambda>p. readExternalID (ob_CustomFields p) = Some externalID) (pg_Results listResp)))"

definition pod_cidr_prefix_data :: "pod_cidr_prefix_spec \<Rightarrow> writable_prefix" where
  "pod_cidr_prefix_data spec =
     \<lparr>wr_Tags = [NestedManagedTag (ps_ManagedTag spec)],
      wr_CustomFields = GMap [(ExternalIDFieldName, GString (ps_ExternalID spec))],
      wp_Prefix = ps_CIDR spec, wp_Description = ps_Description spec\<rparr>"

definition EnsurePodCIDRPrefix :: "'w netbox_api \<Rightarrow> pod_cidr_prefix_spec \<Rightarrow> ('w, int) go" where
  "EnsurePodCIDRPrefix client spec =
     bind (deref (tg_Slug (ps_ManagedTag spec))) (\<lambda>slug.
     bind (findPrefixByExternalID client slug (ps_ExternalID spec)) (\<lambda>existing.
     let data = pod_cidr_prefix_data spec in
     case existing of
       Some existing \<Rightarrow>
         bind (wrap_err (\<lambda>err. Errorf ''updating NetBox prefix %q (id %d): %w''
             [AStr (ps_CIDR spec), AInt (ob_ID existing), AErr err])
           (ep_update (IpamPrefixes client) (ob_ID existing) data))
         (\<lambda>updateResp. ret (ob_ID updateResp))
     | None \<Rightarrow>
         bind (wrap_err (\<lambda>err. Errorf ''creating NetBox prefix %q: %w'' [AStr (ps_CIDR spec), AErr err])
           (ep_create (IpamPrefixes client) data))
         (\<lambda>createResp. ret (ob_ID createResp))))"

definition ListNodePodCIDRPrefixes :: "'w netbox_api \<Rightarrow> string \<Rightarrow> string \<Rightarrow> ('w, nb_object list) go" where
  "ListNodePodCIDRPrefixes client managedTagSlug nodeName =
     (let pre = nodePodCIDRExternalIDPrefix nodeName in
      bind (wrap_err (\<lambda>err. Errorf ''listing NetBox prefixes: %w'' [AErr err])
        (ep_list (IpamPrefixes client) (no_params\<lparr>lp_Tag := [managedTagSlug]\<rparr>)))
      (\<lambda>listResp. ret (filter (\<lambda>p. case readExternalID (ob_CustomFields p) of
           Some i \<Rightarrow> prefix pre i | None \<Rightarrow> False) (pg_Results listResp))))"

definition deletePrefix :: "'w netbox_api \<Rightarrow> int \<Rightarrow> ('w, unit) go" where
  "deletePrefix client i =
     bind (wrap_err (\<lambda>err. Errorf ''deleting NetBox prefix (id %d): %w'' [AInt i, AErr err])
       (ep_delete (IpamPrefixes client) i)) (\<lambda>_. ret ())"

definition DeletePodCIDRPrefix :: "'w netbox_api \<Rightarrow> int \<Rightarrow> ('w, unit) go" where
  "DeletePodCIDRPrefix client i = deletePrefix client i"

definition DeleteNodePodCIDRPrefixes :: "'w netbox_api \<Rightarrow> string \<Rightarrow> string \<Rightarrow> ('w, unit) go" where
  "DeleteNodePodCIDRPrefixes client managedTagSlug nodeName =
     bind (ListNodePodCIDRPrefixes client managedTagSlug nodeName) (\<lambda>owned.
     for_each owned (\<lambda>p. deletePrefix client (ob_ID p)))"

definition CountManagedPrefixes :: "'w netbox_api \<Rightarrow> string \<Rightarrow> ('w, 64 word) go" where
  "CountManagedPrefixes client managedTagSlug =
     bind (wrap_err (\<lambda>err. Errorf ''listing NetBox prefixes: %w'' [AErr err])
       (ep_list (IpamPrefixes client) (no_params\<lparr>lp_Tag := [managedTagSlug], lp_Limit := Some 1\<rparr>)))
     (\<lambda>resp. case pg_Count resp of None \<Rightarrow> ret 0 | Some count \<Rightarrow> ret count)"

lemma pod_cidr_prefix_data_written:
  "wr_Tags (pod_cidr_prefix_data spec) = [NestedManagedTag (ps_ManagedTag spec)]"
  "wr_CustomFields (pod_cidr_prefix_data spec) = GMap [(ExternalIDFieldName, GString (ps_ExternalID spec))]"
  by (simp_all add: pod_cidr_prefix_data_def)

interpretation pfx: managed_ensure prefix_kind IpamPrefixes "''listing NetBox prefixes: %w''"
  findPrefixByExternalID ps_ManagedTag ps_ExternalID "\<lambda>_ spec. ret (pod_cidr_prefix_data spec)"
  "\<lambda>spec i err. Errorf ''updating NetBox prefix %q (id %d): %w'' [AStr (ps_CIDR spec), AInt i, AErr err]"
  "\<lambda>spec err. Errorf ''creating NetBox prefix %q: %w'' [AStr (ps_CIDR spec), AErr err]" EnsurePodCIDRPrefix
proof unfold_locales
  show "wr_Tags d = [NestedManagedTag (ps_ManagedTag spec)] \<and>
      wr_CustomFields d = GMap [(ExternalIDFieldName, GString (ps_ExternalID spec))]"
    if "ret (pod_cidr_prefix_data spec) w = (Ok d, w')" for spec and w :: 'w and d w'
    using that by (auto elim!: ret_OkE simp: pod_cidr_prefix_data_written)
qed (simp_all only: findPrefixByExternalID_def EnsurePodCIDRPrefix_def kind_ok_kinds bind_ret Let_def)

interpretation pfx_delete: managed_by_id prefix_kind IpamPrefixes "''listing NetBox prefixes: %w''"
  findPrefixByExternalID "\<lambda>i err. Errorf ''deleting NetBox prefix (id %d): %w'' [AInt i, AErr err]"
  DeletePodCIDRPrefix
  by unfold_locales (simp only: deletePrefix_def DeletePodCIDRPrefix_def)

interpretation pfx_owner: managed_owner prefix_kind IpamPrefixes "''listing NetBox prefixes: %w''"
  findPrefixByExternalID "\<lambda>i err. Errorf ''deleting NetBox prefix (id %d): %w'' [AInt i, AErr err]"
  deletePrefix nodePodCIDRExternalIDPrefix ListNodePodCIDRPrefixes DeleteNodePodCIDRPrefixes
  by unfold_locales
    (simp_all only: deletePrefix_def ListNodePodCIDRPrefixes_def DeleteNodePodCIDRPrefixes_def Let_def)

interpretation pfx_count: managed_count prefix_kind IpamPrefixes "''listing NetBox prefixes: %w''"
  findPrefixByExternalID CountManagedPrefixes
  by unfold_locales (simp only: CountManagedPrefixes_def)

definition prefix_recorded :: "pod_cidr_prefix_spec \<Rightarrow> writable_prefix \<Rightarrow> bool" where
  "prefix_recorded spec d \<longleftrightarrow> wp_Prefix d = ps_CIDR spec"

lemma pod_cidr_prefix_keeps [keeps_rules]:
  assumes api: "api_keeps I client"
  shows "tg_Slug (ps_ManagedTag spec) \<noteq> None \<Longrightarrow> keeps I (EnsurePodCIDRPrefix client spec)"
    and "keeps I (DeleteNodePodCIDRPrefixes client slug n)" and "keeps I (CountManagedPrefixes client slug)"
proof -
  have ep: "ep_keeps I (IpamPrefixes client)" using api by (simp add: api_keeps_def)
  show "tg_Slug (ps_ManagedTag spec) \<noteq> None \<Longrightarrow> keeps I (EnsurePodCIDRPrefix client spec)"
    by (rule pfx.ensure_keeps[OF ep keeps_ret])
  show "keeps I (DeleteNodePodCIDRPrefixes client slug n)" by (rule pfx_owner.delete_owned_keeps[OF ep])
  show "keeps I (CountManagedPrefixes client slug)" by (rule pfx_count.count_keeps[OF ep])
qed

lemma EnsurePodCIDRPrefix_triple:
  assumes "lawful psize view client" and "tg_Slug (ps_ManagedTag spec) = Some slug"
  shows "triple (\<lambda>w. view w = v) (EnsurePodCIDRPrefix client spec)
    (\<lambda>i w. ensured psize prefix_kind slug (ps_ExternalID spec) (prefix_recorded spec) i v (view w))
    (\<lambda>_ w. view w = v \<or>
       (\<exists>i. ensured psize prefix_kind slug (ps_ExternalID spec) (prefix_recorded spec) i v (view w)))"
  using assms by (intro pfx.ensure_triple[where P = "prefix_recorded spec"] triple_ret)
    (auto simp: lawful_def prefix_recorded_def stored_as_def prefix_kind_def pod_cidr_prefix_data_def)

section \<open>Aggregates\<close>

definition ExternalIDForPodCIDRAggregate :: "string \<Rightarrow> string" where
  "ExternalIDForPodCIDRAggregate family = ''cluster-pod-cidrs/'' @ family"

lemma aggregate_external_id_inj:
  "ExternalIDForPodCIDRAggregate f = ExternalIDForPodCIDRAggregate g \<longleftrightarrow> f = g"
  by (simp add: ExternalIDForPodCIDRAggregate_def)

record pod_cidr_aggregate_spec =
  as_CIDR :: string
  as_RIRName :: string
  as_Description :: string
  as_ExternalID :: string
  as_ManagedTag :: tag

definition findAggregateByExternalID :: "'w netbox_api \<Rightarrow> string \<Rightarrow> string \<Rightarrow> ('w, nb_object option) go" where
  "findAggregateByExternalID client managedTagSlug externalID =
     bind (wrap_err (\<lambda>err. Errorf ''listing NetBox aggregates: %w'' [AErr err])
       (ep_list (IpamAggregates client) (no_params\<lparr>lp_Tag := [managedTagSlug]\<rparr>)))
     (\<lambda>listResp. ret (List.find
        (\<lambda>a. readExternalID (ob_CustomFields a) = Some externalID) (pg_Results listResp)))"

definition aggregate_data :: "'w netbox_api \<Rightarrow> pod_cidr_aggregate_spec \<Rightarrow> ('w, writable_aggregate) go" where
  "aggregate_data client spec =
     bind (LookupRIRID client (as_RIRName spec)) (\<lambda>rirID.
     ret \<lparr>wr_Tags = [NestedManagedTag (as_ManagedTag spec)],
          wr_CustomFields = GMap [(ExternalIDFieldName, GString (as_ExternalID spec))],
          wa_Prefix = as_CIDR spec, wa_Rir = rirID, wa_Description = as_Description spec\<rparr>)"

definition EnsurePodCIDRAggregate :: "'w netbox_api \<Rightarrow> pod_cidr_aggregate_spec \<Rightarrow> ('w, int) go" where
  "EnsurePodCIDRAggregate client spec =
     bind (deref (tg_Slug (as_ManagedTag spec))) (\<lambda>slug.
     bind (findAggregateByExternalID client slug (as_ExternalID spec)) (\<lambda>existing.
     bind (aggregate_data client spec) (\<lambda>data.
     case existing of
       Some existing \<Rightarrow>
         bind (wrap_err (\<lambda>err. Errorf ''updating NetBox aggregate %q (id %d): %w''
             [AStr (as_CIDR spec), AInt (ob_ID existing), AErr err])
           (ep_update (IpamAggregates client) (ob_ID existing) data))
         (\<lambda>updateResp. ret (ob_ID updateResp))
     | None \<Rightarrow>
         bind (wrap_err (\<lambda>err. Errorf ''creating NetBox aggregate %q: %w'' [AStr (as_CIDR spec), AErr err])
           (ep_create (IpamAggregates client) data))
         (\<lambda>createResp. ret (ob_ID createResp)))))"

definition DeletePodCIDRAggregate :: "'w netbox_api \<Rightarrow> string \<Rightarrow> string \<Rightarrow> ('w, unit) go" where
  "DeletePodCIDRAggregate client managedTagSlug externalID =
     bind (findAggregateByExternalID client managedTagSlug externalID) (\<lambda>existing.
     case existing of
       None \<Rightarrow> ret ()
     | Some existing \<Rightarrow>
         bind (wrap_err (\<lambda>err. Errorf ''deleting NetBox aggregate (id %d): %w'' [AInt (ob_ID existing), AErr err])
           (ep_delete (IpamAggregates client) (ob_ID existing)))
         (\<lambda>_. ret ()))"

definition CountManagedAggregates :: "'w netbox_api \<Rightarrow> string \<Rightarrow> ('w, 64 word) go" where
  "CountManagedAggregates client managedTagSlug =
     bind (wrap_err (\<lambda>err. Errorf ''listing NetBox aggregates: %w'' [AErr err])
       (ep_list (IpamAggregates client) (no_params\<lparr>lp_Tag := [managedTagSlug], lp_Limit := Some 1\<rparr>)))
     (\<lambda>resp. case pg_Count resp of None \<Rightarrow> ret 0 | Some count \<Rightarrow> ret count)"

lemma aggregate_data_written:
  assumes "aggregate_data client spec w = (Ok d, w')"
  shows "wr_Tags d = [NestedManagedTag (as_ManagedTag spec)] \<and>
    wr_CustomFields d = GMap [(ExternalIDFieldName, GString (as_ExternalID spec))]"
  using assms unfolding aggregate_data_def by (auto elim!: bind_OkE ret_OkE)

definition aggregate_recorded :: "nb_view \<Rightarrow> pod_cidr_aggregate_spec \<Rightarrow> writable_aggregate \<Rightarrow> bool" where
  "aggregate_recorded v spec d \<longleftrightarrow> wa_Prefix d = as_CIDR spec \<and> wa_Rir d \<in> v_refs v RRIR (as_RIRName spec)"

lemma aggregate_data_triple:
  assumes law: "lawful psize view client"
  shows "triple (\<lambda>w. view w = v) (aggregate_data client spec)
    (\<lambda>d w. view w = v \<and> aggregate_recorded v spec d) (\<lambda>_ w. view w = v)"
  unfolding aggregate_data_def
  by (rule triple_bind_fact[OF rir.lookup_reads[OF lawful_lookups(6)[OF law]]])
    (auto intro!: triple_ret simp: aggregate_recorded_def)

interpretation agg: managed_ensure aggregate_kind IpamAggregates "''listing NetBox aggregates: %w''"
  findAggregateByExternalID as_ManagedTag as_ExternalID aggregate_data
  "\<lambda>spec i err. Errorf ''updating NetBox aggregate %q (id %d): %w'' [AStr (as_CIDR spec), AInt i, AErr err]"
  "\<lambda>spec err. Errorf ''creating NetBox aggregate %q: %w'' [AStr (as_CIDR spec), AErr err]" EnsurePodCIDRAggregate
proof unfold_locales
  show "wr_Tags d = [NestedManagedTag (as_ManagedTag spec)] \<and>
      wr_CustomFields d = GMap [(ExternalIDFieldName, GString (as_ExternalID spec))]"
    if "aggregate_data client spec w = (Ok d, w')" for client :: "'w netbox_api" and spec w d w'
    using that by (rule aggregate_data_written)
qed (simp_all only: findAggregateByExternalID_def EnsurePodCIDRAggregate_def kind_ok_kinds)

interpretation agg_delete: managed_delete aggregate_kind IpamAggregates "''listing NetBox aggregates: %w''"
  findAggregateByExternalID "\<lambda>i err. Errorf ''deleting NetBox aggregate (id %d): %w'' [AInt i, AErr err]"
  DeletePodCIDRAggregate
  by unfold_locales (simp only: DeletePodCIDRAggregate_def)

interpretation agg_count: managed_count aggregate_kind IpamAggregates "''listing NetBox aggregates: %w''"
  findAggregateByExternalID CountManagedAggregates
  by unfold_locales (simp only: CountManagedAggregates_def)

lemma aggregate_keeps [keeps_rules]:
  assumes api: "api_keeps I client"
  shows "tg_Slug (as_ManagedTag spec) \<noteq> None \<Longrightarrow> keeps I (EnsurePodCIDRAggregate client spec)"
    and "keeps I (DeletePodCIDRAggregate client slug x)" and "keeps I (CountManagedAggregates client slug)"
proof -
  have ep: "ep_keeps I (IpamAggregates client)" using api by (simp add: api_keeps_def)
  have "keeps I (aggregate_data client spec)"
    unfolding aggregate_data_def by (intro keeps_rules api)
  then show "tg_Slug (as_ManagedTag spec) \<noteq> None \<Longrightarrow> keeps I (EnsurePodCIDRAggregate client spec)"
    by (rule agg.ensure_keeps[OF ep])
  show "keeps I (DeletePodCIDRAggregate client slug x)" by (rule agg_delete.delete_ext_keeps[OF ep])
  show "keeps I (CountManagedAggregates client slug)" by (rule agg_count.count_keeps[OF ep])
qed

lemma EnsurePodCIDRAggregate_triple:
  assumes "lawful psize view client" and "tg_Slug (as_ManagedTag spec) = Some slug"
  shows "triple (\<lambda>w. view w = v) (EnsurePodCIDRAggregate client spec)
    (\<lambda>i w. ensured psize aggregate_kind slug (as_ExternalID spec) (aggregate_recorded v spec) i v (view w))
    (\<lambda>_ w. view w = v \<or>
       (\<exists>i. ensured psize aggregate_kind slug (as_ExternalID spec) (aggregate_recorded v spec) i v (view w)))"
  using assms by (intro agg.ensure_triple[where P = "aggregate_recorded v spec"] aggregate_data_triple)
    (auto simp: lawful_def aggregate_recorded_def stored_as_def aggregate_kind_def)

end
