(* ===== verification/PodCIDR_Controller.thy ===== *)
theory PodCIDR_Controller
  imports HeraldConfig_Controller NetBox_PodCIDR NetBox_Sync Supernets
begin

text \<open>
  \<open>internal/controller/podcidr_controller.go\<close>: pod CIDRs as one NetBox Prefix per Node and CIDR,
  or as one Aggregate per address family that covers the pod CIDRs of all Nodes.
\<close>

section \<open>Prefixes\<close>

definition prefix_description :: "node \<Rightarrow> string" where
  "prefix_description node = ''Kubernetes Node '' @ nod_Name node @ '' pod CIDR''"

text \<open>The first loop: it returns the desired external IDs, in order.\<close>

fun ensure_prefixes :: "'w netbox_api \<Rightarrow> tag \<Rightarrow> node \<Rightarrow> string list \<Rightarrow> ('w, string list) go" where
  "ensure_prefixes api managedTag node [] = ret []"
| "ensure_prefixes api managedTag node (cidr # cidrs) =
     (let externalID = ExternalIDForNodePodCIDR (nod_Name node) cidr in
      bind (EnsurePodCIDRPrefix api
          \<lparr>ps_CIDR = cidr, ps_Description = prefix_description node,
           ps_ExternalID = externalID, ps_ManagedTag = managedTag\<rparr>) (\<lambda>_.
      bind (ensure_prefixes api managedTag node cidrs) (\<lambda>ids.
      ret (externalID # ids))))"

definition syncNodePrefixes :: "'w netbox_api \<Rightarrow> string \<Rightarrow> node \<Rightarrow> ('w, unit) go" where
  "syncNodePrefixes api managedTagSlug node =
     bind (EnsureManagedTag api managedTagSlug) (\<lambda>managedTag.
     bind (ensure_prefixes api managedTag node (nod_PodCIDRs node)) (\<lambda>desiredExternalIDs.
     bind (ListNodePodCIDRPrefixes api managedTagSlug (nod_Name node)) (\<lambda>owned.
     for_each owned (\<lambda>p.
       bind (assertExternalID (ob_CustomFields p)) (\<lambda>i.
       if i \<in> set desiredExternalIDs then ret () else DeletePodCIDRPrefix api (ob_ID p))))))"

text \<open>What a Node should have in NetBox, and what each of its objects should record.\<close>

definition desired_prefixes :: "node \<Rightarrow> string list" where
  "desired_prefixes node = map (ExternalIDForNodePodCIDR (nod_Name node)) (nod_PodCIDRs node)"

definition cidr_recorded :: "node \<Rightarrow> string \<Rightarrow> writable_prefix \<Rightarrow> bool" where
  "cidr_recorded node x d \<longleftrightarrow> x = ExternalIDForNodePodCIDR (nod_Name node) (wp_Prefix d)"

lemma ensure_prefixes_triple:
  assumes law: "lawful psize view api" and tag: "tg_Slug managedTag = Some slug"
  shows "triple (\<lambda>w. view w = v) (ensure_prefixes api managedTag node cidrs)
    (\<lambda>xs w. loop_done psize prefix_kind slug (cidr_recorded node)
       (map (ExternalIDForNodePodCIDR (nod_Name node)) cidrs) v xs (view w))
    (\<lambda>_ w. loop_failed psize prefix_kind slug (cidr_recorded node)
       (map (ExternalIDForNodePodCIDR (nod_Name node)) cidrs) v (view w))"
proof (induction cidrs arbitrary: v)
  case Nil
  show ?case by (auto intro!: triple_ret simp: loop_done_def)
next
  case (Cons cidr cidrs)
  let ?x = "ExternalIDForNodePodCIDR (nod_Name node) cidr"
  let ?spec = "\<lparr>ps_CIDR = cidr, ps_Description = prefix_description node,
      ps_ExternalID = ?x, ps_ManagedTag = managedTag\<rparr>"
  have rec: "ensured psize prefix_kind slug ?x (prefix_recorded ?spec) i v u \<Longrightarrow>
      ensured psize prefix_kind slug ?x (cidr_recorded node ?x) i v u" for i u
    by (erule ensured_mono) (simp add: prefix_recorded_def cidr_recorded_def)
  have step: "triple (\<lambda>w. view w = v) (EnsurePodCIDRPrefix api ?spec)
      (\<lambda>_ w. \<exists>i. ensured psize prefix_kind slug ?x (cidr_recorded node ?x) i v (view w))
      (\<lambda>_ w. view w = v \<or> (\<exists>i. ensured psize prefix_kind slug ?x (cidr_recorded node ?x) i v (view w)))"
    by (rule triple_post[OF EnsurePodCIDRPrefix_triple[OF law]]) (use tag rec in auto)
  show ?case
    unfolding ensure_prefixes.simps Let_def list.map by (rule ensure_cons_triple[OF step Cons.IH])
qed

interpretation prefix_sync: ensure_and_prune prefix_kind IpamPrefixes "''listing NetBox prefixes: %w''"
  findPrefixByExternalID "\<lambda>i err. Errorf ''deleting NetBox prefix (id %d): %w'' [AInt i, AErr err]"
  DeletePodCIDRPrefix nodePodCIDRExternalIDPrefix ListNodePodCIDRPrefixes DeleteNodePodCIDRPrefixes
  nod_Name "\<lambda>api managedTag node. ensure_prefixes api managedTag node (nod_PodCIDRs node)"
  cidr_recorded desired_prefixes syncNodePrefixes
proof unfold_locales
  fix psize v slug and view :: "'w \<Rightarrow> nb_view" and client and tag :: tag and s :: node
  assume "lawful psize view client" "tg_Slug tag = Some slug"
  then show "triple (\<lambda>w. view w = v) (ensure_prefixes client tag s (nod_PodCIDRs s))
      (\<lambda>xs w. loop_done psize prefix_kind slug (cidr_recorded s) (desired_prefixes s) v xs (view w))
      (\<lambda>_ w. loop_failed psize prefix_kind slug (cidr_recorded s) (desired_prefixes s) v (view w))"
    unfolding desired_prefixes_def by (rule ensure_prefixes_triple)
next
  fix x and s :: node
  assume "x \<in> set (desired_prefixes s)"
  then show "prefix (nodePodCIDRExternalIDPrefix (nod_Name s)) x"
    by (auto simp: desired_prefixes_def ExternalIDForNodePodCIDR_def)
next
  fix slug v v'
  assume "tag_ensured slug v v'"
  then show "k_get prefix_kind v' = k_get prefix_kind v" by (simp add: tag_ensured_tables prefix_kind_def)
qed (simp_all only: syncNodePrefixes_def, simp_all add: lawful_def DeletePodCIDRPrefix_def
    deletePrefix_def ListNodePodCIDRPrefixes_def DeleteNodePodCIDRPrefixes_def Let_def)

section \<open>Aggregates\<close>

definition deleteStalePodCIDRAggregates :: "'w netbox_api \<Rightarrow> string \<Rightarrow> ('w, unit) go" where
  "deleteStalePodCIDRAggregates api managedTagSlug =
     for_each podCIDRAddressFamilies (\<lambda>family.
       DeletePodCIDRAggregate api managedTagSlug (ExternalIDForPodCIDRAggregate family))"

definition aggregate_description :: "string \<Rightarrow> string" where
  "aggregate_description family = ''Kubernetes pod CIDR aggregate ('' @ family @ '')''"

text \<open>One family: its aggregate is ensured, or removed if no Node has a CIDR of the family.\<close>

definition sync_aggregate :: "'w netbox_api \<Rightarrow> string \<Rightarrow> string \<Rightarrow> tag \<Rightarrow> (string \<rightharpoonup> string) \<Rightarrow> string \<Rightarrow>
    ('w, unit) go" where
  "sync_aggregate api managedTagSlug rirName managedTag supernets family =
     (let externalID = ExternalIDForPodCIDRAggregate family in
      case supernets family of
        None \<Rightarrow> DeletePodCIDRAggregate api managedTagSlug externalID
      | Some cidr \<Rightarrow>
          bind (EnsurePodCIDRAggregate api
              \<lparr>as_CIDR = cidr, as_RIRName = rirName, as_Description = aggregate_description family,
               as_ExternalID = externalID, as_ManagedTag = managedTag\<rparr>) (\<lambda>_. ret ()))"

definition syncAggregates :: "('x, 'v) env \<Rightarrow> 'x world_scheme netbox_api \<Rightarrow> string \<Rightarrow> HeraldConfigSpec \<Rightarrow>
    ('x world_scheme, unit) go" where
  "syncAggregates env api managedTagSlug spec =
     (let podCIDRs = rc_PodCIDRs (hs_Resources spec) in
      if \<not> pc_Enabled podCIDRs then
        if pc_RetainOnDisable podCIDRs then ret ()
        else for_each podCIDRAddressFamilies (\<lambda>family.
          DeletePodCIDRAggregate api managedTagSlug (ExternalIDForPodCIDRAggregate family))
      else
        bind (wrap_err (\<lambda>err. Errorf ''listing nodes: %w'' [AErr err]) (ListNodes env)) (\<lambda>nodes.
        bind (for_each nodes (\<lambda>node. DeleteNodePodCIDRPrefixes api managedTagSlug (nod_Name node))) (\<lambda>_.
        case computeSupernets (concat (map nod_PodCIDRs nodes)) of
          Inl err \<Rightarrow> fail err
        | Inr supernets \<Rightarrow>
            bind (EnsureManagedTag api managedTagSlug) (\<lambda>managedTag.
            for_each podCIDRAddressFamilies
              (sync_aggregate api managedTagSlug (pc_RIRName podCIDRs) managedTag supernets)))))"

section \<open>Reconciling\<close>

definition syncPodCIDRStatus :: "('x, 'v) env \<Rightarrow> string \<Rightarrow> HeraldConfigSpec \<Rightarrow> error option \<Rightarrow> ('x world_scheme, unit) go" where
  "syncPodCIDRStatus env managedTagSlug spec syncErr =
     if_err (GetHeraldConfig env singletonName)
       (\<lambda>err. if IsNotFound err then ret () else fail err) (\<lambda>cr.
     bind StoreGet (\<lambda>(_, clientp).
     case clientp of
       None \<Rightarrow> ret ()
     | Some netboxClient \<Rightarrow>
         let podCIDRs = rc_PodCIDRs (hs_Resources spec); api = Netbox env netboxClient in
         bind (attempt (if pc_Representation podCIDRs = PodCIDRRepresentationAggregate
             then CountManagedAggregates api managedTagSlug
             else CountManagedPrefixes api managedTagSlug)) (\<lambda>count.
         bind (sync_status env (pc_Enabled podCIDRs) (hc_Generation cr) count syncErr) (\<lambda>status.
         bind (UpdateStatus env (cr\<lparr>hc_Status := (hc_Status cr)
           \<lparr>hc_Resources := (hc_Resources (hc_Status cr))\<lparr>st_PodCIDRs := status\<rparr>\<rparr>\<rparr>)) (\<lambda>_. ret ())))))"

definition reconcilePrefixForNode :: "('x, 'v) env \<Rightarrow> request \<Rightarrow> 'x world_scheme netbox_api \<Rightarrow> string \<Rightarrow> duration \<Rightarrow>
    HeraldConfigSpec \<Rightarrow> ('x world_scheme, result) go" where
  "reconcilePrefixForNode env req api managedTagSlug resyncInterval spec =
     (let podCIDRs = rc_PodCIDRs (hs_Resources spec);
          status = syncPodCIDRStatus env managedTagSlug spec;
          failed = (\<lambda>err. bind (status (Some err)) (\<lambda>_. ret no_requeue)) in
      if_err (deleteStalePodCIDRAggregates api managedTagSlug) failed (\<lambda>_.
      if_err (GetNode env (rq_Name req))
        (\<lambda>err. if IsNotFound err then
             if_err (DeleteNodePodCIDRPrefixes api managedTagSlug (rq_Name req)) failed (\<lambda>_.
             bind (status None) (\<lambda>_. ret no_requeue))
           else fail err) (\<lambda>node.
      if \<not> (pc_Enabled podCIDRs \<and> nod_PodCIDRs node \<noteq> []) then
        if_err (if pc_Enabled podCIDRs \<or> \<not> pc_RetainOnDisable podCIDRs
            then DeleteNodePodCIDRPrefixes api managedTagSlug (nod_Name node) else ret ())
          failed (\<lambda>_.
        bind (status None) (\<lambda>_. ret \<lparr>RequeueAfter = resyncInterval\<rparr>))
      else
        if_err (syncNodePrefixes api managedTagSlug node) failed (\<lambda>_.
        bind (status None) (\<lambda>_. ret \<lparr>RequeueAfter = resyncInterval\<rparr>)))))"

definition reconcileAggregates :: "('x, 'v) env \<Rightarrow> 'x world_scheme netbox_api \<Rightarrow> string \<Rightarrow> duration \<Rightarrow>
    HeraldConfigSpec \<Rightarrow> ('x world_scheme, result) go" where
  "reconcileAggregates env api managedTagSlug resyncInterval spec =
     if_err (syncAggregates env api managedTagSlug spec)
       (\<lambda>err. bind (syncPodCIDRStatus env managedTagSlug spec (Some err)) (\<lambda>_. ret no_requeue)) (\<lambda>_.
     bind (syncPodCIDRStatus env managedTagSlug spec None) (\<lambda>_.
     ret \<lparr>RequeueAfter = resyncInterval\<rparr>))"

definition reconcilePodCIDR :: "('x, 'v) env \<Rightarrow> request \<Rightarrow> ('x world_scheme, result) go" where
  "reconcilePodCIDR env req =
     bind StoreGet (\<lambda>(specp, clientp).
     case (specp, clientp) of
       (Some spec, Some netboxClient) \<Rightarrow>
         let managedTagSlug = resolveManagedTagSlug spec;
             resyncInterval = resolveResyncInterval spec;
             api = Netbox env netboxClient in
         if pc_Representation (rc_PodCIDRs (hs_Resources spec)) = PodCIDRRepresentationAggregate
         then reconcileAggregates env api managedTagSlug resyncInterval spec
         else reconcilePrefixForNode env req api managedTagSlug resyncInterval spec
     | _ \<Rightarrow> ret \<lparr>RequeueAfter = storeNotReadyPollInterval\<rparr>)"

definition enqueueAllNodesForPodCIDRs :: "('x, 'v) env \<Rightarrow> ('x world_scheme, request list) go" where
  "enqueueAllNodesForPodCIDRs env =
     if_err (ListNodes env) (\<lambda>_. ret [])
       (\<lambda>nodes. ret (map (\<lambda>node. \<lparr>rq_Namespace = '''', rq_Name = nod_Name node\<rparr>) nodes))"

end
