(* ===== verification/Reconcilers.thy ===== *)
theory Reconcilers
  imports Cluster_Controller Node_Controller Service_Controller PodCIDR_Controller
begin

text \<open>
  The five reconcilers together: the step of a controller manager and invariants of the world
  that every step keeps. The controllers use the \<open>netbox\<close> package
  through the functions listed in \<open>package_keeps\<close>; what those keep, a reconcile keeps.
\<close>

section \<open>Steps\<close>

datatype reconciler = HeraldConfigReconciler | ClusterReconciler | NodeReconciler | ServiceReconciler | PodCIDRReconciler

fun reconcile :: "reconciler \<Rightarrow> ('x, 'v) env \<Rightarrow> request \<Rightarrow> ('x world_scheme, result) go" where
  "reconcile HeraldConfigReconciler = reconcileHeraldConfig"
| "reconcile ClusterReconciler = reconcileCluster"
| "reconcile NodeReconciler = reconcileNode"
| "reconcile ServiceReconciler = reconcileService"
| "reconcile PodCIDRReconciler = reconcilePodCIDR"

section \<open>What the externals keep\<close>

text \<open>
  The calls that do not go to NetBox keep the invariant and do not panic, and the transports of
  the clients are of the type the sources assert.
\<close>

definition kube_keeps :: "('x world_scheme \<Rightarrow> bool) \<Rightarrow> ('x, 'v) env \<Rightarrow> bool" where
  "kube_keeps I env \<longleftrightarrow> (\<forall>n. keeps I (GetHeraldConfig env n)) \<and> (\<forall>ns n. keeps I (GetSecret env ns n)) \<and>
     (\<forall>n. keeps I (GetNamespace env n)) \<and> (\<forall>n. keeps I (GetNode env n)) \<and>
     (\<forall>ns n. keeps I (GetService env ns n)) \<and> keeps I (ListNodes env) \<and> keeps I (ListServices env) \<and>
     (\<forall>cr. keeps I (UpdateStatus env cr)) \<and> (\<forall>cs c. keeps I (SetStatusCondition env cs c)) \<and> keeps I (Now env) \<and>
     http_transports (Libs env)"

lemma kube_keepsD [keeps_rules]:
  assumes "kube_keeps I env"
  shows "keeps I (GetHeraldConfig env n)" "keeps I (GetSecret env ns n)" "keeps I (GetNamespace env n)"
    "keeps I (GetNode env n)" "keeps I (GetService env ns n)" "keeps I (ListNodes env)" "keeps I (ListServices env)"
    "keeps I (UpdateStatus env cr)" "keeps I (SetStatusCondition env cs c)" "keeps I (Now env)"
    "keeps I (Client (Libs env) cfg)"
  using assms by (simp_all add: kube_keeps_def Client_keeps)

lemma kube_transports: "kube_keeps I env \<Longrightarrow> http_transports (Libs env)"
  by (simp add: kube_keeps_def)

text \<open>The invariant survives the writes to the store: nil for both fields, or values for both.\<close>

definition store_stable :: "('x world_scheme \<Rightarrow> bool) \<Rightarrow> bool" where
  "store_stable I \<longleftrightarrow>
     (\<forall>w. I w \<longrightarrow> I (w\<lparr>w_store := \<lparr>sto_spec = None, sto_client = None\<rparr>\<rparr>)) \<and>
     (\<forall>w sp c. I w \<longrightarrow> I (w\<lparr>w_store := \<lparr>sto_spec = Some sp, sto_client = Some c\<rparr>\<rparr>)) \<and>
     (\<forall>w sp. I w \<longrightarrow> I (w\<lparr>w_store := (w_store w)\<lparr>sto_spec := map_option (\<lambda>_. sp) (sto_spec (w_store w))\<rparr>\<rparr>))"

lemma store_stableD [keeps_rules]:
  assumes "store_stable I"
  shows "keeps I (StoreSet None None)" "keeps I (StoreSet (Some sp) (Some c))" "keeps I (StoreDecoded sp)"
  using assms unfolding store_stable_def keeps_def
  by (auto intro!: triple_StoreSet triple_StoreDecoded)

lemma keeps_StoreGet [keeps_rules]: "keeps I StoreGet"
  unfolding keeps_def by (rule triple_StoreGet) simp

text \<open>\<open>T\<close> is what is known of the tag \<open>EnsureManagedTag\<close> returns.\<close>

definition package_keeps :: "('w \<Rightarrow> bool) \<Rightarrow> (tag \<Rightarrow> bool) \<Rightarrow> string \<Rightarrow> 'w netbox_api \<Rightarrow> bool" where
  "package_keeps I T slug api \<longleftrightarrow>
     triple I (EnsureManagedTag api slug) (\<lambda>t w. I w \<and> T t) (\<lambda>_. I) \<and>
     (\<forall>spec. T (cs_ManagedTag spec) \<longrightarrow> keeps I (EnsureCluster api spec)) \<and>
     (\<forall>x. keeps I (DeleteCluster api slug x)) \<and>
     (\<forall>spec. T (ds_ManagedTag spec) \<longrightarrow> keeps I (EnsureDevice api spec)) \<and>
     (\<forall>x. keeps I (DeleteDeviceByExternalID api slug x)) \<and> (\<forall>n. keeps I (DeleteDeviceByName api slug n)) \<and>
     keeps I (CountManagedDevices api slug) \<and>
     (\<forall>spec. T (vs_ManagedTag spec) \<longrightarrow> keeps I (EnsureVirtualMachine api spec)) \<and>
     (\<forall>x. keeps I (DeleteVirtualMachineByExternalID api slug x)) \<and>
     (\<forall>n. keeps I (DeleteVirtualMachineByName api slug n)) \<and> keeps I (CountManagedVirtualMachines api slug) \<and>
     (\<forall>svc. keeps I (syncServiceAddresses api slug svc)) \<and> (\<forall>ns n. keeps I (DeleteServiceIPs api slug ns n)) \<and>
     keeps I (CountManagedServiceIPs api slug) \<and>
     (\<forall>node. keeps I (syncNodePrefixes api slug node)) \<and> (\<forall>n. keeps I (DeleteNodePodCIDRPrefixes api slug n)) \<and>
     keeps I (CountManagedPrefixes api slug) \<and>
     (\<forall>spec. T (as_ManagedTag spec) \<longrightarrow> keeps I (EnsurePodCIDRAggregate api spec)) \<and>
     (\<forall>x. keeps I (DeletePodCIDRAggregate api slug x)) \<and> keeps I (CountManagedAggregates api slug)"

lemma package_keepsD:
  assumes "package_keeps I T slug api"
  shows "triple I (EnsureManagedTag api slug) (\<lambda>t w. I w \<and> T t) (\<lambda>_. I)"
    and "T (cs_ManagedTag cspec) \<Longrightarrow> keeps I (EnsureCluster api cspec)"
    and "keeps I (DeleteCluster api slug x)"
    and "T (ds_ManagedTag dspec) \<Longrightarrow> keeps I (EnsureDevice api dspec)"
    and "keeps I (DeleteDeviceByExternalID api slug x)" and "keeps I (DeleteDeviceByName api slug x)"
    and "keeps I (CountManagedDevices api slug)"
    and "T (vs_ManagedTag vspec) \<Longrightarrow> keeps I (EnsureVirtualMachine api vspec)"
    and "keeps I (DeleteVirtualMachineByExternalID api slug x)" and "keeps I (DeleteVirtualMachineByName api slug x)"
    and "keeps I (CountManagedVirtualMachines api slug)"
    and "keeps I (syncServiceAddresses api slug svc)" and "keeps I (DeleteServiceIPs api slug ns x)"
    and "keeps I (CountManagedServiceIPs api slug)"
    and "keeps I (syncNodePrefixes api slug node)" and "keeps I (DeleteNodePodCIDRPrefixes api slug x)"
    and "keeps I (CountManagedPrefixes api slug)"
    and "T (as_ManagedTag aspec) \<Longrightarrow> keeps I (EnsurePodCIDRAggregate api aspec)"
    and "keeps I (DeletePodCIDRAggregate api slug x)" and "keeps I (CountManagedAggregates api slug)"
  using assms unfolding package_keeps_def by blast+

section \<open>What the reconcilers keep\<close>

lemma sync_status_keeps [keeps_rules]: "kube_keeps I env \<Longrightarrow> keeps I (sync_status env en g count err)"
  unfolding sync_status_def Let_def by (intro keeps_rules)

lemma reconcileHeraldConfig_keeps:
  assumes kube: "kube_keeps I env" and st: "store_stable I"
    and "\<And>c. keeps I (CheckVersion (Libs env) (Netbox env c))" and "\<And>c slug. keeps I (EnsureManagedTag (Netbox env c) slug)"
    and "\<And>c. keeps I (EnsureExternalIDCustomField (Netbox env c))"
  shows "keeps I (reconcileHeraldConfig env req)"
  unfolding reconcileHeraldConfig_def reportUnreachable_def reportConnected_def Let_def
  by (intro keeps_ret keeps_fail keeps_if_err keeps_bind keeps_attempt keeps_if keeps_option keeps_sum keeps_prod
      config_keeps kube_keepsD[OF kube] store_stableD[OF st] assms(3-5))

text \<open>
  The resource reconcilers read the spec from the store once, at the start; \<open>S\<close> is what is
  known of the spec stored then. The client they use may be replaced under them.
\<close>

definition store_spec :: "(HeraldConfigSpec \<Rightarrow> bool) \<Rightarrow> 'x world_scheme \<Rightarrow> bool" where
  "store_spec S w \<longleftrightarrow> (\<forall>spec. sto_spec (w_store w) = Some spec \<longrightarrow> S spec)"

lemma keeps_when: "keeps I m \<Longrightarrow> triple (\<lambda>w. I w \<and> P w) m (\<lambda>_. I) (\<lambda>_. I)"
  unfolding keeps_def by (erule triple_weaken) simp_all

lemma StoreGet_then:
  assumes "\<And>sp c. (\<And>spec. sp = Some spec \<Longrightarrow> S spec) \<Longrightarrow> keeps I (k (sp, c))"
  shows "triple (\<lambda>w. I w \<and> store_spec S w) (bind StoreGet k) (\<lambda>_. I) (\<lambda>_. I)"
proof (rule triple_bind_fact[where F = "\<lambda>p. \<forall>spec. fst p = Some spec \<longrightarrow> S spec"])
  show "triple (\<lambda>w. I w \<and> store_spec S w) StoreGet
      (\<lambda>p w. (I w \<and> store_spec S w) \<and> (\<forall>spec. fst p = Some spec \<longrightarrow> S spec)) (\<lambda>_. I)"
    by (rule triple_StoreGet) (simp add: store_spec_def)
  fix p :: "HeraldConfigSpec option \<times> netbox_client option"
  assume "\<forall>spec. fst p = Some spec \<longrightarrow> S spec"
  then show "triple (\<lambda>w. I w \<and> store_spec S w) (k p) (\<lambda>_. I) (\<lambda>_. I)"
    using keeps_when[OF assms[of "fst p" "snd p"]] by simp
qed

lemma reconcileCluster_keeps:
  assumes kube: "kube_keeps I env"
    and pkg: "\<And>spec c. S spec \<Longrightarrow> package_keeps I T (resolveManagedTagSlug spec) (Netbox env c)"
  shows "triple (\<lambda>w. I w \<and> store_spec S w) (reconcileCluster env req) (\<lambda>_. I) (\<lambda>_. I)"
proof (cases "rq_Name req = singletonName")
  case True
  note ops = package_keepsD[OF pkg]
  show ?thesis
    unfolding reconcileCluster_def reportClusterSyncError_def updateClusterStatus_def Let_def prod.case
      if_not_P[OF not_not[THEN iffD2, OF True]]
    by (rule StoreGet_then)
      (auto intro!: keeps_rules kube keeps_if_err_fact[OF ops(1)] ops)
qed (simp add: reconcileCluster_def keeps_when keeps_ret)

lemma ensureNode_keeps:
  assumes "package_keeps I T slug api" and "T managedTag"
  shows "keeps I (ensureNode api spec node managedTag)"
  unfolding ensureNode_def Let_def
  using assms by (auto intro!: keeps_rules package_keepsD)

lemma syncNodesStatus_keeps:
  assumes "kube_keeps I env" and "\<And>c. keeps I (CountManagedDevices (Netbox env c) slug)"
    and "\<And>c. keeps I (CountManagedVirtualMachines (Netbox env c) slug)"
  shows "keeps I (syncNodesStatus env slug spec err)"
  unfolding syncNodesStatus_def Let_def
  by (auto intro!: keeps_rules assms)

lemma reconcileNode_keeps:
  assumes kube: "kube_keeps I env"
    and pkg: "\<And>spec c. S spec \<Longrightarrow> package_keeps I T (resolveManagedTagSlug spec) (Netbox env c)"
  shows "triple (\<lambda>w. I w \<and> store_spec S w) (reconcileNode env req) (\<lambda>_. I) (\<lambda>_. I)"
  unfolding reconcileNode_def deleteNodeByName_def deleteNodeByExternalID_def Let_def prod.case
  by (rule StoreGet_then)
    (auto intro!: keeps_rules kube keeps_if_err_fact[OF package_keepsD(1)[OF pkg]] package_keepsD[OF pkg]
      ensureNode_keeps[OF pkg] syncNodesStatus_keeps[OF kube package_keepsD(7,11)[OF pkg]])

lemma syncServicesStatus_keeps:
  assumes "kube_keeps I env" and "\<And>c. keeps I (CountManagedServiceIPs (Netbox env c) slug)"
  shows "keeps I (syncServicesStatus env slug spec err)"
  unfolding syncServicesStatus_def
  by (auto intro!: keeps_rules assms)

lemma reconcileService_keeps:
  assumes kube: "kube_keeps I env"
    and pkg: "\<And>spec c. S spec \<Longrightarrow> package_keeps I T (resolveManagedTagSlug spec) (Netbox env c)"
  shows "triple (\<lambda>w. I w \<and> store_spec S w) (reconcileService env req) (\<lambda>_. I) (\<lambda>_. I)"
  unfolding reconcileService_def Let_def prod.case
  by (rule StoreGet_then)
    (auto intro!: keeps_rules kube package_keepsD[OF pkg] syncServicesStatus_keeps[OF kube package_keepsD(14)[OF pkg]])

lemma syncPodCIDRStatus_keeps:
  assumes "kube_keeps I env" and "\<And>c. keeps I (CountManagedAggregates (Netbox env c) slug)"
    and "\<And>c. keeps I (CountManagedPrefixes (Netbox env c) slug)"
  shows "keeps I (syncPodCIDRStatus env slug spec err)"
  unfolding syncPodCIDRStatus_def Let_def
  by (auto intro!: keeps_rules assms)

lemma syncAggregates_keeps:
  assumes "kube_keeps I env" and pkg: "package_keeps I T slug api"
  shows "keeps I (syncAggregates env api slug spec)"
  unfolding syncAggregates_def sync_aggregate_def Let_def
  by (auto intro!: keeps_rules assms(1) keeps_bind_fact[OF package_keepsD(1)[OF pkg]] package_keepsD[OF pkg])

lemma reconcilePodCIDR_keeps:
  assumes kube: "kube_keeps I env"
    and pkg: "\<And>spec c. S spec \<Longrightarrow> package_keeps I T (resolveManagedTagSlug spec) (Netbox env c)"
  shows "triple (\<lambda>w. I w \<and> store_spec S w) (reconcilePodCIDR env req) (\<lambda>_. I) (\<lambda>_. I)"
  unfolding reconcilePodCIDR_def reconcilePrefixForNode_def reconcileAggregates_def
    deleteStalePodCIDRAggregates_def Let_def prod.case
  by (rule StoreGet_then)
    (auto intro!: keeps_rules kube package_keepsD[OF pkg] syncPodCIDRStatus_keeps[OF kube package_keepsD(20,17)[OF pkg]]
      syncAggregates_keeps[OF kube pkg])

section \<open>No panic, whatever NetBox does\<close>

text \<open>The loops over desired objects keep what creating or updating one of them keeps.\<close>

lemma ensure_addresses_keeps:
  assumes "\<And>spec. is_ManagedTag spec = managedTag \<Longrightarrow> keeps I (EnsureServiceIP api spec)"
  shows "keeps I (ensure_addresses api managedTag svc ips)"
  by (induction ips) (auto simp: Let_def intro!: keeps_bind keeps_ret keeps_fail assms split: sum.splits)

lemma ensure_prefixes_keeps:
  assumes "\<And>spec. ps_ManagedTag spec = managedTag \<Longrightarrow> keeps I (EnsurePodCIDRPrefix api spec)"
  shows "keeps I (ensure_prefixes api managedTag node cidrs)"
  by (induction cidrs) (auto simp: Let_def intro!: keeps_bind keeps_ret keeps_fail assms)

lemma api_package_keeps:
  assumes api: "api_keeps I api"
  shows "package_keeps I (\<lambda>t. tg_Slug t \<noteq> None) slug api"
proof -
  have ips: "ep_keeps I (IpamIPAddresses api)" and pfx: "ep_keeps I (IpamPrefixes api)"
    using api by (simp_all add: api_keeps_def)
  have "keeps I (syncServiceAddresses api slug svc)" for svc
    by (rule service_sync.sync_keeps[OF api ips]) (rule ensure_addresses_keeps, use api in \<open>simp add: keeps_rules\<close>)
  moreover have "keeps I (syncNodePrefixes api slug node)" for node
    by (rule prefix_sync.sync_keeps[OF api pfx]) (rule ensure_prefixes_keeps, use api in \<open>simp add: keeps_rules\<close>)
  ultimately show ?thesis
    unfolding package_keeps_def
    by (intro conjI allI impI EnsureManagedTag_slug[OF api] keeps_rules api)
qed

definition externals_keep :: "('x world_scheme \<Rightarrow> bool) \<Rightarrow> ('x, 'v) env \<Rightarrow> bool" where
  "externals_keep I env \<longleftrightarrow> kube_keeps I env \<and> (\<forall>c. api_keeps I (Netbox env c))"

lemma reconcile_keeps:
  assumes ext: "externals_keep I env" and st: "store_stable I"
  shows "keeps I (reconcile r env req)"
proof -
  have kube: "kube_keeps I env" and api: "api_keeps I (Netbox env c)" for c
    using ext by (simp_all add: externals_keep_def)
  have all: "keeps I m" if "triple (\<lambda>w. I w \<and> store_spec (\<lambda>_. True) w) m (\<lambda>_. I) (\<lambda>_. I)" for m :: "('a world_scheme, result) go"
    using that by (simp add: keeps_def store_spec_def)
  note pkg = api_package_keeps[OF api]
  show ?thesis
  proof (cases r)
    case HeraldConfigReconciler
    have "keeps I (reconcileHeraldConfig env req)"
      by (rule reconcileHeraldConfig_keeps[OF kube st]) (intro keeps_rules api)+
    with HeraldConfigReconciler show ?thesis by simp
  next
    case ClusterReconciler
    then show ?thesis by (simp add: all[OF reconcileCluster_keeps[OF kube pkg]])
  next
    case NodeReconciler
    then show ?thesis by (simp add: all[OF reconcileNode_keeps[OF kube pkg]])
  next
    case ServiceReconciler
    then show ?thesis by (simp add: all[OF reconcileService_keeps[OF kube pkg]])
  next
    case PodCIDRReconciler
    then show ?thesis by (simp add: all[OF reconcilePodCIDR_keeps[OF kube pkg]])
  qed
qed

lemma store_ok_stable: "store_stable (\<lambda>w. store_ok (w_store w))"
  by (simp add: store_stable_def store_ok_def)

section \<open>The hypotheses on the environment\<close>

text \<open>
  Kubernetes calls, the clock and the condition helper do not change NetBox, the store is not
  NetBox, and every client talks to a NetBox that behaves as documented.
\<close>

definition lawful_world :: "nat \<Rightarrow> ('x world_scheme \<Rightarrow> nb_view) \<Rightarrow> ('x, 'v) env \<Rightarrow> bool" where
  "lawful_world psize view env \<longleftrightarrow> (\<forall>v. kube_keeps (\<lambda>w. view w = v) env) \<and>
     (\<forall>c. lawful psize view (Netbox env c)) \<and> (\<forall>w st. view (w\<lparr>w_store := st\<rparr>) = view w)"

end
