(* ===== verification/Manager.thy ===== *)
theory Manager
  imports Reconcilers
begin

text \<open>
  \<open>cmd/main.go\<close> builds one empty store, hands it to the five reconcilers and starts the
  manager, which calls them over and over with requests of its choosing. The step relation
  below is that loop: a reconcile of any reconciler with any request, or a change of the world
  by somebody else, who has no access to the store. What happens while an external call of a
  reconcile is in flight is part of that call.
\<close>

inductive manager_step :: "('x, 'v) env \<Rightarrow> 'x world_scheme \<Rightarrow> 'x world_scheme \<Rightarrow> bool"
  for env :: "('x, 'v) env" where
  reconciled: "reconcile r env req w = (out, w') \<Longrightarrow> manager_step env w w'"
| elsewhere: "w_store w' = w_store w \<Longrightarrow> manager_step env w w'"

inductive reachable :: "('x, 'v) env \<Rightarrow> 'x world_scheme \<Rightarrow> bool" for env :: "('x, 'v) env" where
  start: "w_store w = NewStore \<Longrightarrow> reachable env w"
| later: "reachable env w \<Longrightarrow> manager_step env w w' \<Longrightarrow> reachable env w'"

inductive_cases manager_stepE: "manager_step env w w'"

lemma reachable_store_ok:
  assumes ext: "externals_keep (\<lambda>w. store_ok (w_store w)) env" and "reachable env w"
  shows "store_ok (w_store w)"
  using assms(2)
proof induction
  case (start w)
  then show ?case by (simp add: store_ok_new)
next
  case (later w w')
  from later(2) show ?case
  proof (rule manager_stepE)
    fix r req out
    assume run: "reconcile r env req w = (out, w')"
    have "keeps (\<lambda>w. store_ok (w_store w)) (reconcile r env req)"
      by (rule reconcile_keeps[OF ext store_ok_stable])
    then show ?thesis using run later(3) by (cases out) (auto simp: keeps_def triple_def)
  qed (use later(3) in simp)
qed

end
