(* ===== verification/NetBox_Memory.thy ===== *)
theory NetBox_Memory
  imports Config_Store
begin

text \<open>
  A NetBox in memory: a concrete, executable instance of the parameter \<open>netbox_api\<close>. It
  satisfies the laws that the other theories assume of NetBox (\<open>lawful\<close>), so those hypotheses
  can hold, and runs of the translated functions can be evaluated on it. The world also has
  room for the Kubernetes objects that \<open>Kubernetes_Memory\<close> serves.
\<close>

section \<open>Tables\<close>

text \<open>Row \<open>i\<close> of a table has the ID \<open>i + 1\<close>; a deleted row stays behind as \<open>None\<close>, so no ID is
  given out twice.\<close>

type_synonym 'd table = "'d option list"

fun rows :: "int \<Rightarrow> 'd table \<Rightarrow> (int \<times> 'd) list" where
  "rows k [] = []"
| "rows k (None # t) = rows (k + 1) t"
| "rows k (Some d # t) = (k, d) # rows (k + 1) t"

definition tbl :: "'d table \<Rightarrow> int \<rightharpoonup> 'd" where
  "tbl t = map_of (rows 1 t)"

lemma rows_key: "(i, d) \<in> set (rows k t) \<Longrightarrow> k \<le> i"
  by (induction k t rule: rows.induct) fastforce+

lemma rows_distinct: "distinct (map fst (rows k t))"
  by (induction k t rule: rows.induct) (auto dest: rows_key)

lemma rows_iff: "(i, d) \<in> set (rows k t) \<longleftrightarrow> k \<le> i \<and> nat (i - k) < length t \<and> t ! nat (i - k) = Some d"
proof (induction k t rule: rows.induct)
  case (2 k t)
  have "nat (i - k) - Suc 0 = nat (i - (k + 1))" by arith
  with 2 show ?case by (cases "i = k") (auto simp: nth_Cons')
next
  case (3 k e t)
  have "nat (i - k) - Suc 0 = nat (i - (k + 1))" by arith
  with 3 show ?case by (cases "i = k") (auto simp: nth_Cons')
qed simp

lemma tbl_iff: "tbl t i = Some d \<longleftrightarrow> 1 \<le> i \<and> nat (i - 1) < length t \<and> t ! nat (i - 1) = Some d"
  unfolding tbl_def map_of_eq_Some_iff[OF rows_distinct] by (rule rows_iff)

lemma tbl_mem: "tbl t i = Some d \<longleftrightarrow> (i, d) \<in> set (rows 1 t)"
  unfolding tbl_def by (rule map_of_eq_Some_iff[OF rows_distinct])

lemma finite_tbl [simp]: "finite (dom (tbl t))"
  by (simp add: tbl_def finite_dom_map_of)

lemma tbl_fresh: "tbl t (1 + int (length t)) = None"
  by (rule ccontr) (auto simp: tbl_iff)

lemma tbl_append: "tbl (t @ [Some d]) = (tbl t)(1 + int (length t) \<mapsto> d)"
proof
  fix i
  have "tbl (t @ [Some d]) i = Some e \<longleftrightarrow> ((tbl t)(1 + int (length t) \<mapsto> d)) i = Some e" for e
    by (auto simp: tbl_iff nth_append split: if_splits)
  then show "tbl (t @ [Some d]) i = ((tbl t)(1 + int (length t) \<mapsto> d)) i"
    by (metis not_None_eq)
qed

lemma tbl_put:
  assumes "tbl t i \<noteq> None"
  shows "tbl (t[nat (i - 1) := Some d]) = (tbl t)(i \<mapsto> d)"
proof
  fix j
  from assms have i: "1 \<le> i" "nat (i - 1) < length t" by (auto simp: tbl_iff)
  have "tbl (t[nat (i - 1) := Some d]) j = Some e \<longleftrightarrow> ((tbl t)(i \<mapsto> d)) j = Some e" for e
    using i by (auto simp: tbl_iff nth_list_update nat_eq_iff)
  then show "tbl (t[nat (i - 1) := Some d]) j = ((tbl t)(i \<mapsto> d)) j"
    by (metis not_None_eq)
qed

lemma tbl_drop:
  assumes "tbl t i \<noteq> None"
  shows "tbl (t[nat (i - 1) := None]) = tbl t |` (- {i})"
proof
  fix j
  from assms have i: "1 \<le> i" "nat (i - 1) < length t" by (auto simp: tbl_iff)
  have "tbl (t[nat (i - 1) := None]) j = Some e \<longleftrightarrow> (tbl t |` (- {i})) j = Some e" for e
    using i by (auto simp: tbl_iff nth_list_update nat_eq_iff restrict_map_def)
  then show "tbl (t[nat (i - 1) := None]) j = (tbl t |` (- {i})) j"
    by (metis not_None_eq)
qed

section \<open>The endpoint of one table\<close>

definition mem_list :: "nat \<Rightarrow> ('o, 'd writable_scheme) kind \<Rightarrow> (int \<Rightarrow> 'd writable_scheme \<Rightarrow> 'p) \<Rightarrow>
    'd writable_scheme table \<Rightarrow> list_params \<Rightarrow> 'p page" where
  "mem_list psize K display t p =
     (let hits = filter (\<lambda>(i, d). selects K p d) (rows 1 t) in
      \<lparr>pg_Count = Some (word_of_nat (length hits)),
       pg_Results = map (\<lambda>(i, d). display i d) (take (page_size psize p) hits)\<rparr>)"

definition mem_ep :: "nat \<Rightarrow> ('o, 'd writable_scheme) kind \<Rightarrow> (int \<Rightarrow> 'd writable_scheme \<Rightarrow> 'p) \<Rightarrow>
    ('w \<Rightarrow> 'd writable_scheme table) \<Rightarrow> (('d writable_scheme table \<Rightarrow> 'd writable_scheme table) \<Rightarrow> 'w \<Rightarrow> 'w) \<Rightarrow>
    ('p, 'd writable_scheme, 'w) endpoint" where
  "mem_ep psize K display get upd =
     \<lparr>ep_list = (\<lambda>p w. (Ok (mem_list psize K display (get w) p), w)),
      ep_create = (\<lambda>d w. (Ok (display (1 + int (length (get w))) d), upd (\<lambda>t. t @ [Some d]) w)),
      ep_update = (\<lambda>i d w. if tbl (get w) i = None then (Err (Opaque ''not found''), w)
         else (Ok (display i d), upd (\<lambda>t. t[nat (i - 1) := Some d]) w)),
      ep_delete = (\<lambda>i w. if tbl (get w) i = None then (Err (Opaque ''not found''), w)
         else (Ok (), upd (\<lambda>t. t[nat (i - 1) := None]) w))\<rparr>"

lemma selects_case: "selects K p d \<longleftrightarrow> (\<forall>s \<in> set (lp_Tag p). has_tag s d) \<and>
    (case lp_Name p of None \<Rightarrow> True | Some n \<Rightarrow> k_name K d = Some n)"
  by (auto simp: selects_def split: option.splits)

lemma selects_admits: "selects K p d \<Longrightarrow> admits K p d"
  by (auto simp: selects_def admits_def)

lemma k_upd_const:
  assumes ok: "kind_ok K" and m: "m = f (k_get K v)"
  shows "k_upd K (\<lambda>_. m) v = k_upd K f v"
proof -
  have "k_upd K f v = k_upd K (\<lambda>_. m) (k_upd K f v)"
    using ok m unfolding kind_ok_def by metis
  also have "\<dots> = k_upd K ((\<lambda>_. m) \<circ> f) v"
    using ok unfolding kind_ok_def by blast
  finally show ?thesis by (simp add: comp_def)
qed

locale memory_table =
  fixes K :: "('o nb_object_scheme, 'd writable_scheme) kind"
    and display :: "int \<Rightarrow> 'd writable_scheme \<Rightarrow> 'o nb_object_scheme"
    and get :: "'w \<Rightarrow> 'd writable_scheme table"
    and upd :: "('d writable_scheme table \<Rightarrow> 'd writable_scheme table) \<Rightarrow> 'w \<Rightarrow> 'w"
    and view :: "'w \<Rightarrow> nb_view"
  assumes kind: "kind_ok K"
    and display: "displays K d (display i d)" "ob_ID (display i d) = i"
    and keeps_refl: "k_keeps K d d"
    and view_get: "k_get K (view w) = tbl (get w)"
    and view_upd: "view (upd f w) = k_upd K (\<lambda>_. tbl (f (get w))) (view w)"
begin

lemma stored: "stored_as K d d"
  by (simp add: stored_as_def keeps_refl)

lemma hits: "set (filter (\<lambda>(i, d). selects K p d) (rows 1 (get w))) =
    {(i, d). k_get K (view w) i = Some d \<and> selects K p d}"
  by (auto simp: view_get tbl_mem)

lemma hits_selected: "fst ` set (filter (\<lambda>(i, d). selects K p d) (rows 1 (get w))) = selected K p (view w)"
  unfolding hits selected_def by force

lemma hits_length: "length (filter (\<lambda>(i, d). selects K p d) (rows 1 (get w))) = card (selected K p (view w))"
proof -
  have "distinct (map fst (filter (\<lambda>(i, d). selects K p d) (rows 1 (get w))))"
    by (rule distinct_map_filter[OF rows_distinct])
  from distinct_card[OF this] show ?thesis by (simp only: set_map hits_selected length_map)
qed

lemma listing: "listing psize K p (view w) (mem_list psize K display (get w) p)"
proof -
  let ?hits = "filter (\<lambda>(i, d). selects K p d) (rows 1 (get w))"
  let ?pg = "mem_list psize K display (get w) p"
  have res: "pg_Results ?pg = map (\<lambda>(i, d). display i d) (take (page_size psize p) ?hits)"
    by (simp add: mem_list_def Let_def)
  have "\<exists>d. k_get K (view w) (ob_ID ob) = Some d \<and> admits K p d \<and> displays K d ob" if ob: "ob \<in> set (pg_Results ?pg)" for ob
  proof -
    from ob obtain i d where "(i, d) \<in> set (take (page_size psize p) ?hits)" and eq: "ob = display i d"
      unfolding res by auto
    then have "(i, d) \<in> set ?hits" by (blast dest: in_set_takeD)
    then have "k_get K (view w) i = Some d" "selects K p d" by (simp_all only: hits mem_Collect_eq prod.case)
    then show ?thesis using display selects_admits eq by metis
  qed
  moreover have "selected K p (view w) \<subseteq> ob_ID ` set (pg_Results ?pg)"
    if "card (candidates K p (view w)) \<le> page_size psize p"
  proof -
    have "selected K p (view w) \<subseteq> candidates K p (view w)"
      by (auto simp: selected_def candidates_def selects_admits)
    moreover have "finite (candidates K p (view w))"
      by (rule finite_subset[of _ "dom (k_get K (view w))"]) (auto simp: candidates_def view_get)
    ultimately have "length ?hits \<le> page_size psize p"
      using that card_mono hits_length order_trans by metis
    then have "pg_Results ?pg = map (\<lambda>(i, d). display i d) ?hits" by (simp only: res take_all)
    then have "ob_ID ` set (pg_Results ?pg) = (\<lambda>(i, d). ob_ID (display i d)) ` set ?hits" by force
    also have "\<dots> = fst ` set ?hits" by (simp add: display(2) case_prod_unfold)
    finally show ?thesis by (simp only: hits_selected)
  qed
  moreover have "pg_Count ?pg = Some (word_of_nat (card (selected K p (view w))))"
    by (simp only: mem_list_def Let_def page.simps hits_length)
  ultimately show ?thesis unfolding listing_def by blast
qed

lemma created_row:
  "created K d (display (1 + int (length (get w))) d) (view w) (view (upd (\<lambda>t. t @ [Some d]) w))"
proof -
  have "view (upd (\<lambda>t. t @ [Some d]) w) = put_obj K (1 + int (length (get w))) d (view w)"
    unfolding view_upd put_obj_def by (rule k_upd_const[OF kind]) (simp only: view_get tbl_append)
  moreover have "k_get K (view w) (1 + int (length (get w))) = None" by (simp only: view_get tbl_fresh)
  ultimately show ?thesis unfolding created_def display(2) using stored by blast
qed

lemma updated_row:
  assumes "tbl (get w) i \<noteq> None"
  shows "updated K i d (view w) (view (upd (\<lambda>t. t[nat (i - 1) := Some d]) w))"
proof -
  have "view (upd (\<lambda>t. t[nat (i - 1) := Some d]) w) = put_obj K i d (view w)"
    unfolding view_upd put_obj_def by (rule k_upd_const[OF kind]) (simp only: view_get tbl_put[OF assms])
  moreover have "k_get K (view w) i \<noteq> None" using assms by (simp only: view_get not_False_eq_True)
  ultimately show ?thesis unfolding updated_def using stored by blast
qed

lemma dropped_row:
  assumes "tbl (get w) i \<noteq> None"
  shows "view (upd (\<lambda>t. t[nat (i - 1) := None]) w) = drop_ids K {i} (view w)"
  unfolding view_upd drop_ids_def by (rule k_upd_const[OF kind]) (simp only: view_get tbl_drop[OF assms])

lemma lawful_mem_ep: "lawful_ep psize view K (mem_ep psize K display get upd)"
  unfolding lawful_ep_def
proof (intro conjI allI)
  fix w
  show "finite (dom (k_get K (view w)))" by (simp add: view_get)
next
  fix p v
  show "triple (\<lambda>w. view w = v) (ep_list (mem_ep psize K display get upd) p)
      (\<lambda>pg w. view w = v \<and> listing psize K p v pg) (\<lambda>_ w. view w = v)"
    using listing by (auto simp: triple_def mem_ep_def)
next
  fix d v
  show "triple (\<lambda>w. view w = v) (ep_create (mem_ep psize K display get upd) d)
      (\<lambda>ob w. created K d ob v (view w)) (\<lambda>_ w. view w = v \<or> (\<exists>ob. created K d ob v (view w)))"
    using created_row by (auto simp: triple_def mem_ep_def)
next
  fix i d v
  show "triple (\<lambda>w. view w = v) (ep_update (mem_ep psize K display get upd) i d)
      (\<lambda>ob w. ob_ID ob = i \<and> updated K i d v (view w)) (\<lambda>_ w. view w = v \<or> updated K i d v (view w))"
    using updated_row display(2) by (auto simp: triple_def mem_ep_def)
next
  fix i v
  show "triple (\<lambda>w. view w = v) (ep_delete (mem_ep psize K display get upd) i)
      (\<lambda>_ w. view w = drop_ids K {i} v) (\<lambda>_ w. view w = v \<or> view w = drop_ids K {i} v)"
    using dropped_row by (auto simp: triple_def mem_ep_def)
qed

end

section \<open>The world\<close>

record memory = world +
  m_clusters :: "writable_cluster table"
  m_devices :: "writable_device table"
  m_vms :: "writable_vm table"
  m_ips :: "writable_ip table"
  m_prefixes :: "writable_prefix table"
  m_aggregates :: "writable_aggregate table"
  m_tags :: "tag_data table"
  m_fields :: "custom_field_data table"
  m_refs :: "(ref_kind \<times> string \<times> int) list"
  k_config :: "HeraldConfig option"
  k_secrets :: "string \<Rightarrow> string \<Rightarrow> secret option"
  k_namespaces :: "string \<rightharpoonup> namespace"
  k_nodes :: "node list"
  k_services :: "service list"
  k_now :: time

definition mem_view :: "memory \<Rightarrow> nb_view" where
  "mem_view w =
     \<lparr>v_clusters = tbl (m_clusters w), v_devices = tbl (m_devices w), v_vms = tbl (m_vms w),
      v_ips = tbl (m_ips w), v_prefixes = tbl (m_prefixes w), v_aggregates = tbl (m_aggregates w),
      v_tags = tbl (m_tags w), v_fields = tbl (m_fields w),
      v_refs = (\<lambda>k n. {i. (k, n, i) \<in> set (m_refs w)})\<rparr>"

definition display_named :: "('d writable_scheme \<Rightarrow> string) \<Rightarrow> int \<Rightarrow> 'd writable_scheme \<Rightarrow> nb_named" where
  "display_named name i d = \<lparr>ob_ID = i, ob_CustomFields = wr_CustomFields d, ob_Name = Some (name d)\<rparr>"

definition display_object :: "int \<Rightarrow> 'd writable_scheme \<Rightarrow> nb_object" where
  "display_object i d = \<lparr>ob_ID = i, ob_CustomFields = wr_CustomFields d\<rparr>"

lemma kept_opt_refl [simp]: "kept_opt a a"
  by (simp add: kept_opt_def)

lemmas memory_defs = mem_view_def display_named_def display_object_def displays_def ext_of_def kind_defs

interpretation mem_cluster: memory_table cluster_kind "display_named wc_Name" m_clusters m_clusters_update mem_view
  by unfold_locales (simp_all only: kind_ok_kinds, simp_all add: memory_defs)

interpretation mem_device: memory_table device_kind "display_named wd_Name" m_devices m_devices_update mem_view
  by unfold_locales (simp_all only: kind_ok_kinds, simp_all add: memory_defs)

interpretation mem_vm: memory_table vm_kind "display_named wv_Name" m_vms m_vms_update mem_view
  by unfold_locales (simp_all only: kind_ok_kinds, simp_all add: memory_defs)

interpretation mem_ip: memory_table ip_kind display_object m_ips m_ips_update mem_view
  by unfold_locales (simp_all only: kind_ok_kinds, simp_all add: memory_defs)

interpretation mem_prefix: memory_table prefix_kind display_object m_prefixes m_prefixes_update mem_view
  by unfold_locales (simp_all only: kind_ok_kinds, simp_all add: memory_defs)

interpretation mem_aggregate: memory_table aggregate_kind display_object m_aggregates m_aggregates_update mem_view
  by unfold_locales (simp_all only: kind_ok_kinds, simp_all add: memory_defs)

section \<open>The other endpoints\<close>

definition all_of :: "'o list \<Rightarrow> 'o page" where
  "all_of xs = \<lparr>pg_Count = Some (word_of_nat (length xs)), pg_Results = xs\<rparr>"

definition refs_of :: "memory \<Rightarrow> ref_kind \<Rightarrow> string option \<Rightarrow> (string \<times> int) list" where
  "refs_of w k n = map snd (filter (\<lambda>(k', n', _). k' = k \<and> n = Some n') (m_refs w))"

definition mem_refs :: "ref_kind \<Rightarrow> list_params \<Rightarrow> (memory, nb_ref page) go" where
  "mem_refs k p = (\<lambda>w. (Ok (all_of (map (\<lambda>(n, i). \<lparr>rf_ID = i, rf_Name = Some n\<rparr>) (refs_of w k (lp_Name p)))), w))"

definition mem_device_types :: "list_params \<Rightarrow> (memory, device_type page) go" where
  "mem_device_types p =
     (\<lambda>w. (Ok (all_of (map (\<lambda>(n, i). \<lparr>dt_ID = i, dt_Model = Some n\<rparr>) (refs_of w RDeviceType (lp_Model p)))), w))"

definition display_tag :: "int \<Rightarrow> tag_data \<Rightarrow> tag" where
  "display_tag i d = \<lparr>tg_ID = i, tg_Name = Some (td_Name d), tg_Slug = Some (td_Slug d)\<rparr>"

definition mem_tags :: "list_params \<Rightarrow> (memory, tag page) go" where
  "mem_tags p = (\<lambda>w. (Ok (all_of (map (\<lambda>(i, d). display_tag i d)
     (filter (\<lambda>(_, d). lp_Slug p = Some (td_Slug d)) (rows 1 (m_tags w))))), w))"

definition mem_tag_create :: "tag_data \<Rightarrow> (memory, tag) go" where
  "mem_tag_create d =
     (\<lambda>w. (Ok (display_tag (1 + int (length (m_tags w))) d), m_tags_update (\<lambda>t. t @ [Some d]) w))"

definition mem_fields :: "list_params \<Rightarrow> (memory, custom_field page) go" where
  "mem_fields p = (\<lambda>w. (Ok (all_of (map (\<lambda>(_, d). \<lparr>cf_Name = Some (cd_Name d)\<rparr>)
     (filter (\<lambda>(_, d). lp_Name p = Some (cd_Name d)) (rows 1 (m_fields w))))), w))"

definition mem_field_create :: "custom_field_data \<Rightarrow> (memory, custom_field) go" where
  "mem_field_create d = (\<lambda>w. (Ok \<lparr>cf_Name = Some (cd_Name d)\<rparr>, m_fields_update (\<lambda>t. t @ [Some d]) w))"

definition mem_api :: "nat \<Rightarrow> memory netbox_api" where
  "mem_api psize =
     \<lparr>StatusList = ret (GMap [(''netbox-version'', GString ''4.3.1'')]),
      ExtrasTagsList = mem_tags, ExtrasTagsCreate = mem_tag_create,
      ExtrasCustomFieldsList = mem_fields, ExtrasCustomFieldsCreate = mem_field_create,
      DcimSitesList = mem_refs RSite, VirtualizationClusterTypesList = mem_refs RClusterType,
      VirtualizationClusterGroupsList = mem_refs RClusterGroup, DcimDeviceRolesList = mem_refs RDeviceRole,
      DcimDeviceTypesList = mem_device_types, IpamRirsList = mem_refs RRIR, DcimPlatformsList = mem_refs RPlatform,
      VirtualizationClusters = mem_ep psize cluster_kind (display_named wc_Name) m_clusters m_clusters_update,
      DcimDevices = mem_ep psize device_kind (display_named wd_Name) m_devices m_devices_update,
      VirtualizationVirtualMachines = mem_ep psize vm_kind (display_named wv_Name) m_vms m_vms_update,
      IpamIPAddresses = mem_ep psize ip_kind display_object m_ips m_ips_update,
      IpamPrefixes = mem_ep psize prefix_kind display_object m_prefixes m_prefixes_update,
      IpamAggregates = mem_ep psize aggregate_kind display_object m_aggregates m_aggregates_update\<rparr>"

lemma lawful_mem_refs:
  "lawful_refs mem_view k rf_ID rf_Name (\<lambda>n. no_params\<lparr>lp_Name := Some n\<rparr>) (mem_refs k)"
  by (force simp: lawful_refs_def lawful_names_def triple_def mem_refs_def refs_of_def all_of_def mem_view_def)

lemma lawful_mem_device_types:
  "lawful_refs mem_view RDeviceType dt_ID dt_Model (\<lambda>n. no_params\<lparr>lp_Model := Some n\<rparr>) mem_device_types"
  by (force simp: lawful_refs_def lawful_names_def triple_def mem_device_types_def refs_of_def all_of_def mem_view_def)

lemma all_of_results [simp]: "pg_Results (all_of xs) = xs"
  by (simp add: all_of_def)

lemma view_tags: "v_tags (mem_view w) = tbl (m_tags w)"
  "mem_view (m_tags_update f w) = (mem_view w)\<lparr>v_tags := tbl (f (m_tags w))\<rparr>"
  by (simp_all add: mem_view_def)

lemma view_fields: "v_fields (mem_view w) = tbl (m_fields w)"
  "mem_view (m_fields_update f w) = (mem_view w)\<lparr>v_fields := tbl (f (m_fields w))\<rparr>"
  by (simp_all add: mem_view_def)

lemma lawful_mem_tags: "lawful_tags mem_view (mem_api psize)"
proof -
  have list: "(\<forall>t \<in> set (map (\<lambda>(i, d). display_tag i d) (filter (\<lambda>(_, d). Some s = Some (td_Slug d)) (rows 1 ts))).
        \<exists>d. tbl ts (tg_ID t) = Some d \<and> tag_shows d t) \<and>
      (\<forall>i d. tbl ts i = Some d \<and> td_Slug d = s \<longrightarrow>
        (\<exists>t \<in> set (map (\<lambda>(i, d). display_tag i d) (filter (\<lambda>(_, d). Some s = Some (td_Slug d)) (rows 1 ts))). tg_ID t = i))"
    for s and ts :: "tag_data table"
    by (force simp: tbl_mem display_tag_def tag_shows_def)
  show ?thesis
    unfolding lawful_tags_def
  proof (intro conjI allI)
    fix s v
    have sel: "lp_Slug (no_params\<lparr>lp_Slug := Some s\<rparr>) = Some s" by simp
    show "triple (\<lambda>w. mem_view w = v) (ExtrasTagsList (mem_api psize) (no_params\<lparr>lp_Slug := Some s\<rparr>))
        (\<lambda>pg w. mem_view w = v \<and>
           (\<forall>t \<in> set (pg_Results pg). \<exists>d. v_tags v (tg_ID t) = Some d \<and> tag_shows d t) \<and>
           (\<forall>i d. v_tags v i = Some d \<and> td_Slug d = s \<longrightarrow> (\<exists>t \<in> set (pg_Results pg). tg_ID t = i)))
        (\<lambda>_ w. mem_view w = v)"
      unfolding triple_def
      by (clarsimp simp only: mem_api_def netbox_api.simps mem_tags_def prod.case outcome.case sel
          all_of_results view_tags simp_thms) (rule list)
  next
    fix d v
    show "triple (\<lambda>w. mem_view w = v) (ExtrasTagsCreate (mem_api psize) d)
        (\<lambda>t w. v_tags v (tg_ID t) = None \<and> tag_shows d t \<and> mem_view w = v\<lparr>v_tags := (v_tags v)(tg_ID t \<mapsto> d)\<rparr>)
        (\<lambda>_ w. mem_view w = v \<or> (\<exists>i. v_tags v i = None \<and> mem_view w = v\<lparr>v_tags := (v_tags v)(i \<mapsto> d)\<rparr>))"
      by (auto simp: triple_def mem_api_def mem_tag_create_def display_tag_def tag_shows_def view_tags tbl_append tbl_fresh)
  qed
qed

lemma lawful_mem_fields: "lawful_fields mem_view (mem_api psize)"
proof -
  have list: "(\<forall>f \<in> set (map (\<lambda>(_, d). \<lparr>cf_Name = Some (cd_Name d)\<rparr>)
          (filter (\<lambda>(_, d). Some n = Some (cd_Name d)) (rows 1 ts))).
        \<exists>i d. tbl ts i = Some d \<and> cf_Name f = Some (cd_Name d)) \<and>
      (\<forall>i d. tbl ts i = Some d \<and> cd_Name d = n \<longrightarrow>
        (\<exists>f \<in> set (map (\<lambda>(_, d). \<lparr>cf_Name = Some (cd_Name d)\<rparr>)
          (filter (\<lambda>(_, d). Some n = Some (cd_Name d)) (rows 1 ts))). cf_Name f = Some n))"
    for n and ts :: "custom_field_data table"
    by (force simp: tbl_mem)
  show ?thesis
    unfolding lawful_fields_def
  proof (intro conjI allI)
    fix n v
    have sel: "lp_Name (no_params\<lparr>lp_Name := Some n\<rparr>) = Some n" by simp
    show "triple (\<lambda>w. mem_view w = v) (ExtrasCustomFieldsList (mem_api psize) (no_params\<lparr>lp_Name := Some n\<rparr>))
        (\<lambda>pg w. mem_view w = v \<and>
           (\<forall>f \<in> set (pg_Results pg). \<exists>i d. v_fields v i = Some d \<and> cf_Name f = Some (cd_Name d)) \<and>
           (\<forall>i d. v_fields v i = Some d \<and> cd_Name d = n \<longrightarrow> (\<exists>f \<in> set (pg_Results pg). cf_Name f = Some n)))
        (\<lambda>_ w. mem_view w = v)"
      unfolding triple_def
      by (clarsimp simp only: mem_api_def netbox_api.simps mem_fields_def prod.case outcome.case sel
          all_of_results view_fields simp_thms) (rule list)
  next
    fix d v
    have run: "ExtrasCustomFieldsCreate (mem_api psize) d w =
        (Ok \<lparr>cf_Name = Some (cd_Name d)\<rparr>, m_fields_update (\<lambda>t. t @ [Some d]) w)" for w
      by (simp add: mem_api_def mem_field_create_def)
    have "\<exists>i. v_fields v i = None \<and>
        mem_view (m_fields_update (\<lambda>t. t @ [Some d]) w) = v\<lparr>v_fields := (v_fields v)(i \<mapsto> d)\<rparr>" if "mem_view w = v" for w
      by (rule exI[of _ "1 + int (length (m_fields w))"])
        (simp only: that[symmetric] view_fields tbl_append tbl_fresh simp_thms)
    then show "triple (\<lambda>w. mem_view w = v) (ExtrasCustomFieldsCreate (mem_api psize) d)
        (\<lambda>_ w. \<exists>i. v_fields v i = None \<and> mem_view w = v\<lparr>v_fields := (v_fields v)(i \<mapsto> d)\<rparr>)
        (\<lambda>_ w. mem_view w = v \<or> (\<exists>i. v_fields v i = None \<and> mem_view w = v\<lparr>v_fields := (v_fields v)(i \<mapsto> d)\<rparr>))"
      by (simp add: triple_def run)
  qed
qed

lemma lawful_mem_api: "lawful psize mem_view (mem_api psize)"
proof -
  have "lawful_tags mem_view (mem_api psize)" and "lawful_fields mem_view (mem_api psize)"
    by (rule lawful_mem_tags lawful_mem_fields)+
  then show ?thesis
    unfolding lawful_def
    by (simp add: mem_api_def mem_cluster.lawful_mem_ep mem_device.lawful_mem_ep mem_vm.lawful_mem_ep
        mem_ip.lawful_mem_ep mem_prefix.lawful_mem_ep mem_aggregate.lawful_mem_ep lawful_mem_refs
        lawful_mem_device_types keeps_rules)
qed

end
