(* ===== verification/Kubernetes_Memory.thy ===== *)
theory Kubernetes_Memory
  imports NetBox_Memory Reconcilers
begin

text \<open>
  An environment of the reconcilers in memory: Kubernetes objects, Secrets and the clock are
  fields of the world of \<open>NetBox_Memory\<close>, every client talks to the NetBox there. It satisfies
  the hypotheses on environments (\<open>lawful_world\<close>, \<open>externals_keep\<close>).
\<close>

definition existing :: "string \<Rightarrow> (memory \<Rightarrow> 'a option) \<Rightarrow> (memory, 'a) go" where
  "existing n f = (\<lambda>w. case f w of None \<Rightarrow> (Err (StatusNotFound n), w) | Some x \<Rightarrow> (Ok x, w))"

definition mem_update_status :: "HeraldConfig \<Rightarrow> (memory, HeraldConfig) go" where
  "mem_update_status cr = (\<lambda>w. case k_config w of
     None \<Rightarrow> (Err (StatusNotFound singletonName), w)
   | Some stored \<Rightarrow> let cr' = stored\<lparr>hc_Status := hc_Status cr\<rparr> in (Ok cr', w\<lparr>k_config := Some cr'\<rparr>))"

definition set_condition :: "condition list \<Rightarrow> condition \<Rightarrow> condition list" where
  "set_condition cs c =
     (if list_ex (\<lambda>c'. cn_Type c' = cn_Type c) cs
      then map (\<lambda>c'. if cn_Type c' = cn_Type c then c else c') cs else cs @ [c])"

definition mem_libs :: "string libs" where
  "mem_libs =
     \<lparr>urlx_Parse = (\<lambda>s. if s = [] then Inl (Opaque ''empty URL'')
        else Inr \<lparr>url_Scheme = ''https'', url_Host = s, url_Path = []\<rparr>),
      AppendCertsFromPEM = (\<lambda>s. s \<noteq> []), TLSTransport = (\<lambda>opts. Inr (HttpTransport \<lparr>ht_TLS = opts, ht_Proxy = None\<rparr>)), DefaultBasePath = ''/api'',
      NewVersion = Inr, Satisfies = (\<lambda>_ v. prefix ''4.'' v)\<rparr>"

lemma http_mem [simp]: "http_transports mem_libs"
  by (simp add: http_transports_def mem_libs_def)

type_synonym mem_env = "(unit memory_ext, string) env"

definition mem_env :: "nat \<Rightarrow> mem_env" where
  "mem_env psize =
     \<lparr>GetHeraldConfig = (\<lambda>n. existing n (\<lambda>w. if n = singletonName then k_config w else None)),
      GetSecret = (\<lambda>ns n. existing n (\<lambda>w. k_secrets w ns n)),
      GetNamespace = (\<lambda>n. existing n (\<lambda>w. k_namespaces w n)),
      GetNode = (\<lambda>n. existing n (\<lambda>w. List.find (\<lambda>x. nod_Name x = n) (k_nodes w))),
      GetService = (\<lambda>ns n. existing n (\<lambda>w. List.find (\<lambda>x. svc_Namespace x = ns \<and> svc_Name x = n) (k_services w))),
      ListNodes = (\<lambda>w. (Ok (k_nodes w), w)), ListServices = (\<lambda>w. (Ok (k_services w), w)),
      UpdateStatus = mem_update_status,
      SetStatusCondition = (\<lambda>cs c. ret (set_condition cs c)),
      Now = (\<lambda>w. (Ok (k_now w), w\<lparr>k_now := k_now w + 1\<rparr>)),
      Netbox = (\<lambda>_. mem_api psize), Libs = mem_libs, OperatorNamespace = ''netbox-herald-system''\<rparr>"

lemma keeps_existing: "keeps I (existing n f)"
  by (simp add: keeps_def triple_def existing_def split: option.split)

lemma kube_mem:
  assumes "\<And>w f. I (k_config_update f w) = I w" and "\<And>w f. I (k_now_update f w) = I w"
  shows "kube_keeps I (mem_env psize)"
  unfolding kube_keeps_def
  by (intro conjI allI)
    (simp_all add: mem_env_def keeps_existing keeps_ret, simp_all add: keeps_def triple_def mem_update_status_def
      assms Let_def split: option.split)

lemma lawful_mem_env: "lawful_world psize mem_view (mem_env psize)"
proof -
  have "kube_keeps (\<lambda>w. mem_view w = v) (mem_env psize)" for v
    by (rule kube_mem) (simp_all add: mem_view_def)
  moreover have "lawful psize mem_view (Netbox (mem_env psize) c)" for c
    by (simp add: mem_env_def lawful_mem_api)
  moreover have "mem_view (w\<lparr>w_store := st\<rparr>) = mem_view w" for w st by (simp add: mem_view_def)
  ultimately show ?thesis unfolding lawful_world_def by blast
qed

text \<open>Anything about the store alone is kept by every external call.\<close>

lemma ep_keeps_store:
  assumes "\<And>f w. w_store (upd f w) = w_store w"
  shows "ep_keeps (\<lambda>w. P (w_store w)) (mem_ep psize K display get upd)"
  using assms by (simp add: ep_keeps_def mem_ep_def keeps_def triple_def)

lemma api_keeps_store: "api_keeps (\<lambda>w. P (w_store w)) (mem_api psize)"
  unfolding api_keeps_def
  by (intro conjI allI)
    (simp_all add: mem_api_def ep_keeps_store keeps_ret, simp_all add: keeps_def triple_def mem_tags_def
      mem_tag_create_def mem_fields_def mem_field_create_def mem_refs_def mem_device_types_def display_tag_def)

lemma externals_keep_store: "externals_keep (\<lambda>w. P (w_store w)) (mem_env psize)"
proof -
  have "kube_keeps (\<lambda>w. P (w_store w)) (mem_env psize)" by (rule kube_mem) simp_all
  then show ?thesis by (simp add: externals_keep_def mem_env_def api_keeps_store)
qed

end
