(* ===== verification/NetBox_Properties.thy ===== *)
theory NetBox_Properties
  imports NetBox_Memory NetBox_Cluster NetBox_Node NetBox_Service NetBox_PodCIDR NetBox_Sync
begin

text \<open>
  What the functions of \<open>internal/netbox\<close> guarantee on a NetBox that behaves as documented,
  stated over the stored objects. The hypotheses hold on the NetBox in memory, where each
  witness also runs the function.
\<close>

section \<open>A small NetBox\<close>

definition demo_slug :: string where "demo_slug = ''managed''"

definition demo_tag :: tag where
  "demo_tag = \<lparr>tg_ID = 1, tg_Name = Some ''managed'', tg_Slug = Some demo_slug\<rparr>"

definition demo_refs :: "(ref_kind \<times> string \<times> int) list" where
  "demo_refs = [(RSite, ''lab'', 3), (RClusterType, ''k8s'', 4), (RClusterGroup, ''grp'', 5),
     (RDeviceRole, ''node'', 6), (RDeviceType, ''box'', 7), (RRIR, ''rfc1918'', 8), (RPlatform, ''linux'', 9)]"

definition demo_world :: memory where
  "demo_world = \<lparr>w_store = NewStore, m_clusters = [], m_devices = [], m_vms = [], m_ips = [], m_prefixes = [],
     m_aggregates = [], m_tags = [Some \<lparr>td_Name = ''managed'', td_Slug = demo_slug, td_Description = [], td_Color = []\<rparr>],
     m_fields = [], m_refs = demo_refs, k_config = None, k_secrets = (\<lambda>_ _. None), k_namespaces = Map.empty,
     k_nodes = [], k_services = [], k_now = 0\<rparr>"

named_theorems run_simps \<open>evaluation of runs on the NetBox in memory\<close>

lemmas [run_simps] = bind_def if_err_def wrap_err_def attempt_def deref_def ret_def fail_def panic_def
  mem_api_def mem_ep_def mem_list_def mem_refs_def mem_device_types_def refs_of_def all_of_def mem_tags_def
  mem_tag_create_def mem_fields_def mem_field_create_def display_tag_def display_named_def display_object_def
  no_params_def page_size_def selects_case has_tag_def kind_defs NestedManagedTag_def readExternalID_def
  tbl_def demo_world_def demo_refs_def demo_tag_def demo_slug_def Let_def

section \<open>The contracts on stored objects\<close>

text \<open>
  \<open>upserted\<close>: the object \<open>i\<close> carries the managed tag, the external ID \<open>x\<close> and what \<open>R\<close> says;
  it is new or already had this external ID, and nothing else differs. If the managed objects
  fit on a page, an existing object is updated in place, and external IDs that were unique
  stay so.
\<close>

definition upserted :: "nat \<Rightarrow> ('o, 'd writable_scheme) kind \<Rightarrow> string \<Rightarrow> string \<Rightarrow> ('d writable_scheme \<Rightarrow> bool) \<Rightarrow>
    int \<Rightarrow> nb_view \<Rightarrow> nb_view \<Rightarrow> bool" where
  "upserted psize K slug x R i v v' \<longleftrightarrow>
     (\<exists>d. k_get K v' = (k_get K v)(i \<mapsto> d) \<and> has_tag slug d \<and> ext_of d = Some x \<and> R d) \<and>
     (i \<in> ids_for K slug x v \<or> k_get K v i = None) \<and> only K v v' \<and> untouched K slug v v' \<and>
     (card (managed K slug v) \<le> psize \<longrightarrow>
        (ids_for K slug x v \<noteq> {} \<longrightarrow> i \<in> ids_for K slug x v) \<and>
        (unique_ids K slug v \<longrightarrow> unique_ids K slug v' \<and> ids_for K slug x v' = {i}))"

lemma ensured_upserted:
  assumes "kind_ok K" and "ensured psize K slug x R i v v'"
  shows "upserted psize K slug x R i v v'"
proof -
  obtain d where "k_get K v' = (k_get K v)(i \<mapsto> d)" "has_tag slug d" "ext_of d = Some x" "R d"
    using ensured_get[OF assms] .
  moreover have "only K v v'" "untouched K slug v v'"
    using only_ensured[OF assms(2)] ensured_untouched[OF assms] by blast+
  moreover have "i \<in> ids_for K slug x v \<or> k_get K v i = None"
    "card (managed K slug v) \<le> psize \<Longrightarrow> ids_for K slug x v \<noteq> {} \<Longrightarrow> i \<in> ids_for K slug x v"
    using assms(2) by (auto simp: ensured_def)
  moreover have "unique_ids K slug v' \<and> ids_for K slug x v' = {i}"
    if "card (managed K slug v) \<le> psize" "unique_ids K slug v"
    using ensured_unique[OF assms that(2,1)] by blast
  ultimately show ?thesis unfolding upserted_def by blast
qed

lemma upsert_triple:
  assumes "kind_ok K"
    and "triple P m (\<lambda>i w. ensured psize K slug x R i v (view w))
      (\<lambda>_ w. view w = v \<or> (\<exists>i. ensured psize K slug x R i v (view w)))"
  shows "triple P m (\<lambda>i w. upserted psize K slug x R i v (view w))
      (\<lambda>_ w. view w = v \<or> (\<exists>i. upserted psize K slug x R i v (view w)))"
  using assms(2) by (rule triple_post) (use ensured_upserted[OF assms(1)] in blast)+

text \<open>
  \<open>dropped\<close>: some of the objects \<open>S\<close> are gone, and nothing else differs. At least one is gone
  if there was one and the managed objects fit on a page.
\<close>

definition dropped :: "nat \<Rightarrow> ('o, 'd writable_scheme) kind \<Rightarrow> string \<Rightarrow> int set \<Rightarrow> nb_view \<Rightarrow> nb_view \<Rightarrow> bool" where
  "dropped psize K slug S v v' \<longleftrightarrow>
     (\<exists>I \<subseteq> S. k_get K v' = k_get K v |` (- I) \<and>
        (card (managed K slug v) \<le> psize \<longrightarrow> S \<noteq> {} \<longrightarrow> I \<noteq> {})) \<and> only K v v' \<and> untouched K slug v v'"

lemma removed_dropped:
  assumes "kind_ok K" and "removed psize K slug x v v'"
  shows "dropped psize K slug (ids_for K slug x v) v v'"
proof -
  have "only K v v'" "untouched K slug v v'"
    using only_removed[OF assms] removed_untouched[OF assms] by blast+
  moreover have "\<exists>I \<subseteq> ids_for K slug x v. k_get K v' = k_get K v |` (- I) \<and>
      (card (managed K slug v) \<le> psize \<longrightarrow> ids_for K slug x v \<noteq> {} \<longrightarrow> I \<noteq> {})"
    using assms(2) unfolding removed_def
  proof
    assume "\<exists>i \<in> ids_for K slug x v. v' = drop_ids K {i} v"
    then show ?thesis using drop_ids_get[OF assms(1)] by (metis bot_least insert_not_empty insert_subset)
  next
    assume "v' = v \<and> (card (managed K slug v) \<le> psize \<longrightarrow> ids_for K slug x v = {})"
    then show ?thesis by (intro exI[of _ "{}"]) (simp add: restrict_map_def)
  qed
  ultimately show ?thesis unfolding dropped_def by blast
qed

lemma removed_named_dropped:
  assumes "kind_ok K" and "removed_named psize K slug n v v'"
  shows "dropped psize K slug (named_ids K slug n v) v v'"
proof -
  have "only K v v'"
    using assms by (auto simp: removed_named_def intro: only_drop only_refl)
  moreover have "untouched K slug v v'" by (rule removed_named_untouched[OF assms])
  moreover have "\<exists>I \<subseteq> named_ids K slug n v. k_get K v' = k_get K v |` (- I) \<and>
      (card (managed K slug v) \<le> psize \<longrightarrow> named_ids K slug n v \<noteq> {} \<longrightarrow> I \<noteq> {})"
    using assms(2) unfolding removed_named_def
  proof
    assume "\<exists>i \<in> named_ids K slug n v. v' = drop_ids K {i} v"
    then show ?thesis using drop_ids_get[OF assms(1)] by (metis bot_least insert_not_empty insert_subset)
  next
    assume "v' = v \<and> (card (managed K slug v) \<le> psize \<longrightarrow> named_ids K slug n v = {})"
    then show ?thesis by (intro exI[of _ "{}"]) (simp add: restrict_map_def)
  qed
  ultimately show ?thesis unfolding dropped_def by blast
qed

lemma drop_triple:
  assumes "triple P m (\<lambda>_ w. A (view w)) (\<lambda>_ w. view w = v \<or> A (view w))"
    and "\<And>v'. A v' \<Longrightarrow> dropped psize K slug S v v'"
  shows "triple P m (\<lambda>_ w. dropped psize K slug S v (view w))
      (\<lambda>_ w. view w = v \<or> dropped psize K slug S v (view w))"
  using assms(1) by (rule triple_post) (use assms(2) in blast)+

section \<open>Creating and updating\<close>

definition demo_cluster :: cluster_spec where
  "demo_cluster = \<lparr>cs_Name = ''prod'', cs_ClusterTypeName = ''k8s'', cs_ClusterGroupName = [],
     cs_SiteName = ''lab'', cs_ExternalID = ''uid-1'', cs_ManagedTag = demo_tag\<rparr>"

lemmas [run_simps] = EnsureCluster_def findClusterByExternalID_def cluster_data_def LookupClusterTypeID_def
  LookupClusterGroupID_def LookupSiteID_def DeleteCluster_def

text \<open>C28: EnsureCluster leaves exactly one object changed: it carries the managed tag, the
  external ID, and the name, cluster type, group and site scope of the spec, resolved to IDs of
  the reference objects of these names. It is the cluster that already had the external ID, or
  a new one; on an error NetBox is unchanged or the write has happened.\<close>

theorem EnsureCluster_correct:
  assumes "lawful psize view client" and "tg_Slug (cs_ManagedTag spec) = Some slug"
  shows "triple (\<lambda>w. view w = v) (EnsureCluster client spec)
    (\<lambda>i w. upserted psize cluster_kind slug (cs_ExternalID spec) (cluster_recorded v spec) i v (view w))
    (\<lambda>_ w. view w = v \<or>
       (\<exists>i. upserted psize cluster_kind slug (cs_ExternalID spec) (cluster_recorded v spec) i v (view w)))"
  by (rule upsert_triple[OF kind_ok_kinds(1) EnsureCluster_triple[OF assms]])

theorem EnsureCluster_witness:
  "fst (EnsureCluster (mem_api 50) demo_cluster demo_world) = Ok 1 \<and>
   upserted 50 cluster_kind demo_slug (cs_ExternalID demo_cluster)
     (cluster_recorded (mem_view demo_world) demo_cluster) 1 (mem_view demo_world)
     (mem_view (snd (EnsureCluster (mem_api 50) demo_cluster demo_world)))"
  by (rule triple_at[OF EnsureCluster_correct[OF lawful_mem_api] refl]) (simp_all add: demo_cluster_def run_simps)

definition demo_device :: device_node_spec where
  "demo_device = \<lparr>ds_Name = ''node-1'', ds_DeviceRoleName = ''node'', ds_DeviceTypeName = ''box'',
     ds_SiteName = ''lab'', ds_ExternalID = ''uid-2'', ds_ManagedTag = demo_tag\<rparr>"

lemmas [run_simps] = EnsureDevice_def findDeviceByExternalID_def device_data_def LookupDeviceTypeID_def
  LookupDeviceRoleID_def DeleteDeviceByExternalID_def deleteDevice_def DeleteDeviceByName_def CountManagedDevices_def

text \<open>EnsureDevice leaves exactly one device changed: it carries the managed tag, the Node's
  UID, its name, and the device type, role and site of these names; it is the device that had
  the UID, or a new one.\<close>

theorem EnsureDevice_correct:
  assumes "lawful psize view client" and "tg_Slug (ds_ManagedTag spec) = Some slug"
  shows "triple (\<lambda>w. view w = v) (EnsureDevice client spec)
    (\<lambda>i w. upserted psize device_kind slug (ds_ExternalID spec) (device_recorded v spec) i v (view w))
    (\<lambda>_ w. view w = v \<or>
       (\<exists>i. upserted psize device_kind slug (ds_ExternalID spec) (device_recorded v spec) i v (view w)))"
  by (rule upsert_triple[OF kind_ok_kinds(2) EnsureDevice_triple[OF assms]])

theorem EnsureDevice_witness:
  "fst (EnsureDevice (mem_api 50) demo_device demo_world) = Ok 1 \<and>
   upserted 50 device_kind demo_slug (ds_ExternalID demo_device)
     (device_recorded (mem_view demo_world) demo_device) 1 (mem_view demo_world)
     (mem_view (snd (EnsureDevice (mem_api 50) demo_device demo_world)))"
  by (rule triple_at[OF EnsureDevice_correct[OF lawful_mem_api] refl]) (simp_all add: demo_device_def run_simps)

text \<open>The NetBox of \<open>demo_world\<close> with objects in it.\<close>

definition demo_fields :: "string \<Rightarrow> any" where
  "demo_fields x = GMap [(ExternalIDFieldName, GString x)]"

definition stocked_world :: memory where
  "stocked_world = demo_world
     \<lparr>m_clusters := [Some \<lparr>wr_Tags = [NestedManagedTag demo_tag], wr_CustomFields = demo_fields ''uid-1'',
        wc_Name = ''prod'', wc_Type = 4, wc_Group = None, wc_ScopeType = None, wc_ScopeID = None\<rparr>],
      m_devices := [Some \<lparr>wr_Tags = [], wr_CustomFields = GNil, wd_Name = ''node-1'', wd_DeviceType = 7,
        wd_Role = 6, wd_Site = 3\<rparr>, Some \<lparr>wr_Tags = [NestedManagedTag demo_tag],
        wr_CustomFields = demo_fields ''uid-2'', wd_Name = ''node-1'', wd_DeviceType = 7, wd_Role = 6, wd_Site = 3\<rparr>],
      m_vms := [Some \<lparr>wr_Tags = [NestedManagedTag demo_tag], wr_CustomFields = demo_fields ''uid-2'',
        wv_Name = ''node-1'', wv_Cluster = 1, wv_Platform = None\<rparr>],
      m_ips := [Some \<lparr>wr_Tags = [NestedManagedTag demo_tag], wr_CustomFields = demo_fields ''ns/web/10.0.0.9'',
        wi_Address = ''10.0.0.9/32'', wi_Description = []\<rparr>, Some \<lparr>wr_Tags = [NestedManagedTag demo_tag],
        wr_CustomFields = demo_fields ''ns/db/10.0.0.8'', wi_Address = ''10.0.0.8/32'', wi_Description = []\<rparr>],
      m_prefixes := [Some \<lparr>wr_Tags = [NestedManagedTag demo_tag], wr_CustomFields = demo_fields ''node-1/10.1.0.0/24'',
        wp_Prefix = ''10.1.0.0/24'', wp_Description = []\<rparr>],
      m_aggregates := [Some \<lparr>wr_Tags = [NestedManagedTag demo_tag],
        wr_CustomFields = demo_fields ''cluster-pod-cidrs/ipv4'', wa_Prefix = ''10.1.0.0/16'', wa_Rir = 8,
        wa_Description = []\<rparr>]\<rparr>"

lemmas [run_simps] = stocked_world_def demo_fields_def

definition demo_vm :: vm_node_spec where
  "demo_vm = \<lparr>vs_Name = ''node-2'', vs_ClusterName = ''prod'', vs_PlatformName = ''linux'',
     vs_ExternalID = ''uid-3'', vs_ManagedTag = demo_tag\<rparr>"

lemmas [run_simps] = EnsureVirtualMachine_def findVirtualMachineByExternalID_def vm_data_def LookupClusterID_def
  LookupPlatformID_def DeleteVirtualMachineByExternalID_def deleteVirtualMachine_def DeleteVirtualMachineByName_def
  CountManagedVirtualMachines_def

text \<open>EnsureVirtualMachine leaves exactly one virtual machine changed: it carries the managed
  tag, the Node's UID, its name, a cluster of the given name and, if one is given, the platform;
  it is the virtual machine that had the UID, or a new one.\<close>

theorem EnsureVirtualMachine_correct:
  assumes "lawful psize view client" and "tg_Slug (vs_ManagedTag spec) = Some slug"
  shows "triple (\<lambda>w. view w = v) (EnsureVirtualMachine client spec)
    (\<lambda>i w. upserted psize vm_kind slug (vs_ExternalID spec) (vm_recorded v spec) i v (view w))
    (\<lambda>_ w. view w = v \<or>
       (\<exists>i. upserted psize vm_kind slug (vs_ExternalID spec) (vm_recorded v spec) i v (view w)))"
  by (rule upsert_triple[OF kind_ok_kinds(3) EnsureVirtualMachine_triple[OF assms]])

theorem EnsureVirtualMachine_witness:
  "fst (EnsureVirtualMachine (mem_api 50) demo_vm stocked_world) = Ok 2 \<and>
   upserted 50 vm_kind demo_slug (vs_ExternalID demo_vm)
     (vm_recorded (mem_view stocked_world) demo_vm) 2 (mem_view stocked_world)
     (mem_view (snd (EnsureVirtualMachine (mem_api 50) demo_vm stocked_world)))"
  by (rule triple_at[OF EnsureVirtualMachine_correct[OF lawful_mem_api] refl]) (simp_all add: demo_vm_def run_simps)

definition demo_ip :: service_ip_spec where
  "demo_ip = \<lparr>is_Address = ''10.0.0.9/32'', is_Description = ''Kubernetes Service ns/web'',
     is_ExternalID = ''ns/web/10.0.0.9'', is_ManagedTag = demo_tag\<rparr>"

lemmas [run_simps] = EnsureServiceIP_def findServiceIPByExternalID_def service_ip_data_def ListServiceIPs_def
  DeleteServiceIPs_def deleteServiceIP_def DeleteServiceIP_def CountManagedServiceIPs_def serviceExternalIDPrefix_def

text \<open>EnsureServiceIP leaves exactly one IP address object changed: it carries the managed
  tag, the external ID and the address of the spec; it is the one that had the external ID, or
  a new one.\<close>

theorem EnsureServiceIP_correct:
  assumes "lawful psize view client" and "tg_Slug (is_ManagedTag spec) = Some slug"
  shows "triple (\<lambda>w. view w = v) (EnsureServiceIP client spec)
    (\<lambda>i w. upserted psize ip_kind slug (is_ExternalID spec) (\<lambda>d. wi_Address d = is_Address spec) i v (view w))
    (\<lambda>_ w. view w = v \<or>
       (\<exists>i. upserted psize ip_kind slug (is_ExternalID spec) (\<lambda>d. wi_Address d = is_Address spec) i v (view w)))"
  by (rule upsert_triple[OF kind_ok_kinds(4) EnsureServiceIP_triple[OF assms, unfolded ip_recorded_def]])

theorem EnsureServiceIP_witness:
  "fst (EnsureServiceIP (mem_api 50) demo_ip stocked_world) = Ok 1 \<and>
   upserted 50 ip_kind demo_slug (is_ExternalID demo_ip) (\<lambda>d. wi_Address d = is_Address demo_ip) 1
     (mem_view stocked_world) (mem_view (snd (EnsureServiceIP (mem_api 50) demo_ip stocked_world)))"
  by (rule triple_at[OF EnsureServiceIP_correct[OF lawful_mem_api] refl]) (simp_all add: demo_ip_def run_simps)

definition demo_prefix :: pod_cidr_prefix_spec where
  "demo_prefix = \<lparr>ps_CIDR = ''10.1.1.0/24'', ps_Description = ''Kubernetes Node node-2 pod CIDR'',
     ps_ExternalID = ''node-2/10.1.1.0/24'', ps_ManagedTag = demo_tag\<rparr>"

lemmas [run_simps] = EnsurePodCIDRPrefix_def findPrefixByExternalID_def pod_cidr_prefix_data_def
  ListNodePodCIDRPrefixes_def DeleteNodePodCIDRPrefixes_def deletePrefix_def DeletePodCIDRPrefix_def
  CountManagedPrefixes_def nodePodCIDRExternalIDPrefix_def

text \<open>EnsurePodCIDRPrefix leaves exactly one prefix changed: it carries the managed tag, the
  external ID and the CIDR of the spec; it is the one that had the external ID, or a new one.\<close>

theorem EnsurePodCIDRPrefix_correct:
  assumes "lawful psize view client" and "tg_Slug (ps_ManagedTag spec) = Some slug"
  shows "triple (\<lambda>w. view w = v) (EnsurePodCIDRPrefix client spec)
    (\<lambda>i w. upserted psize prefix_kind slug (ps_ExternalID spec) (\<lambda>d. wp_Prefix d = ps_CIDR spec) i v (view w))
    (\<lambda>_ w. view w = v \<or>
       (\<exists>i. upserted psize prefix_kind slug (ps_ExternalID spec) (\<lambda>d. wp_Prefix d = ps_CIDR spec) i v (view w)))"
  by (rule upsert_triple[OF kind_ok_kinds(5) EnsurePodCIDRPrefix_triple[OF assms, unfolded prefix_recorded_def]])

theorem EnsurePodCIDRPrefix_witness:
  "fst (EnsurePodCIDRPrefix (mem_api 50) demo_prefix stocked_world) = Ok 2 \<and>
   upserted 50 prefix_kind demo_slug (ps_ExternalID demo_prefix) (\<lambda>d. wp_Prefix d = ps_CIDR demo_prefix) 2
     (mem_view stocked_world) (mem_view (snd (EnsurePodCIDRPrefix (mem_api 50) demo_prefix stocked_world)))"
  by (rule triple_at[OF EnsurePodCIDRPrefix_correct[OF lawful_mem_api] refl]) (simp_all add: demo_prefix_def run_simps)

definition demo_aggregate :: pod_cidr_aggregate_spec where
  "demo_aggregate = \<lparr>as_CIDR = ''10.0.0.0/8'', as_RIRName = ''rfc1918'',
     as_Description = ''Kubernetes pod CIDR aggregate (ipv4)'', as_ExternalID = ''cluster-pod-cidrs/ipv4'',
     as_ManagedTag = demo_tag\<rparr>"

lemmas [run_simps] = EnsurePodCIDRAggregate_def findAggregateByExternalID_def aggregate_data_def LookupRIRID_def
  DeletePodCIDRAggregate_def CountManagedAggregates_def

text \<open>EnsurePodCIDRAggregate leaves exactly one aggregate changed: it carries the managed tag,
  the external ID, the CIDR and a RIR of the given name; it is the one that had the external
  ID, or a new one.\<close>

theorem EnsurePodCIDRAggregate_correct:
  assumes "lawful psize view client" and "tg_Slug (as_ManagedTag spec) = Some slug"
  shows "triple (\<lambda>w. view w = v) (EnsurePodCIDRAggregate client spec)
    (\<lambda>i w. upserted psize aggregate_kind slug (as_ExternalID spec) (aggregate_recorded v spec) i v (view w))
    (\<lambda>_ w. view w = v \<or>
       (\<exists>i. upserted psize aggregate_kind slug (as_ExternalID spec) (aggregate_recorded v spec) i v (view w)))"
  by (rule upsert_triple[OF kind_ok_kinds(6) EnsurePodCIDRAggregate_triple[OF assms]])

theorem EnsurePodCIDRAggregate_witness:
  "fst (EnsurePodCIDRAggregate (mem_api 50) demo_aggregate stocked_world) = Ok 1 \<and>
   upserted 50 aggregate_kind demo_slug (as_ExternalID demo_aggregate)
     (aggregate_recorded (mem_view stocked_world) demo_aggregate) 1 (mem_view stocked_world)
     (mem_view (snd (EnsurePodCIDRAggregate (mem_api 50) demo_aggregate stocked_world)))"
  by (rule triple_at[OF EnsurePodCIDRAggregate_correct[OF lawful_mem_api] refl])
    (simp_all add: demo_aggregate_def run_simps)

definition upserts :: "nat \<Rightarrow> ('w \<Rightarrow> nb_view) \<Rightarrow> ('o, 'd writable_scheme) kind \<Rightarrow> string \<Rightarrow> string \<Rightarrow> ('d writable_scheme \<Rightarrow> bool) \<Rightarrow>
    nb_view \<Rightarrow> ('w, int) go \<Rightarrow> bool" where
  "upserts psize view K slug x R v m \<longleftrightarrow>
     triple (\<lambda>w. view w = v) m (\<lambda>i w. upserted psize K slug x R i v (view w))
       (\<lambda>_ w. view w = v \<or> (\<exists>i. upserted psize K slug x R i v (view w)))"

text \<open>C29: EnsureDevice and EnsureVirtualMachine leave exactly one object of their kind changed. It
  carries the managed tag, the Node's UID and name, and the device type, role and site, or the
  cluster and, if one is given, the platform, of the names in the spec. It is the object that
  had the UID, or a new one; on an error NetBox is unchanged or the write has happened.\<close>

theorem ensure_node_objects_correct:
  assumes "lawful psize view client"
    and "tg_Slug (ds_ManagedTag dev) = Some slug" and "tg_Slug (vs_ManagedTag vm) = Some slug"
  shows "upserts psize view device_kind slug (ds_ExternalID dev) (device_recorded v dev) v (EnsureDevice client dev) \<and>
    upserts psize view vm_kind slug (vs_ExternalID vm) (vm_recorded v vm) v (EnsureVirtualMachine client vm)"
  using assms by (simp add: upserts_def EnsureDevice_correct EnsureVirtualMachine_correct)

theorem ensure_node_objects_witness:
  "upserted 50 vm_kind demo_slug (vs_ExternalID demo_vm) (vm_recorded (mem_view stocked_world) demo_vm) 2
     (mem_view stocked_world) (mem_view (snd (EnsureVirtualMachine (mem_api 50) demo_vm stocked_world)))"
proof -
  have run: "fst (EnsureVirtualMachine (mem_api 50) demo_vm stocked_world) = Ok 2" by (simp add: demo_vm_def run_simps)
  have "tg_Slug (ds_ManagedTag demo_device) = Some demo_slug" "tg_Slug (vs_ManagedTag demo_vm) = Some demo_slug"
    by (simp_all add: demo_device_def demo_vm_def run_simps)
  note upsert = conjunct2[OF ensure_node_objects_correct[OF lawful_mem_api this]]
  from triple_at[OF upsert[unfolded upserts_def] refl run] show ?thesis by blast
qed

text \<open>C30: EnsureServiceIP, EnsurePodCIDRPrefix and EnsurePodCIDRAggregate leave exactly one object
  of their kind changed. It carries the managed tag, the external ID and the address or CIDR of
  the spec, and for an aggregate a RIR of the given name. It is the object that had the external
  ID, or a new one; on an error NetBox is unchanged or the write has happened.\<close>

theorem ensure_address_objects_correct:
  assumes "lawful psize view client" and "tg_Slug (is_ManagedTag ip) = Some slug"
    and "tg_Slug (ps_ManagedTag pfx) = Some slug" and "tg_Slug (as_ManagedTag agg) = Some slug"
  shows "upserts psize view ip_kind slug (is_ExternalID ip) (\<lambda>d. wi_Address d = is_Address ip) v (EnsureServiceIP client ip) \<and>
    upserts psize view prefix_kind slug (ps_ExternalID pfx) (\<lambda>d. wp_Prefix d = ps_CIDR pfx) v (EnsurePodCIDRPrefix client pfx) \<and>
    upserts psize view aggregate_kind slug (as_ExternalID agg) (aggregate_recorded v agg) v (EnsurePodCIDRAggregate client agg)"
  using assms by (simp add: upserts_def EnsureServiceIP_correct EnsurePodCIDRPrefix_correct EnsurePodCIDRAggregate_correct)

theorem ensure_address_objects_witness:
  "upserted 50 aggregate_kind demo_slug (as_ExternalID demo_aggregate) (aggregate_recorded (mem_view stocked_world) demo_aggregate) 1
     (mem_view stocked_world) (mem_view (snd (EnsurePodCIDRAggregate (mem_api 50) demo_aggregate stocked_world)))"
proof -
  have run: "fst (EnsurePodCIDRAggregate (mem_api 50) demo_aggregate stocked_world) = Ok 1"
    by (simp add: demo_aggregate_def run_simps)
  have "tg_Slug (is_ManagedTag demo_ip) = Some demo_slug" "tg_Slug (ps_ManagedTag demo_prefix) = Some demo_slug"
    "tg_Slug (as_ManagedTag demo_aggregate) = Some demo_slug"
    by (simp_all add: demo_ip_def demo_prefix_def demo_aggregate_def run_simps)
  note upsert = conjunct2[OF conjunct2[OF ensure_address_objects_correct[OF lawful_mem_api this]]]
  from triple_at[OF upsert[unfolded upserts_def] refl run] show ?thesis by blast
qed

section \<open>Deleting\<close>

text \<open>The four deletions by external ID remove at most objects that carry the managed tag and
  that external ID, and nothing else; on an error NetBox is unchanged or the deletion has
  happened.\<close>

theorem delete_by_external_id_correct:
  assumes law: "lawful psize view client"
  shows "triple (\<lambda>w. view w = v) (DeleteCluster client slug x)
      (\<lambda>_ w. dropped psize cluster_kind slug (ids_for cluster_kind slug x v) v (view w))
      (\<lambda>_ w. view w = v \<or> dropped psize cluster_kind slug (ids_for cluster_kind slug x v) v (view w)) \<and>
    triple (\<lambda>w. view w = v) (DeleteDeviceByExternalID client slug x)
      (\<lambda>_ w. dropped psize device_kind slug (ids_for device_kind slug x v) v (view w))
      (\<lambda>_ w. view w = v \<or> dropped psize device_kind slug (ids_for device_kind slug x v) v (view w)) \<and>
    triple (\<lambda>w. view w = v) (DeleteVirtualMachineByExternalID client slug x)
      (\<lambda>_ w. dropped psize vm_kind slug (ids_for vm_kind slug x v) v (view w))
      (\<lambda>_ w. view w = v \<or> dropped psize vm_kind slug (ids_for vm_kind slug x v) v (view w)) \<and>
    triple (\<lambda>w. view w = v) (DeletePodCIDRAggregate client slug x)
      (\<lambda>_ w. dropped psize aggregate_kind slug (ids_for aggregate_kind slug x v) v (view w))
      (\<lambda>_ w. view w = v \<or> dropped psize aggregate_kind slug (ids_for aggregate_kind slug x v) v (view w))"
proof -
  have "lawful_ep psize view cluster_kind (VirtualizationClusters client)"
    and "lawful_ep psize view device_kind (DcimDevices client)"
    and "lawful_ep psize view vm_kind (VirtualizationVirtualMachines client)"
    and "lawful_ep psize view aggregate_kind (IpamAggregates client)"
    using law by (simp_all add: lawful_def)
  note eps = this
  show ?thesis
    by (intro conjI
        drop_triple[OF cluster_delete.delete_ext_triple[OF eps(1)] removed_dropped[OF kind_ok_kinds(1)]]
        drop_triple[OF device_delete.delete_ext_triple[OF eps(2)] removed_dropped[OF kind_ok_kinds(2)]]
        drop_triple[OF vm_delete.delete_ext_triple[OF eps(3)] removed_dropped[OF kind_ok_kinds(3)]]
        drop_triple[OF agg_delete.delete_ext_triple[OF eps(4)] removed_dropped[OF kind_ok_kinds(6)]])
qed

theorem delete_by_external_id_witness:
  "fst (DeleteDeviceByExternalID (mem_api 50) demo_slug ''uid-2'' stocked_world) = Ok () \<and>
   dropped 50 device_kind demo_slug (ids_for device_kind demo_slug ''uid-2'' (mem_view stocked_world))
     (mem_view stocked_world)
     (mem_view (snd (DeleteDeviceByExternalID (mem_api 50) demo_slug ''uid-2'' stocked_world)))"
  by (rule triple_at[OF conjunct1[OF conjunct2[OF delete_by_external_id_correct[OF lawful_mem_api]]] refl])
    (simp add: run_simps)

text \<open>Deleting the device or virtual machine of a Node that is gone, by its name, removes at
  most managed objects of exactly that name, whatever else shares the name.\<close>

theorem delete_by_name_correct:
  assumes law: "lawful psize view client"
  shows "triple (\<lambda>w. view w = v) (DeleteDeviceByName client slug n)
      (\<lambda>_ w. dropped psize device_kind slug (named_ids device_kind slug n v) v (view w))
      (\<lambda>_ w. view w = v \<or> dropped psize device_kind slug (named_ids device_kind slug n v) v (view w)) \<and>
    triple (\<lambda>w. view w = v) (DeleteVirtualMachineByName client slug n)
      (\<lambda>_ w. dropped psize vm_kind slug (named_ids vm_kind slug n v) v (view w))
      (\<lambda>_ w. view w = v \<or> dropped psize vm_kind slug (named_ids vm_kind slug n v) v (view w))"
proof -
  have "lawful_ep psize view device_kind (DcimDevices client)"
    and "lawful_ep psize view vm_kind (VirtualizationVirtualMachines client)"
    using law by (simp_all add: lawful_def)
  note eps = this
  show ?thesis
    by (intro conjI
        drop_triple[OF device_name.delete_name_triple[OF eps(1)] removed_named_dropped[OF kind_ok_kinds(2)]]
        drop_triple[OF vm_name.delete_name_triple[OF eps(2)] removed_named_dropped[OF kind_ok_kinds(3)]])
qed

theorem delete_by_name_witness:
  "fst (DeleteDeviceByName (mem_api 50) demo_slug ''node-1'' stocked_world) = Ok () \<and>
   dropped 50 device_kind demo_slug (named_ids device_kind demo_slug ''node-1'' (mem_view stocked_world))
     (mem_view stocked_world)
     (mem_view (snd (DeleteDeviceByName (mem_api 50) demo_slug ''node-1'' stocked_world)))"
  by (rule triple_at[OF conjunct1[OF delete_by_name_correct[OF lawful_mem_api]] refl]) (simp add: run_simps)

text \<open>
  \<open>kept_others\<close>: only objects whose external ID starts with \<open>pre\<close> may be gone; \<open>cleared\<close>: they all
  are, if the managed objects fit on a page.
\<close>

definition kept_others :: "('o, 'd writable_scheme) kind \<Rightarrow> string \<Rightarrow> string \<Rightarrow> nb_view \<Rightarrow> nb_view \<Rightarrow> bool" where
  "kept_others K slug pre v v' \<longleftrightarrow> only K v v' \<and> untouched K slug v v' \<and> k_get K v' \<subseteq>\<^sub>m k_get K v \<and>
     (\<forall>x. \<not> prefix pre x \<longrightarrow> ids_for K slug x v' = ids_for K slug x v)"

definition cleared :: "nat \<Rightarrow> ('o, 'd writable_scheme) kind \<Rightarrow> string \<Rightarrow> string \<Rightarrow> nb_view \<Rightarrow> nb_view \<Rightarrow> bool" where
  "cleared psize K slug pre v v' \<longleftrightarrow> kept_others K slug pre v v' \<and>
     (card (managed K slug v) \<le> psize \<longrightarrow> owned_ids K slug pre v' = {})"

lemma partly_pruned_kept:
  assumes ok: "kind_ok K" and pr: "partly_pruned K slug pre {} v v'"
  shows "kept_others K slug pre v v'"
proof -
  have "k_get K v' \<subseteq>\<^sub>m k_get K v"
    using pr drop_ids_get[OF ok] unfolding partly_pruned_def by (auto simp: map_le_def restrict_map_def split: if_splits)
  then show ?thesis
    unfolding kept_others_def
    using only_pruned[OF pr] partly_pruned_untouched[OF ok pr] partly_pruned_ids_for[OF ok pr] by blast
qed

lemma pruned_cleared:
  assumes ok: "kind_ok K" and pr: "pruned psize K slug pre {} v v'"
  shows "cleared psize K slug pre v v'"
  unfolding cleared_def
  using partly_pruned_kept[OF ok pruned_partly[OF pr]] pruned_ids_for[OF ok pr] by (auto simp: owned_ids_def)

text \<open>DeleteServiceIPs removes IP addresses whose external ID starts with the Service's
  prefix, all of them if the managed ones fit on a page, and nothing else; when it fails part
  way, the others are still all there.\<close>

theorem DeleteServiceIPs_correct:
  assumes "lawful psize view client"
  shows "triple (\<lambda>w. view w = v) (DeleteServiceIPs client slug ns n)
    (\<lambda>_ w. cleared psize ip_kind slug (serviceExternalIDPrefix ns n) v (view w))
    (\<lambda>_ w. kept_others ip_kind slug (serviceExternalIDPrefix ns n) v (view w))"
proof -
  have ip: "lawful_ep psize view ip_kind (IpamIPAddresses client)" using assms by (simp add: lawful_def)
  have "triple (\<lambda>w. view w = v) (DeleteServiceIPs client slug ns n)
      (\<lambda>_ w. pruned psize ip_kind slug (serviceExternalIDPrefix ns n) {} v (view w))
      (\<lambda>_ w. partly_pruned ip_kind slug (serviceExternalIDPrefix ns n) {} v (view w))"
    using ip_owner.delete_owned_triple[OF ip, of v slug "(ns, n)"] by simp
  then show ?thesis
    by (rule triple_post) (auto intro: pruned_cleared partly_pruned_kept)
qed

theorem DeleteServiceIPs_witness:
  "fst (DeleteServiceIPs (mem_api 50) demo_slug ''ns'' ''web'' stocked_world) = Ok () \<and>
   cleared 50 ip_kind demo_slug (serviceExternalIDPrefix ''ns'' ''web'') (mem_view stocked_world)
     (mem_view (snd (DeleteServiceIPs (mem_api 50) demo_slug ''ns'' ''web'' stocked_world)))"
  by (rule triple_at[OF DeleteServiceIPs_correct[OF lawful_mem_api] refl]) (simp add: run_simps)

text \<open>DeleteNodePodCIDRPrefixes removes prefixes whose external ID starts with the Node's
  prefix, all of them if the managed ones fit on a page, and nothing else; when it fails part
  way, the others are still all there.\<close>

theorem DeleteNodePodCIDRPrefixes_correct:
  assumes "lawful psize view client"
  shows "triple (\<lambda>w. view w = v) (DeleteNodePodCIDRPrefixes client slug n)
    (\<lambda>_ w. cleared psize prefix_kind slug (nodePodCIDRExternalIDPrefix n) v (view w))
    (\<lambda>_ w. kept_others prefix_kind slug (nodePodCIDRExternalIDPrefix n) v (view w))"
proof -
  have px: "lawful_ep psize view prefix_kind (IpamPrefixes client)" using assms by (simp add: lawful_def)
  show ?thesis
    by (rule triple_post[OF pfx_owner.delete_owned_triple[OF px]]) (auto intro: pruned_cleared partly_pruned_kept)
qed

theorem DeleteNodePodCIDRPrefixes_witness:
  "fst (DeleteNodePodCIDRPrefixes (mem_api 50) demo_slug ''node-1'' stocked_world) = Ok () \<and>
   cleared 50 prefix_kind demo_slug (nodePodCIDRExternalIDPrefix ''node-1'') (mem_view stocked_world)
     (mem_view (snd (DeleteNodePodCIDRPrefixes (mem_api 50) demo_slug ''node-1'' stocked_world)))"
  by (rule triple_at[OF DeleteNodePodCIDRPrefixes_correct[OF lawful_mem_api] refl]) (simp add: run_simps)



section \<open>Counting\<close>

definition counts :: "('w \<Rightarrow> nb_view) \<Rightarrow> nb_view \<Rightarrow> ('w, 64 word) go \<Rightarrow> nat \<Rightarrow> bool" where
  "counts view v m n \<longleftrightarrow>
     triple (\<lambda>w. view w = v) m (\<lambda>c w. view w = v \<and> c = word_of_nat n) (\<lambda>_ w. view w = v)"

text \<open>The five counts return the number of objects of their kind that carry the managed tag,
  however many pages these take, and change nothing.\<close>

theorem counts_correct:
  assumes "lawful psize view client"
  shows "counts view v (CountManagedDevices client slug) (card (managed device_kind slug v)) \<and>
    counts view v (CountManagedVirtualMachines client slug) (card (managed vm_kind slug v)) \<and>
    counts view v (CountManagedServiceIPs client slug) (card (managed ip_kind slug v)) \<and>
    counts view v (CountManagedPrefixes client slug) (card (managed prefix_kind slug v)) \<and>
    counts view v (CountManagedAggregates client slug) (card (managed aggregate_kind slug v))"
proof -
  have "lawful_ep psize view device_kind (DcimDevices client)"
    and "lawful_ep psize view vm_kind (VirtualizationVirtualMachines client)"
    and "lawful_ep psize view ip_kind (IpamIPAddresses client)"
    and "lawful_ep psize view prefix_kind (IpamPrefixes client)"
    and "lawful_ep psize view aggregate_kind (IpamAggregates client)"
    using assms by (simp_all add: lawful_def)
  note eps = this
  show ?thesis
    unfolding counts_def
    by (intro conjI device_count.count_triple[OF eps(1)] vm_count.count_triple[OF eps(2)]
        ip_count.count_triple[OF eps(3)] pfx_count.count_triple[OF eps(4)] agg_count.count_triple[OF eps(5)])
qed

theorem counts_witness:
  "fst (CountManagedServiceIPs (mem_api 1) demo_slug stocked_world) = Ok 2 \<and>
   word_of_nat (card (managed ip_kind demo_slug (mem_view stocked_world))) = (2 :: 64 word)"
proof -
  have run: "fst (CountManagedServiceIPs (mem_api 1) demo_slug stocked_world) = Ok 2" by (simp add: run_simps)
  note all = counts_correct[OF lawful_mem_api, where v = "mem_view stocked_world" and slug = demo_slug and psize = 1]
  have "triple (\<lambda>w. mem_view w = mem_view stocked_world) (CountManagedServiceIPs (mem_api 1) demo_slug)
      (\<lambda>c w. mem_view w = mem_view stocked_world \<and>
        c = word_of_nat (card (managed ip_kind demo_slug (mem_view stocked_world))))
      (\<lambda>_ w. mem_view w = mem_view stocked_world)"
    using all unfolding counts_def by (elim conjE)
  from triple_at[OF this refl run] run show ?thesis by simp
qed

section \<open>The managed tag and the custom field\<close>

lemmas [run_simps] = EnsureManagedTag_def managed_tag_data_def EnsureExternalIDCustomField_def external_id_field_def

text \<open>EnsureManagedTag returns a tag with the slug asked for. It creates one only if there
  is none, so a call on a NetBox that has the tag changes nothing; nothing but the tags is
  ever changed.\<close>

theorem EnsureManagedTag_correct:
  assumes "lawful_tags view client"
  shows "triple (\<lambda>w. view w = v) (EnsureManagedTag client slug)
    (\<lambda>t w. tg_Slug t = Some slug \<and> tag_present slug (view w) \<and>
       (if tag_present slug v then view w = v
        else \<exists>i d. v_tags v i = None \<and> td_Slug d = slug \<and> view w = v\<lparr>v_tags := (v_tags v)(i \<mapsto> d)\<rparr>))
    (\<lambda>_ w. view w = v \<or> \<not> tag_present slug v \<and>
       (\<exists>i d. v_tags v i = None \<and> td_Slug d = slug \<and> view w = v\<lparr>v_tags := (v_tags v)(i \<mapsto> d)\<rparr>))"
  by (rule triple_post[OF EnsureManagedTag_triple[OF assms]]) (auto simp: tag_ensured_def)

theorem EnsureManagedTag_witness:
  "fst (EnsureManagedTag (mem_api 50) demo_slug demo_world) = Ok demo_tag \<and>
   mem_view (snd (EnsureManagedTag (mem_api 50) demo_slug demo_world)) = mem_view demo_world"
proof -
  have run: "fst (EnsureManagedTag (mem_api 50) demo_slug demo_world) = Ok demo_tag" by (simp add: run_simps)
  have "tag_present demo_slug (mem_view demo_world)"
    unfolding tag_present_def by (rule exI[of _ 1]) (simp add: mem_view_def run_simps)
  with triple_at[OF EnsureManagedTag_correct[OF lawful_mem_tags] refl run] show ?thesis by simp
qed

text \<open>After EnsureExternalIDCustomField succeeds, NetBox has a custom field of the name Herald
  reads and writes; one is created, for the six object types Herald syncs, only if there was
  none, and nothing else is ever changed.\<close>

theorem EnsureExternalIDCustomField_correct:
  assumes "lawful_fields view client"
  shows "triple (\<lambda>w. view w = v) (EnsureExternalIDCustomField client)
    (\<lambda>_ w. field_present (view w) \<and> (if field_present v then view w = v else field_ensured v (view w)))
    (\<lambda>_ w. field_ensured v (view w))"
  by (rule triple_post[OF EnsureExternalIDCustomField_triple[OF assms]]) (auto simp: field_ensured_def)

theorem EnsureExternalIDCustomField_witness:
  "fst (EnsureExternalIDCustomField (mem_api 50) demo_world) = Ok () \<and>
   field_present (mem_view (snd (EnsureExternalIDCustomField (mem_api 50) demo_world)))"
proof -
  have run: "fst (EnsureExternalIDCustomField (mem_api 50) demo_world) = Ok ()" by (simp add: run_simps)
  from triple_at[OF EnsureExternalIDCustomField_correct[OF lawful_mem_fields] refl run] show ?thesis by simp
qed

text \<open>A field of the name Herald uses that can be set on every type of object Herald writes.\<close>

definition field_scoped :: "nb_view \<Rightarrow> bool" where
  "field_scoped v \<longleftrightarrow> (\<exists>i d. v_fields v i = Some d \<and> cd_Name d = ExternalIDFieldName \<and>
     set externalIDFieldObjectTypes \<subseteq> set (cd_ObjectTypes d))"

lemma field_ensured_scoped: "field_ensured v v' \<Longrightarrow> field_present v' \<Longrightarrow> \<not> field_present v \<Longrightarrow> field_scoped v'"
  by (auto simp: field_ensured_def field_scoped_def)

text \<open>C32: EnsureManagedTag returns a tag with the slug asked for and EnsureExternalIDCustomField leaves
  a field of the name Herald reads and writes. Each creates what it is for only if there is none,
  so a call on a NetBox that has it changes nothing, and nothing else is ever changed. A field that is
  created is one for every type of object Herald writes; a field of the name that exists already is left
  as it is, also when it is not one for all of them.\<close>

theorem bootstrap_correct:
  assumes "lawful_tags view client" and "lawful_fields view client"
  shows "triple (\<lambda>w. view w = v) (EnsureManagedTag client slug)
      (\<lambda>t w. tg_Slug t = Some slug \<and> tag_present slug (view w) \<and>
         (if tag_present slug v then view w = v
          else \<exists>i d. v_tags v i = None \<and> td_Slug d = slug \<and> view w = v\<lparr>v_tags := (v_tags v)(i \<mapsto> d)\<rparr>))
      (\<lambda>_ w. view w = v \<or> \<not> tag_present slug v \<and>
         (\<exists>i d. v_tags v i = None \<and> td_Slug d = slug \<and> view w = v\<lparr>v_tags := (v_tags v)(i \<mapsto> d)\<rparr>)) \<and>
    triple (\<lambda>w. view w = v) (EnsureExternalIDCustomField client)
      (\<lambda>_ w. field_present (view w) \<and>
         (if field_present v then view w = v else field_ensured v (view w) \<and> field_scoped (view w)))
      (\<lambda>_ w. field_ensured v (view w))"
proof (intro conjI EnsureManagedTag_correct[OF assms(1)])
  show "triple (\<lambda>w. view w = v) (EnsureExternalIDCustomField client)
      (\<lambda>_ w. field_present (view w) \<and>
         (if field_present v then view w = v else field_ensured v (view w) \<and> field_scoped (view w)))
      (\<lambda>_ w. field_ensured v (view w))"
    by (rule triple_post[OF EnsureExternalIDCustomField_correct[OF assms(2)]])
      (auto intro: field_ensured_scoped split: if_splits)
qed

theorem bootstrap_witness:
  "field_present (mem_view (snd (EnsureExternalIDCustomField (mem_api 50) demo_world)))"
proof -
  have run: "fst (EnsureExternalIDCustomField (mem_api 50) demo_world) = Ok ()" by (simp add: run_simps)
  from triple_at[OF conjunct2[OF bootstrap_correct[OF lawful_mem_tags lawful_mem_fields]] refl run] show ?thesis by simp
qed

section \<open>Resolving names\<close>

text \<open>A lookup reads only, finds an ID in \<open>S\<close>, and fails only if listing does or \<open>S\<close> is empty.\<close>

definition resolves :: "('w \<Rightarrow> nb_view) \<Rightarrow> nb_view \<Rightarrow> ('w, int) go \<Rightarrow> int set \<Rightarrow> bool" where
  "resolves view v m S \<longleftrightarrow> triple (\<lambda>w. view w = v) m (\<lambda>i w. view w = v \<and> i \<in> S)
     (\<lambda>e w. view w = v \<and> ((\<exists>fmt cause. e = Errorf fmt [AErr cause]) \<or> S = {}))"

lemma resolvesI:
  assumes "triple (\<lambda>w. view w = v) m (\<lambda>i w. view w = v \<and> i \<in> S)
     (\<lambda>e w. view w = v \<and> ((\<exists>e'. e = Errorf f [AErr e']) \<or> e = Errorf g [AStr n] \<and> (fits \<longrightarrow> S = {})))" and fits
  shows "resolves view v m S"
  unfolding resolves_def using assms(1) by (rule triple_post) (use assms(2) in blast)+

text \<open>Each lookup by name returns the ID of a reference object of exactly that name (or model,
  for device types); if there is one, it does not report the name as missing.\<close>

theorem lookups_correct:
  assumes "lawful psize view client"
  shows "resolves view v (LookupSiteID client n) (v_refs v RSite n) \<and>
    resolves view v (LookupClusterTypeID client n) (v_refs v RClusterType n) \<and>
    resolves view v (LookupClusterGroupID client n) (v_refs v RClusterGroup n) \<and>
    resolves view v (LookupDeviceRoleID client n) (v_refs v RDeviceRole n) \<and>
    resolves view v (LookupDeviceTypeID client n) (v_refs v RDeviceType n) \<and>
    resolves view v (LookupRIRID client n) (v_refs v RRIR n) \<and>
    resolves view v (LookupPlatformID client n) (v_refs v RPlatform n)"
  using lawful_lookups[OF assms]
  by (intro conjI)
    (rule resolvesI[OF site.lookup_triple], assumption, rule TrueI,
     rule resolvesI[OF cluster_type.lookup_triple], assumption, rule TrueI,
     rule resolvesI[OF cluster_group.lookup_triple], assumption, rule TrueI,
     rule resolvesI[OF device_role.lookup_triple], assumption, rule TrueI,
     rule resolvesI[OF device_model.lookup_triple], assumption, rule TrueI,
     rule resolvesI[OF rir.lookup_triple], assumption, rule TrueI,
     rule resolvesI[OF platform.lookup_triple], assumption, rule TrueI)

theorem lookups_witness:
  "fst (LookupSiteID (mem_api 50) ''lab'' demo_world) = Ok 3 \<and>
   3 \<in> v_refs (mem_view demo_world) RSite ''lab''"
proof -
  have run: "fst (LookupSiteID (mem_api 50) ''lab'' demo_world) = Ok 3" by (simp add: run_simps)
  have "resolves mem_view (mem_view demo_world) (LookupSiteID (mem_api 50) ''lab'') (v_refs (mem_view demo_world) RSite ''lab'')"
    by (rule conjunct1[OF lookups_correct[OF lawful_mem_api]])
  from triple_at[OF this[unfolded resolves_def] refl run] run show ?thesis by simp
qed

text \<open>LookupClusterID returns the ID of a cluster of exactly that name, and does not report
  the name as missing if the clusters whose name differs at most in case fit on a page.\<close>

theorem LookupClusterID_correct:
  assumes "lawful psize view client" and "card (clusters_like v n) \<le> psize"
  shows "resolves view v (LookupClusterID client n) {i. \<exists>d. v_clusters v i = Some d \<and> wc_Name d = n}"
proof -
  have eq: "{i. \<exists>d. v_clusters v i = Some d \<and> wc_Name d = n} = clusters_named v n"
    by (auto simp: clusters_named_iff)
  show ?thesis unfolding eq
    by (rule resolvesI[OF cluster_name.lookup_triple[OF lawful_lookups(8)[OF assms(1)]] assms(2)])
qed

theorem LookupClusterID_witness:
  "fst (LookupClusterID (mem_api 50) ''prod'' stocked_world) = Ok 1 \<and>
   (\<exists>d. v_clusters (mem_view stocked_world) 1 = Some d \<and> wc_Name d = ''prod'')"
proof -
  let ?v = "mem_view stocked_world"
  have run: "fst (LookupClusterID (mem_api 50) ''prod'' stocked_world) = Ok 1" by (simp add: run_simps)
  have dom: "dom (v_clusters ?v) = {1}" by (simp add: mem_view_def run_simps)
  have "clusters_like ?v ''prod'' \<subseteq> {1}"
    unfolding dom[symmetric] by (auto simp: clusters_like_def candidates_def kind_defs)
  then have "card (clusters_like ?v ''prod'') \<le> 50"
    using card_mono[of "{1 :: int}" "clusters_like ?v ''prod''"] by simp
  from triple_at[OF LookupClusterID_correct[OF lawful_mem_api this, unfolded resolves_def] refl run] run
  show ?thesis by simp
qed

end
