(* ===== verification/Controller_Properties.thy ===== *)
theory Controller_Properties
  imports Manager Kubernetes_Memory NetBox_Properties
begin

text \<open>
  What a reconcile achieves: for each resource reconciler, the state of NetBox after a run that
  asks to be run again after the resync interval, and what becomes of a run that fails.
\<close>

section \<open>Syncing one owner's objects\<close>

text \<open>\<open>matches\<close>: one owner's objects, those whose external ID starts with \<open>pre\<close>, are exactly one
  per desired external ID, each as \<open>R\<close> says.\<close>

definition matches :: "('o, 'd writable_scheme) kind \<Rightarrow> string \<Rightarrow> string \<Rightarrow> (string \<Rightarrow> 'd writable_scheme \<Rightarrow> bool) \<Rightarrow>
    string list \<Rightarrow> nb_view \<Rightarrow> bool" where
  "matches K slug pre R xs v \<longleftrightarrow> (\<forall>y. prefix pre y \<longrightarrow>
     (if y \<in> set xs then \<exists>i d. ids_for K slug y v = {i} \<and> k_get K v i = Some d \<and> R y d
      else ids_for K slug y v = {}))"

lemma synced_iff: "synced psize K slug pre R xs v v' \<longleftrightarrow> sync_frame K slug pre v v' \<and>
    (unique_ids K slug v \<and> card (managed K slug v) + length xs \<le> psize \<longrightarrow>
       unique_ids K slug v' \<and> card (managed K slug v') \<le> card (managed K slug v) + length xs \<and>
       (\<forall>y \<in> set xs. ids_for K slug y v \<noteq> {} \<longrightarrow> ids_for K slug y v' = ids_for K slug y v) \<and>
       matches K slug pre R xs v')"
  by (simp add: synced_def settled_def matches_def)

text \<open>C5: syncServiceAddresses that succeeds leaves the managed IP addresses of one Service as
  its ingress addresses say, one object per address, with the address as a host prefix, and no
  others, if the external IDs of managed IP addresses were unique and these and the addresses of the
  Service together fit on one page of a listing. Without that condition, and whatever the outcome,
  it still changes no object without the managed tag and none of another owner; beyond a page
  nothing more is claimed.\<close>

theorem syncServiceAddresses_correct:
  assumes "lawful psize view api"
  shows "triple (\<lambda>w. view w = v) (syncServiceAddresses api slug svc)
    (\<lambda>_ w. sync_frame ip_kind slug (serviceExternalIDPrefix (svc_Namespace svc) (svc_Name svc)) v (view w) \<and>
       (unique_ids ip_kind slug v \<and> card (managed ip_kind slug v) + length (desired_addresses svc) \<le> psize \<longrightarrow>
          unique_ids ip_kind slug (view w) \<and>
          matches ip_kind slug (serviceExternalIDPrefix (svc_Namespace svc) (svc_Name svc))
            (address_recorded svc) (desired_addresses svc) (view w)))
    (\<lambda>_ w. sync_frame ip_kind slug (serviceExternalIDPrefix (svc_Namespace svc) (svc_Name svc)) v (view w))"
  by (rule triple_post[OF service_sync.sync_triple[OF assms, unfolded synced_iff]]) auto

definition demo_service :: service where
  "demo_service = \<lparr>svc_Namespace = ''ns'', svc_Name = ''web'', svc_Type = ServiceTypeLoadBalancer,
     svc_Ingress = [''10.0.0.7'', []]\<rparr>"

lemmas [run_simps] = syncServiceAddresses_def ExternalIDForServiceAddress_def service_description_def
  assertExternalID_def

lemma demo_service_cidr: "cidrForIP ''10.0.0.7'' = Inr ''10.0.0.7/32''"
  by code_simp

lemma demo_service_run: "fst (syncServiceAddresses (mem_api 50) demo_slug demo_service stocked_world) = Ok ()"
  by (simp add: demo_service_def demo_service_cidr run_simps)

lemma stocked_unique:
  "unique_ids ip_kind demo_slug (mem_view stocked_world)" "card (managed ip_kind demo_slug (mem_view stocked_world)) = 2"
  "unique_ids prefix_kind demo_slug (mem_view stocked_world)" "card (managed prefix_kind demo_slug (mem_view stocked_world)) = 1"
proof -
  have ips: "{i. \<exists>d. v_ips (mem_view stocked_world) i = Some d \<and> has_tag demo_slug d} = {1, 2}"
    and pfx: "{i. \<exists>d. v_prefixes (mem_view stocked_world) i = Some d \<and> has_tag demo_slug d} = {1}"
    by (auto simp: mem_view_def run_simps split: if_splits)
  show "card (managed ip_kind demo_slug (mem_view stocked_world)) = 2"
    and "card (managed prefix_kind demo_slug (mem_view stocked_world)) = 1"
    by (simp_all add: managed_def ip_kind_def prefix_kind_def ips pfx)
  show "unique_ids ip_kind demo_slug (mem_view stocked_world)" "unique_ids prefix_kind demo_slug (mem_view stocked_world)"
    by (auto simp: unique_ids_def ids_for_def ext_of_def mem_view_def run_simps split: if_splits)
qed

theorem syncServiceAddresses_witness:
  "fst (syncServiceAddresses (mem_api 50) demo_slug demo_service stocked_world) = Ok () \<and>
   matches ip_kind demo_slug (serviceExternalIDPrefix ''ns'' ''web'') (address_recorded demo_service)
     [''ns/web/10.0.0.7''] (mem_view (snd (syncServiceAddresses (mem_api 50) demo_slug demo_service stocked_world)))"
proof -
  have "desired_addresses demo_service = [''ns/web/10.0.0.7'']"
    by (simp add: desired_addresses_def addresses_of_def demo_service_def run_simps)
  with triple_at[OF syncServiceAddresses_correct[OF lawful_mem_api] refl demo_service_run] stocked_unique
  show ?thesis by (simp add: demo_service_def)
qed

text \<open>C6: syncNodePrefixes that succeeds leaves the managed prefixes of one Node as its pod
  CIDRs say, one object per CIDR and no others, if the external IDs of managed prefixes were unique
  and these and the pod CIDRs of the Node together fit on one page of a listing. Without that
  condition, and whatever the outcome, it still changes no object without the managed tag and none
  of another owner; beyond a page nothing more is claimed.\<close>

theorem syncNodePrefixes_correct:
  assumes "lawful psize view api"
  shows "triple (\<lambda>w. view w = v) (syncNodePrefixes api slug node)
    (\<lambda>_ w. sync_frame prefix_kind slug (nodePodCIDRExternalIDPrefix (nod_Name node)) v (view w) \<and>
       (unique_ids prefix_kind slug v \<and> card (managed prefix_kind slug v) + length (desired_prefixes node) \<le> psize \<longrightarrow>
          unique_ids prefix_kind slug (view w) \<and>
          matches prefix_kind slug (nodePodCIDRExternalIDPrefix (nod_Name node))
            (cidr_recorded node) (desired_prefixes node) (view w)))
    (\<lambda>_ w. sync_frame prefix_kind slug (nodePodCIDRExternalIDPrefix (nod_Name node)) v (view w))"
  by (rule triple_post[OF prefix_sync.sync_triple[OF assms, unfolded synced_iff]]) auto

definition demo_node :: node where
  "demo_node = \<lparr>nod_Name = ''node-1'', nod_UID = ''uid-2'', nod_PodCIDRs = [''10.1.7.0/24'']\<rparr>"

lemmas [run_simps] = syncNodePrefixes_def ExternalIDForNodePodCIDR_def prefix_description_def

theorem syncNodePrefixes_witness:
  "fst (syncNodePrefixes (mem_api 50) demo_slug demo_node stocked_world) = Ok () \<and>
   matches prefix_kind demo_slug (nodePodCIDRExternalIDPrefix ''node-1'') (cidr_recorded demo_node)
     [''node-1/10.1.7.0/24''] (mem_view (snd (syncNodePrefixes (mem_api 50) demo_slug demo_node stocked_world)))"
proof -
  have run: "fst (syncNodePrefixes (mem_api 50) demo_slug demo_node stocked_world) = Ok ()"
    by (simp add: demo_node_def run_simps)
  have "desired_prefixes demo_node = [''node-1/10.1.7.0/24'']"
    by (simp add: desired_prefixes_def demo_node_def run_simps)
  with triple_at[OF syncNodePrefixes_correct[OF lawful_mem_api] refl run] stocked_unique
  show ?thesis by (simp add: demo_node_def)
qed

section \<open>Runs of a reconciler\<close>

lemma bind_StoreGet: "bind StoreGet k w = k (sto_spec (w_store w), sto_client (w_store w)) w"
  by (simp add: StoreGet_apply bind_apply)

lemma status_tail:
  assumes "bind status (\<lambda>_. ret res) w = (Ok r, w')" and "\<And>v. keeps (\<lambda>w. view w = v) status"
  shows "r = res \<and> view w' = view w"
  using assms(1) keeps_view[OF assms(2)] by (elim bind_OkE ret_OkE) auto

lemma lawful_worldD:
  assumes "lawful_world psize view env"
  shows "kube_keeps (\<lambda>w. view w = v) env" and "lawful psize view (Netbox env c)"
  using assms unfolding lawful_world_def by blast+

lemma count_reads:
  assumes "lawful psize view api"
  shows "keeps (\<lambda>w. view w = v) (CountManagedDevices api slug)"
    and "keeps (\<lambda>w. view w = v) (CountManagedVirtualMachines api slug)"
    and "keeps (\<lambda>w. view w = v) (CountManagedServiceIPs api slug)"
    and "keeps (\<lambda>w. view w = v) (CountManagedPrefixes api slug)"
    and "keeps (\<lambda>w. view w = v) (CountManagedAggregates api slug)"
proof -
  have "lawful_ep psize view device_kind (DcimDevices api)"
    and "lawful_ep psize view vm_kind (VirtualizationVirtualMachines api)"
    and "lawful_ep psize view ip_kind (IpamIPAddresses api)"
    and "lawful_ep psize view prefix_kind (IpamPrefixes api)"
    and "lawful_ep psize view aggregate_kind (IpamAggregates api)"
    using assms by (simp_all add: lawful_def)
  note eps = this
  show "keeps (\<lambda>w. view w = v) (CountManagedDevices api slug)"
    by (rule keeps_triple[OF device_count.count_triple[OF eps(1)]]) simp
  show "keeps (\<lambda>w. view w = v) (CountManagedVirtualMachines api slug)"
    by (rule keeps_triple[OF vm_count.count_triple[OF eps(2)]]) simp
  show "keeps (\<lambda>w. view w = v) (CountManagedServiceIPs api slug)"
    by (rule keeps_triple[OF ip_count.count_triple[OF eps(3)]]) simp
  show "keeps (\<lambda>w. view w = v) (CountManagedPrefixes api slug)"
    by (rule keeps_triple[OF pfx_count.count_triple[OF eps(4)]]) simp
  show "keeps (\<lambda>w. view w = v) (CountManagedAggregates api slug)"
    by (rule keeps_triple[OF agg_count.count_triple[OF eps(5)]]) simp
qed

lemma status_reads:
  assumes "lawful_world psize view env"
  shows "keeps (\<lambda>w. view w = v) (syncNodesStatus env slug spec err)"
    and "keeps (\<lambda>w. view w = v) (syncServicesStatus env slug spec err)"
    and "keeps (\<lambda>w. view w = v) (syncPodCIDRStatus env slug spec err)"
  by (rule syncNodesStatus_keeps syncServicesStatus_keeps syncPodCIDRStatus_keeps;
      rule lawful_worldD[OF assms] count_reads[OF lawful_worldD(2)[OF assms]])+

text \<open>The Kubernetes objects a reconcile reads are read before NetBox is touched.\<close>

lemma kube_reads:
  assumes "lawful_world psize view env"
  shows "GetNode env n w = (r, w') \<Longrightarrow> view w' = view w"
    and "GetService env ns n w = (r', w') \<Longrightarrow> view w' = view w"
    and "GetHeraldConfig env n w = (r'', w') \<Longrightarrow> view w' = view w"
    and "GetNamespace env n w = (r3, w') \<Longrightarrow> view w' = view w"
    and "ListNodes env w = (r4, w') \<Longrightarrow> view w' = view w"
    and "Now env w = (r5, w') \<Longrightarrow> view w' = view w"
    and "UpdateStatus env cr w = (r6, w') \<Longrightarrow> view w' = view w"
  by (erule keeps_view[OF kube_keepsD(4)[OF lawful_worldD(1)[OF assms]]],
     erule keeps_view[OF kube_keepsD(5)[OF lawful_worldD(1)[OF assms]]],
     erule keeps_view[OF kube_keepsD(1)[OF lawful_worldD(1)[OF assms]]],
     erule keeps_view[OF kube_keepsD(3)[OF lawful_worldD(1)[OF assms]]],
     erule keeps_view[OF kube_keepsD(6)[OF lawful_worldD(1)[OF assms]]],
     erule keeps_view[OF kube_keepsD(10)[OF lawful_worldD(1)[OF assms]]],
     erule keeps_view[OF kube_keepsD(8)[OF lawful_worldD(1)[OF assms]]])

text \<open>What a successful reconcile of a Service leaves behind.\<close>

definition service_reconciled :: "nat \<Rightarrow> HeraldConfigSpec \<Rightarrow> service \<Rightarrow> nb_view \<Rightarrow> nb_view \<Rightarrow> bool" where
  "service_reconciled psize spec svc v v' \<longleftrightarrow>
     (let slug = resolveManagedTagSlug spec; services = rc_Services (hs_Resources spec);
          pre = serviceExternalIDPrefix (svc_Namespace svc) (svc_Name svc) in
      if sv_Enabled services \<and> svc_Type svc = ServiceTypeLoadBalancer
      then synced psize ip_kind slug pre (address_recorded svc) (desired_addresses svc) v v'
      else if sv_Enabled services \<or> \<not> sv_RetainOnDisable services then cleared psize ip_kind slug pre v v'
      else v' = v)"

lemma DeleteServiceIPs_cleared:
  assumes "lawful psize view api" and "DeleteServiceIPs api slug ns n w = (Ok u, w')"
  shows "cleared psize ip_kind slug (serviceExternalIDPrefix ns n) (view w) (view w')"
proof -
  have ip: "lawful_ep psize view ip_kind (IpamIPAddresses api)" using assms(1) by (simp add: lawful_def)
  have "pruned psize ip_kind slug (serviceExternalIDPrefix ns n) {} (view w) (view w')"
    using triple_OkD[OF ip_owner.delete_owned_triple[OF ip, of "view w" slug "(ns, n)"]] assms(2) by simp
  then show ?thesis by (rule pruned_cleared[OF kind_ok_kinds(4)])
qed

lemma reconcileService_run:
  assumes law: "lawful_world psize view env"
    and spec: "sto_spec (w_store w) = Some spec" and client: "sto_client (w_store w) = Some c"
    and run: "reconcileService env req w = (Ok r, w')" and again: "RequeueAfter r \<noteq> 0"
  shows "RequeueAfter r = resolveResyncInterval spec \<and>
    (\<exists>svc. fst (GetService env (rq_Namespace req) (rq_Name req) w) = Ok svc \<and>
       service_reconciled psize spec svc (view w) (view w'))"
proof -
  note status = status_tail[OF _ status_reads(2)[OF law]] and api = lawful_worldD(2)[OF law]
  have stop: "bind st (\<lambda>_. ret no_requeue) u = (Ok r, u') \<Longrightarrow> False" for st :: "('a world_scheme, unit) go" and u u'
    using again by (elim bind_OkE ret_OkE) (simp add: no_requeue_def)
  show ?thesis
    using run unfolding reconcileService_def bind_StoreGet spec client prod.case option.case Let_def
  proof (cases rule: if_err_OkE)
    case (err e w1)
    from err(2) stop show ?thesis
      by (auto simp: if_err_def fail_def split: if_splits outcome.splits prod.splits)
  next
    case (ok svc w1)
    have v1: "view w1 = view w" by (rule kube_reads(2)[OF law ok(1)])
    show ?thesis
    proof (cases "sv_Enabled (rc_Services (hs_Resources spec)) \<and> svc_Type svc = ServiceTypeLoadBalancer")
      case True
      from ok(2) show ?thesis unfolding if_not_P[OF not_not[THEN iffD2, OF True]]
      proof (cases rule: if_err_OkE)
        case ok2: (ok u w2)
        have "synced psize ip_kind (resolveManagedTagSlug spec) (serviceExternalIDPrefix (svc_Namespace svc) (svc_Name svc))
            (address_recorded svc) (desired_addresses svc) (view w1) (view w2)"
          using triple_OkD[OF service_sync.sync_triple[OF api] refl ok2(1)] by simp
        then show ?thesis using status[OF ok2(2)] True ok(1) v1 by (simp add: service_reconciled_def)
      qed (use stop in blast)
    next
      case False
      from ok(2) show ?thesis unfolding if_P[OF False]
      proof (cases rule: if_err_OkE)
        case ok2: (ok u w2)
        have "view w' = view w2" "r = \<lparr>RequeueAfter = resolveResyncInterval spec\<rparr>" using status[OF ok2(2)] by simp_all
        moreover have "cleared psize ip_kind slug (serviceExternalIDPrefix ns n) (view w) (view w2)"
          if "DeleteServiceIPs (Netbox env c) slug ns n w1 = (Ok u, w2)" for slug ns n
          using DeleteServiceIPs_cleared[OF api that] by (simp only: v1)
        ultimately show ?thesis using ok2(1) False ok(1) v1
          by (auto simp: service_reconciled_def Let_def ret_def split: if_splits)
      qed (use stop in blast)
    qed
  qed
qed


lemma EnsureManagedTag_run:
  assumes "lawful psize view api" and "EnsureManagedTag api slug w = (Ok t, w')"
  shows "tg_Slug t = Some slug" and "tag_ensured slug (view w) (view w')"
proof -
  have "lawful_tags view api" using assms(1) by (simp add: lawful_def)
  from triple_OkD[OF EnsureManagedTag_triple[OF this] refl assms(2)]
  show "tg_Slug t = Some slug" and "tag_ensured slug (view w) (view w')" by blast+
qed

subsection \<open>Nodes\<close>

text \<open>What the device or virtual machine of a Node records.\<close>

definition node_device :: "HeraldConfigSpec \<Rightarrow> node \<Rightarrow> nb_view \<Rightarrow> writable_device \<Rightarrow> bool" where
  "node_device spec node v d \<longleftrightarrow> (let cfg = nd_Device (rc_Nodes (hs_Resources spec)) in
     wd_Name d = nod_Name node \<and> wd_DeviceType d \<in> v_refs v RDeviceType (dm_DeviceTypeName cfg) \<and>
     wd_Role d \<in> v_refs v RDeviceRole (dm_DeviceRoleName cfg) \<and> wd_Site d \<in> v_refs v RSite (dm_SiteName cfg))"

definition node_vm :: "HeraldConfigSpec \<Rightarrow> node \<Rightarrow> nb_view \<Rightarrow> writable_vm \<Rightarrow> bool" where
  "node_vm spec node v d \<longleftrightarrow> (let cfg = nd_VirtualMachine (rc_Nodes (hs_Resources spec));
       cluster = (if vm_ClusterName cfg = '''' then cl_Name (rc_Cluster (hs_Resources spec)) else vm_ClusterName cfg) in
     wv_Name d = nod_Name node \<and> wv_Cluster d \<in> clusters_named v cluster \<and>
     (vm_PlatformName cfg \<noteq> '''' \<longrightarrow> (\<exists>p \<in> v_refs v RPlatform (vm_PlatformName cfg). wv_Platform d = Some p)))"

definition node_ensured :: "nat \<Rightarrow> HeraldConfigSpec \<Rightarrow> string \<Rightarrow> node \<Rightarrow> nb_view \<Rightarrow> nb_view \<Rightarrow> bool" where
  "node_ensured psize spec slug node v v' \<longleftrightarrow> (let mapping = nd_Mapping (rc_Nodes (hs_Resources spec)) in
     mapping = NodeMappingDevice \<and> (\<exists>i. upserted psize device_kind slug (nod_UID node) (node_device spec node v) i v v') \<or>
     mapping = NodeMappingVirtualMachine \<and> (\<exists>i. upserted psize vm_kind slug (nod_UID node) (node_vm spec node v) i v v'))"

lemma ensureNode_ensured:
  assumes law: "lawful psize view api" and tag: "tg_Slug t = Some slug" and run: "ensureNode api spec node t w = (Ok x, w')"
  shows "nd_Mapping (rc_Nodes (hs_Resources spec)) = NodeMappingDevice \<and>
      (\<exists>i. ensured psize device_kind slug (nod_UID node) (node_device spec node (view w)) i (view w) (view w')) \<or>
    nd_Mapping (rc_Nodes (hs_Resources spec)) \<noteq> NodeMappingDevice \<and>
      nd_Mapping (rc_Nodes (hs_Resources spec)) = NodeMappingVirtualMachine \<and>
      (\<exists>i. ensured psize vm_kind slug (nod_UID node) (node_vm spec node (view w)) i (view w) (view w'))"
proof (cases "nd_Mapping (rc_Nodes (hs_Resources spec)) = NodeMappingDevice")
  let ?nodes = "rc_Nodes (hs_Resources spec)"
  case dev: True
  let ?s = "\<lparr>ds_Name = nod_Name node, ds_DeviceRoleName = dm_DeviceRoleName (nd_Device ?nodes),
    ds_DeviceTypeName = dm_DeviceTypeName (nd_Device ?nodes), ds_SiteName = dm_SiteName (nd_Device ?nodes),
    ds_ExternalID = nod_UID node, ds_ManagedTag = t\<rparr>"
  from run dev obtain i where run: "EnsureDevice api ?s w = (Ok i, w')"
    by (auto simp: ensureNode_def Let_def elim!: bind_OkE ret_OkE)
  have "device_recorded (view w) ?s = node_device spec node (view w)"
    by (simp add: fun_eq_iff device_recorded_def node_device_def Let_def)
  with triple_OkD[OF EnsureDevice_triple[OF law] refl run] tag dev show ?thesis by auto
next
  let ?nodes = "rc_Nodes (hs_Resources spec)"
  case False
  then have vm: "nd_Mapping ?nodes = NodeMappingVirtualMachine"
    using run by (auto simp: ensureNode_def Let_def fail_def split: if_splits)
  let ?s = "\<lparr>vs_Name = nod_Name node, vs_ClusterName = (if vm_ClusterName (nd_VirtualMachine ?nodes) = ''''
      then cl_Name (rc_Cluster (hs_Resources spec)) else vm_ClusterName (nd_VirtualMachine ?nodes)),
    vs_PlatformName = vm_PlatformName (nd_VirtualMachine ?nodes), vs_ExternalID = nod_UID node, vs_ManagedTag = t\<rparr>"
  from run False vm obtain i where run: "EnsureVirtualMachine api ?s w = (Ok i, w')"
    by (auto simp: ensureNode_def Let_def elim!: bind_OkE ret_OkE)
  have "vm_recorded (view w) ?s = node_vm spec node (view w)"
    by (simp add: fun_eq_iff vm_recorded_def node_vm_def Let_def)
  with triple_OkD[OF EnsureVirtualMachine_triple[OF law] refl run] tag False vm show ?thesis by auto
qed

lemma ensureNode_run:
  assumes law: "lawful psize view api" and tag: "tg_Slug t = Some slug" and run: "ensureNode api spec node t w = (Ok x, w')"
  shows "node_ensured psize spec slug node (view w) (view w')"
  using ensureNode_ensured[OF assms] ensured_upserted[OF kind_ok_kinds(2)] ensured_upserted[OF kind_ok_kinds(3)]
  unfolding node_ensured_def Let_def by blast

definition node_reconciled :: "nat \<Rightarrow> HeraldConfigSpec \<Rightarrow> node \<Rightarrow> nb_view \<Rightarrow> nb_view \<Rightarrow> bool" where
  "node_reconciled psize spec node v v' \<longleftrightarrow>
     (let slug = resolveManagedTagSlug spec; nodes = rc_Nodes (hs_Resources spec); uid = nod_UID node in
      if nd_Enabled nodes then \<exists>u. tag_ensured slug v u \<and> node_ensured psize spec slug node u v'
      else if nd_RetainOnDisable nodes then v' = v
      else if nd_Mapping nodes = NodeMappingVirtualMachine then dropped psize vm_kind slug (ids_for vm_kind slug uid v) v v'
      else dropped psize device_kind slug (ids_for device_kind slug uid v) v v')"

lemma deleteNode_run:
  assumes law: "lawful psize view api" and run: "deleteNodeByExternalID api spec slug x w = (Ok u, w')"
  shows "if nd_Mapping (rc_Nodes (hs_Resources spec)) = NodeMappingVirtualMachine
    then dropped psize vm_kind slug (ids_for vm_kind slug x (view w)) (view w) (view w')
    else dropped psize device_kind slug (ids_for device_kind slug x (view w)) (view w) (view w')"
proof -
  have dev: "lawful_ep psize view device_kind (DcimDevices api)"
    and vm: "lawful_ep psize view vm_kind (VirtualizationVirtualMachines api)"
    using law by (simp_all add: lawful_def)
  show ?thesis
    using run removed_dropped[OF kind_ok_kinds(2) triple_OkD[OF device_delete.delete_ext_triple[OF dev] refl]]
      removed_dropped[OF kind_ok_kinds(3) triple_OkD[OF vm_delete.delete_ext_triple[OF vm] refl]]
    by (auto simp: deleteNodeByExternalID_def split: if_splits)
qed

lemma stops: "bind st (\<lambda>_. ret no_requeue) u = (Ok r, u') \<Longrightarrow> RequeueAfter r = 0"
  by (elim bind_OkE ret_OkE) (simp add: no_requeue_def)

lemma reconcileNode_run:
  assumes law: "lawful_world psize view env"
    and spec: "sto_spec (w_store w) = Some spec" and client: "sto_client (w_store w) = Some c"
    and run: "reconcileNode env req w = (Ok r, w')" and again: "RequeueAfter r \<noteq> 0"
  shows "RequeueAfter r = resolveResyncInterval spec \<and>
    (\<exists>node. fst (GetNode env (rq_Name req) w) = Ok node \<and> node_reconciled psize spec node (view w) (view w'))"
proof -
  note status = status_tail[OF _ status_reads(1)[OF law]] and api = lawful_worldD(2)[OF law]
  let ?nodes = "rc_Nodes (hs_Resources spec)"
  show ?thesis
    using run unfolding reconcileNode_def bind_StoreGet spec client prod.case option.case Let_def
  proof (cases rule: if_err_OkE)
    case (err e w1)
    then have "RequeueAfter r = 0"
      by (auto simp: fail_def split: if_splits elim!: if_err_OkE dest: stops)
    with again show ?thesis by simp
  next
    case (ok node w1)
    have v1: "view w1 = view w" by (rule kube_reads(1)[OF law ok(1)])
    show ?thesis
    proof (cases "nd_Enabled ?nodes")
      case True
      with ok(2) obtain t w2 x w3 where tag: "EnsureManagedTag (Netbox env c) (resolveManagedTagSlug spec) w1 = (Ok t, w2)"
        and ens: "ensureNode (Netbox env c) spec node t w2 = (Ok x, w3)"
        and tail: "bind (syncNodesStatus env (resolveManagedTagSlug spec) spec None)
          (\<lambda>_. ret \<lparr>RequeueAfter = resolveResyncInterval spec\<rparr>) w3 = (Ok r, w')"
        using again by (auto elim!: if_err_OkE dest!: stops)
      note tagged = EnsureManagedTag_run[OF api tag]
      from ensureNode_run[OF api tagged(1) ens] tagged(2) status[OF tail] True ok(1) v1
      show ?thesis by (auto simp: node_reconciled_def Let_def)
    next
      case False
      with ok(2) obtain u w2 where del: "(if \<not> nd_RetainOnDisable ?nodes
            then deleteNodeByExternalID (Netbox env c) spec (resolveManagedTagSlug spec) (nod_UID node) else ret ()) w1 = (Ok u, w2)"
        and tail: "bind (syncNodesStatus env (resolveManagedTagSlug spec) spec None)
          (\<lambda>_. ret \<lparr>RequeueAfter = resolveResyncInterval spec\<rparr>) w2 = (Ok r, w')"
        using again by (auto elim!: if_err_OkE dest!: stops)
      have "node_reconciled psize spec node (view w1) (view w2)"
      proof (cases "nd_RetainOnDisable ?nodes")
        case True
        with del show ?thesis using False by (simp add: node_reconciled_def ret_def)
      next
        case drop: False
        with del deleteNode_run[OF api, of c spec "resolveManagedTagSlug spec" "nod_UID node" w1 u w2] False
        show ?thesis by (simp add: node_reconciled_def)
      qed
      then show ?thesis using status[OF tail] ok(1) v1 by simp
    qed
  qed
qed

subsection \<open>The cluster\<close>

text \<open>C8: a reconcile of a Node that asks to be run again does so after the configured resync
  interval. If the type is enabled, the device or virtual machine of the UID of the Node it read has
  then been written as configured; it is the only one of that UID, if external IDs were unique and
  the managed objects fit on one page. If the type is disabled without retention, an object of that
  UID has been removed, if there was one and the managed objects fit on one page. Otherwise nothing
  in NetBox has changed.\<close>

theorem reconcileNode_correct:
  assumes law: "lawful_world psize view env"
    and spec: "sto_spec (w_store w) = Some spec" and client: "sto_client (w_store w) = Some c"
    and run: "reconcileNode env req w = (Ok r, w')" and again: "RequeueAfter r \<noteq> 0"
  shows "RequeueAfter r = resolveResyncInterval spec \<and>
    (\<exists>node. fst (GetNode env (rq_Name req) w) = Ok node \<and> node_reconciled psize spec node (view w) (view w'))"
  by (rule reconcileNode_run[OF assms])

definition cluster_spec_of :: "HeraldConfigSpec \<Rightarrow> string \<Rightarrow> tag \<Rightarrow> cluster_spec" where
  "cluster_spec_of spec uid t = (let cfg = rc_Cluster (hs_Resources spec) in
     \<lparr>cs_Name = cl_Name cfg, cs_ClusterTypeName = cl_ClusterTypeName cfg,
      cs_ClusterGroupName = cl_ClusterGroupName cfg, cs_SiteName = cl_SiteName cfg,
      cs_ExternalID = uid, cs_ManagedTag = t\<rparr>)"

definition cluster_reconciled :: "nat \<Rightarrow> HeraldConfigSpec \<Rightarrow> string \<Rightarrow> nb_view \<Rightarrow> nb_view \<Rightarrow> bool" where
  "cluster_reconciled psize spec uid v v' \<longleftrightarrow>
     (let slug = resolveManagedTagSlug spec in
      if cl_Enabled (rc_Cluster (hs_Resources spec)) then
        \<exists>u i t. tag_ensured slug v u \<and>
          upserted psize cluster_kind slug uid (cluster_recorded u (cluster_spec_of spec uid t)) i u v'
      else dropped psize cluster_kind slug (ids_for cluster_kind slug uid v) v v')"

lemma updateClusterStatus_reads:
  "lawful_world psize view env \<Longrightarrow> keeps (\<lambda>w. view w = v) (updateClusterStatus env cr status)"
  unfolding updateClusterStatus_def by (auto intro!: keeps_rules lawful_worldD)

lemma reportClusterSyncError_Ok: "reportClusterSyncError env cr e w = (Ok r, w') \<Longrightarrow> P"
  by (auto simp: reportClusterSyncError_def Let_def elim!: bind_OkE fail_OkE)

lemma cluster_enabled_run:
  assumes law: "lawful_world psize view env" and on: "cl_Enabled (rc_Cluster (hs_Resources spec))"
    and run: "if_err (EnsureManagedTag (Netbox env c) (resolveManagedTagSlug spec)) (reportClusterSyncError env cr) (\<lambda>t.
      if_err (EnsureCluster (Netbox env c) (cluster_spec_of spec uid t)) (reportClusterSyncError env cr) (\<lambda>_.
      bind (Now env) (\<lambda>now. bind (updateClusterStatus env cr (status now)) (\<lambda>_. ret res)))) w = (Ok r, w')"
  shows "r = res \<and> cluster_reconciled psize spec uid (view w) (view w')"
proof -
  note api = lawful_worldD(2)[OF law]
  from run obtain t w1 i w2 where tag: "EnsureManagedTag (Netbox env c) (resolveManagedTagSlug spec) w = (Ok t, w1)"
    and ens: "EnsureCluster (Netbox env c) (cluster_spec_of spec uid t) w1 = (Ok i, w2)"
    and rest: "bind (Now env) (\<lambda>now. bind (updateClusterStatus env cr (status now)) (\<lambda>_. ret res)) w2 = (Ok r, w')"
    by (auto elim!: if_err_OkE dest!: reportClusterSyncError_Ok)
  from rest obtain now w3 where now: "Now env w2 = (Ok now, w3)"
    and tail: "bind (updateClusterStatus env cr (status now)) (\<lambda>_. ret res) w3 = (Ok r, w')"
    by (rule bind_OkE)
  have "r = res \<and> view w' = view w2"
    using status_tail[OF tail updateClusterStatus_reads[OF law]] kube_reads(6)[OF law now] by simp
  with ensured_upserted[OF kind_ok_kinds(1) triple_OkD[OF EnsureCluster_triple[OF api] refl ens]]
    EnsureManagedTag_run[OF api tag] on
  show ?thesis by (auto simp: cluster_reconciled_def cluster_spec_of_def Let_def)
qed

lemma cluster_disabled_run:
  assumes law: "lawful_world psize view env" and off: "\<not> cl_Enabled (rc_Cluster (hs_Resources spec))"
    and run: "if_err (DeleteCluster (Netbox env c) (resolveManagedTagSlug spec) uid) (reportClusterSyncError env cr) (\<lambda>_.
      bind (updateClusterStatus env cr status) (\<lambda>_. ret res)) w = (Ok r, w')"
  shows "r = res \<and> cluster_reconciled psize spec uid (view w) (view w')"
proof -
  have cl: "lawful_ep psize view cluster_kind (VirtualizationClusters (Netbox env c))"
    using lawful_worldD(2)[OF law, of c] by (simp add: lawful_def)
  from run obtain u w1 where del: "DeleteCluster (Netbox env c) (resolveManagedTagSlug spec) uid w = (Ok u, w1)"
    and tail: "bind (updateClusterStatus env cr status) (\<lambda>_. ret res) w1 = (Ok r, w')"
    by (auto elim!: if_err_OkE dest!: reportClusterSyncError_Ok)
  from removed_dropped[OF kind_ok_kinds(1) triple_OkD[OF cluster_delete.delete_ext_triple[OF cl] refl del]]
    status_tail[OF tail updateClusterStatus_reads[OF law]] off
  show ?thesis by (simp add: cluster_reconciled_def)
qed

text \<open>C9: a reconcile of the HeraldConfig by the cluster reconciler that asks to be run again
  does so after the resync interval. If the type is enabled, the cluster object of the kube-system
  Namespace's UID has then been written as configured; it is the only one of that UID, if external
  IDs were unique and the managed clusters fit on one page. If it is not enabled, an object of that
  UID has been removed, if there was one and the managed clusters fit on one page.\<close>

theorem reconcileCluster_correct:
  assumes law: "lawful_world psize view env" and name: "rq_Name req = singletonName"
    and spec: "sto_spec (w_store w) = Some spec" and client: "sto_client (w_store w) = Some c"
    and run: "reconcileCluster env req w = (Ok r, w')" and again: "RequeueAfter r \<noteq> 0"
  shows "RequeueAfter r = resolveResyncInterval spec \<and> (\<exists>cr w1 ns.
      GetHeraldConfig env singletonName w = (Ok cr, w1) \<and> fst (GetNamespace env ''kube-system'' w1) = Ok ns \<and>
      cluster_reconciled psize spec (nsp_UID ns) (view w) (view w'))"
  using run unfolding reconcileCluster_def name bind_StoreGet spec client prod.case option.case Let_def
    if_not_P[OF not_not[THEN iffD2, OF refl]]
proof (cases rule: if_err_OkE)
  case (err e w1)
  with again show ?thesis by (auto simp: ret_def fail_def no_requeue_def split: if_splits)
next
  case (ok cr w1)
  from ok(2) obtain ns w2 where ns: "GetNamespace env ''kube-system'' w1 = (Ok ns, w2)"
    and rest: "(if \<not> cl_Enabled (rc_Cluster (hs_Resources spec)) then
          if_err (DeleteCluster (Netbox env c) (resolveManagedTagSlug spec) (nsp_UID ns)) (reportClusterSyncError env cr) (\<lambda>_.
          bind (updateClusterStatus env cr (zero_sync_status
              \<lparr>ss_Enabled := False, ss_ObservedGeneration := hc_Generation cr\<rparr>)) (\<lambda>_.
          ret \<lparr>RequeueAfter = resolveResyncInterval spec\<rparr>))
        else
          if_err (EnsureManagedTag (Netbox env c) (resolveManagedTagSlug spec)) (reportClusterSyncError env cr) (\<lambda>t.
          if_err (EnsureCluster (Netbox env c) (cluster_spec_of spec (nsp_UID ns) t)) (reportClusterSyncError env cr) (\<lambda>_.
          bind (Now env) (\<lambda>now.
          bind (updateClusterStatus env cr (zero_sync_status
              \<lparr>ss_Enabled := True, ss_LastSyncTime := Some now, ss_ObservedGeneration := hc_Generation cr,
               ss_ObjectCount := 1\<rparr>)) (\<lambda>_.
          ret \<lparr>RequeueAfter = resolveResyncInterval spec\<rparr>))))) w2 = (Ok r, w')"
    unfolding cluster_spec_of_def Let_def by (elim bind_OkE wrap_err_OkE) blast
  have "r = \<lparr>RequeueAfter = resolveResyncInterval spec\<rparr> \<and> cluster_reconciled psize spec (nsp_UID ns) (view w2) (view w')"
  proof (cases "cl_Enabled (rc_Cluster (hs_Resources spec))")
    case True
    from rest show ?thesis
      unfolding if_not_P[OF not_not[THEN iffD2, OF True]] by (rule cluster_enabled_run[OF law True])
  next
    case False
    from rest show ?thesis unfolding if_P[OF False] by (rule cluster_disabled_run[OF law False])
  qed
  moreover have "view w2 = view w" using kube_reads(3)[OF law ok(1)] kube_reads(4)[OF law ns] by simp
  ultimately show ?thesis using ok(1) ns by auto
qed

subsection \<open>Pod CIDRs as prefixes\<close>

definition aggregates_dropped :: "nat \<Rightarrow> string \<Rightarrow> nb_view \<Rightarrow> nb_view \<Rightarrow> bool" where
  "aggregates_dropped psize slug v v' \<longleftrightarrow> (\<exists>u.
     dropped psize aggregate_kind slug (ids_for aggregate_kind slug (ExternalIDForPodCIDRAggregate familyIPv4) v) v u \<and>
     dropped psize aggregate_kind slug (ids_for aggregate_kind slug (ExternalIDForPodCIDRAggregate familyIPv6) u) u v')"

lemma delete_aggregate_run:
  assumes "lawful psize view api" and "DeletePodCIDRAggregate api slug x w = (Ok u, w')"
  shows "removed psize aggregate_kind slug x (view w) (view w')"
proof -
  have "lawful_ep psize view aggregate_kind (IpamAggregates api)" using assms(1) by (simp add: lawful_def)
  from triple_OkD[OF agg_delete.delete_ext_triple[OF this] refl assms(2)] show ?thesis .
qed

lemma delete_aggregates_run:
  assumes law: "lawful psize view api"
    and run: "for_each podCIDRAddressFamilies (\<lambda>family.
       DeletePodCIDRAggregate api slug (ExternalIDForPodCIDRAggregate family)) w = (Ok u, w')"
  shows "aggregates_dropped psize slug (view w) (view w')"
proof -
  from run obtain x w1 y w2 where
    "DeletePodCIDRAggregate api slug (ExternalIDForPodCIDRAggregate familyIPv4) w = (Ok x, w1)"
    "DeletePodCIDRAggregate api slug (ExternalIDForPodCIDRAggregate familyIPv6) w1 = (Ok y, w2)" "w' = w2"
    by (auto simp: podCIDRAddressFamilies_def elim!: bind_OkE ret_OkE)
  then show ?thesis
    unfolding aggregates_dropped_def
    using removed_dropped[OF kind_ok_kinds(6) delete_aggregate_run[OF law]] by blast
qed

lemma delete_prefixes_run:
  assumes "lawful psize view api" and "DeleteNodePodCIDRPrefixes api slug n w = (Ok u, w')"
  shows "cleared psize prefix_kind slug (nodePodCIDRExternalIDPrefix n) (view w) (view w')"
proof -
  have px: "lawful_ep psize view prefix_kind (IpamPrefixes api)" using assms(1) by (simp add: lawful_def)
  from triple_OkD[OF pfx_owner.delete_owned_triple[OF px] refl assms(2)] show ?thesis
    by (rule pruned_cleared[OF kind_ok_kinds(5)])
qed

definition prefixes_reconciled :: "nat \<Rightarrow> HeraldConfigSpec \<Rightarrow> node \<Rightarrow> nb_view \<Rightarrow> nb_view \<Rightarrow> bool" where
  "prefixes_reconciled psize spec node v v' \<longleftrightarrow>
     (let slug = resolveManagedTagSlug spec; podCIDRs = rc_PodCIDRs (hs_Resources spec);
          pre = nodePodCIDRExternalIDPrefix (nod_Name node) in
      \<exists>u. aggregates_dropped psize slug v u \<and>
        (if pc_Enabled podCIDRs \<and> nod_PodCIDRs node \<noteq> []
         then synced psize prefix_kind slug pre (cidr_recorded node) (desired_prefixes node) u v'
         else if pc_Enabled podCIDRs \<or> \<not> pc_RetainOnDisable podCIDRs then cleared psize prefix_kind slug pre u v'
         else v' = u))"

lemma prefixes_run:
  assumes law: "lawful psize view api"
    and ag: "aggregates_dropped psize (resolveManagedTagSlug spec) v (view w)"
    and on: "\<not> (pc_Enabled podCIDRs \<and> nod_PodCIDRs node \<noteq> []) \<Longrightarrow>
      (if pc_Enabled podCIDRs \<or> \<not> pc_RetainOnDisable podCIDRs
       then DeleteNodePodCIDRPrefixes api (resolveManagedTagSlug spec) (nod_Name node) else ret ()) w = (Ok u, w')"
    and off: "pc_Enabled podCIDRs \<and> nod_PodCIDRs node \<noteq> [] \<Longrightarrow>
      syncNodePrefixes api (resolveManagedTagSlug spec) node w = (Ok u, w')"
    and cfg: "podCIDRs = rc_PodCIDRs (hs_Resources spec)"
  shows "prefixes_reconciled psize spec node v (view w')"
proof (cases "pc_Enabled podCIDRs \<and> nod_PodCIDRs node \<noteq> []")
  case True
  from triple_OkD[OF prefix_sync.sync_triple[OF law] refl off[OF True]] ag True show ?thesis
    unfolding prefixes_reconciled_def Let_def cfg by auto
next
  case False
  with on[OF False] ag delete_prefixes_run[OF law] show ?thesis
    unfolding prefixes_reconciled_def Let_def cfg by (auto simp: ret_def split: if_splits)
qed

text \<open>C10: with the prefix representation, a reconcile for a Node that asks to be run again
  does so after the resync interval. For each address family an aggregate of Herald's has then been
  removed, if there was one and the managed aggregates fit on one page. If the type is enabled and
  the Node it read has pod CIDRs, its prefixes have been synced: they are exactly its pod CIDRs, if
  external IDs were unique and the managed prefixes and the Node's fit on one page. If it has none
  or the type is disabled without retention, none of its prefixes is left, if the managed ones fit
  on one page. Otherwise the prefixes have not changed.\<close>

theorem reconcilePodCIDR_prefixes_correct:
  assumes law: "lawful_world psize view env"
    and spec: "sto_spec (w_store w) = Some spec" and client: "sto_client (w_store w) = Some c"
    and mode: "pc_Representation (rc_PodCIDRs (hs_Resources spec)) \<noteq> PodCIDRRepresentationAggregate"
    and run: "reconcilePodCIDR env req w = (Ok r, w')" and again: "RequeueAfter r \<noteq> 0"
  shows "RequeueAfter r = resolveResyncInterval spec \<and> (\<exists>w1 node.
      deleteStalePodCIDRAggregates (Netbox env c) (resolveManagedTagSlug spec) w = (Ok (), w1) \<and>
      fst (GetNode env (rq_Name req) w1) = Ok node \<and> prefixes_reconciled psize spec node (view w) (view w'))"
proof -
  note status = status_tail[OF _ status_reads(3)[OF law]] and api = lawful_worldD(2)[OF law]
  let ?slug = "resolveManagedTagSlug spec"
  let ?podCIDRs = "rc_PodCIDRs (hs_Resources spec)"
  let ?tail = "\<lambda>w2. bind (syncPodCIDRStatus env ?slug spec None) (\<lambda>_. ret \<lparr>RequeueAfter = resolveResyncInterval spec\<rparr>) w2"
  from run mode again obtain w1 node w2 where
    stale: "deleteStalePodCIDRAggregates (Netbox env c) ?slug w = (Ok (), w1)"
    and node: "GetNode env (rq_Name req) w1 = (Ok node, w2)"
    and rest: "if \<not> (pc_Enabled ?podCIDRs \<and> nod_PodCIDRs node \<noteq> [])
      then \<exists>w3. (if pc_Enabled ?podCIDRs \<or> \<not> pc_RetainOnDisable ?podCIDRs
             then DeleteNodePodCIDRPrefixes (Netbox env c) ?slug (nod_Name node) else ret ()) w2 = (Ok (), w3) \<and>
           ?tail w3 = (Ok r, w')
      else \<exists>w3. syncNodePrefixes (Netbox env c) ?slug node w2 = (Ok (), w3) \<and> ?tail w3 = (Ok r, w')"
    unfolding reconcilePodCIDR_def bind_StoreGet spec client prod.case option.case Let_def if_not_P[OF mode]
      reconcilePrefixForNode_def
    by (auto simp: ret_apply elim!: if_err_OkE dest!: stops split: if_splits dest: fail_OkE)
  have ag: "aggregates_dropped psize ?slug (view w) (view w2)"
    using delete_aggregates_run[OF api stale[unfolded deleteStalePodCIDRAggregates_def]] kube_reads(1)[OF law node] by simp
  from rest obtain w3 where "\<not> (pc_Enabled ?podCIDRs \<and> nod_PodCIDRs node \<noteq> []) \<Longrightarrow>
      (if pc_Enabled ?podCIDRs \<or> \<not> pc_RetainOnDisable ?podCIDRs
       then DeleteNodePodCIDRPrefixes (Netbox env c) ?slug (nod_Name node) else ret ()) w2 = (Ok (), w3)"
    and "pc_Enabled ?podCIDRs \<and> nod_PodCIDRs node \<noteq> [] \<Longrightarrow> syncNodePrefixes (Netbox env c) ?slug node w2 = (Ok (), w3)"
    and tail: "?tail w3 = (Ok r, w')"
    by (auto split: if_splits)
  from prefixes_run[OF api ag this(1,2) refl] status[OF tail] stale node show ?thesis by auto
qed

section \<open>Runs in memory\<close>

text \<open>A world in which the HeraldConfig has been published, with one Node and one Service.\<close>

definition demo_spec :: HeraldConfigSpec where
  "demo_spec =
     \<lparr>hs_NetBox = \<lparr>nc_URL = ''netbox.example'', nc_TokenSecretRef = \<lparr>sk_Name = ''netbox'', sk_Key = []\<rparr>,
        nc_TLS = \<lparr>tc_InsecureSkipVerify = False, tc_CABundleSecretRef = None\<rparr>, nc_RequestTimeoutSeconds = 30,
        nc_VersionCheck = \<lparr>vc_Enabled = True\<rparr>, nc_ManagedTag = \<lparr>mt_Slug = demo_slug\<rparr>\<rparr>,
      hs_Resync = \<lparr>rs_Interval = 60000000000\<rparr>,
      hs_Resources = \<lparr>
        rc_Cluster = \<lparr>cl_Enabled = True, cl_Name = ''prod'', cl_ClusterTypeName = ''k8s'', cl_ClusterGroupName = [],
          cl_SiteName = ''lab''\<rparr>,
        rc_Nodes = \<lparr>nd_Enabled = True, nd_Mapping = NodeMappingDevice, nd_RetainOnDisable = False,
          nd_Device = \<lparr>dm_DeviceRoleName = ''node'', dm_DeviceTypeName = ''box'', dm_SiteName = ''lab''\<rparr>,
          nd_VirtualMachine = \<lparr>vm_ClusterName = [], vm_PlatformName = []\<rparr>\<rparr>,
        rc_Services = \<lparr>sv_Enabled = True, sv_RetainOnDisable = False\<rparr>,
        rc_PodCIDRs = \<lparr>pc_Enabled = True, pc_RetainOnDisable = False, pc_Representation = PodCIDRRepresentationPrefix,
          pc_RIRName = []\<rparr>,
        rc_Additional = Map.empty\<rparr>\<rparr>"

definition demo_client :: netbox_client where
  "demo_client = \<lparr>cl_Host = ''netbox.example'', cl_BasePath = ''/api'', cl_Schemes = [''https''],
     cl_Transport = \<lparr>ht_TLS = \<lparr>tls_InsecureSkipVerify = False, tls_LoadedCAPool = None\<rparr>,
       ht_Proxy = Some ProxyFromEnvironment\<rparr>, cl_Timeout = 30000000000,
     cl_Authorization = ''Token t0ken''\<rparr>"

definition demo_config :: HeraldConfig where
  "demo_config = \<lparr>hc_Generation = 1, hc_Spec = demo_spec, hc_Status = \<lparr>hc_Conditions = [], hc_NetBox = zero_netbox_status,
     hc_Resources = \<lparr>st_Cluster = zero_sync_status, st_Nodes = zero_sync_status, st_Services = zero_sync_status,
       st_PodCIDRs = zero_sync_status\<rparr>\<rparr>\<rparr>"

definition live_world :: memory where
  "live_world = stocked_world\<lparr>w_store := \<lparr>sto_spec = Some demo_spec, sto_client = Some demo_client\<rparr>,
     k_config := Some demo_config, k_namespaces := (\<lambda>n. if n = ''kube-system'' then Some \<lparr>nsp_UID = ''uid-1''\<rparr> else None),
     k_nodes := [demo_node], k_services := [demo_service]\<rparr>"

lemmas [run_simps] = demo_config_def zero_sync_status_def zero_netbox_status_def
  demo_node_def demo_service_def mem_env_def existing_def mem_update_status_def StoreGet_def sync_status_def
  reconcileService_def syncServicesStatus_def reconcileNode_def ensureNode_def syncNodesStatus_def
  deleteNodeByExternalID_def deleteNodeByName_def reconcileCluster_def updateClusterStatus_def reconcilePodCIDR_def
  reconcilePrefixForNode_def syncPodCIDRStatus_def deleteStalePodCIDRAggregates_def podCIDRAddressFamilies_def
  ExternalIDForPodCIDRAggregate_def familyIPv4_def familyIPv6_def ServiceTypeLoadBalancer_def singletonName_def
  demo_service_cidr PodCIDRRepresentationPrefix_def PodCIDRRepresentationAggregate_def

lemma live_store:
  "sto_spec (w_store live_world) = Some demo_spec" "sto_client (w_store live_world) = Some demo_client"
  by (simp_all add: live_world_def)

lemma demo_slug_resolved [run_simps]: "resolveManagedTagSlug demo_spec = demo_slug"
  by (simp add: resolveManagedTagSlug_def demo_spec_def demo_slug_def)

lemma demo_interval [run_simps]: "resolveResyncInterval demo_spec = 60000000000"
  by (simp add: resolveResyncInterval_def demo_spec_def word_sle_eq)

lemma demo_spec_parts [run_simps]:
  "rc_Cluster (hs_Resources demo_spec) = \<lparr>cl_Enabled = True, cl_Name = ''prod'', cl_ClusterTypeName = ''k8s'',
     cl_ClusterGroupName = [], cl_SiteName = ''lab''\<rparr>"
  "rc_Nodes (hs_Resources demo_spec) = \<lparr>nd_Enabled = True, nd_Mapping = NodeMappingDevice, nd_RetainOnDisable = False,
     nd_Device = \<lparr>dm_DeviceRoleName = ''node'', dm_DeviceTypeName = ''box'', dm_SiteName = ''lab''\<rparr>,
     nd_VirtualMachine = \<lparr>vm_ClusterName = [], vm_PlatformName = []\<rparr>\<rparr>"
  "rc_Services (hs_Resources demo_spec) = \<lparr>sv_Enabled = True, sv_RetainOnDisable = False\<rparr>"
  "rc_PodCIDRs (hs_Resources demo_spec) = \<lparr>pc_Enabled = True, pc_RetainOnDisable = False,
     pc_Representation = PodCIDRRepresentationPrefix, pc_RIRName = []\<rparr>"
  by (simp_all add: demo_spec_def)

lemma run_split: "fst p = Ok r \<Longrightarrow> p = (Ok r, snd p)"
  by (cases p) simp

lemma live_service_run: "fst (reconcileService (mem_env 50) \<lparr>rq_Namespace = ''ns'', rq_Name = ''web''\<rparr> live_world) =
    Ok \<lparr>RequeueAfter = 60000000000\<rparr>"
  by (simp add: live_world_def run_simps)


lemma live_node_run: "fst (reconcileNode (mem_env 50) \<lparr>rq_Namespace = [], rq_Name = ''node-1''\<rparr> live_world) =
    Ok \<lparr>RequeueAfter = 60000000000\<rparr>"
  by (simp add: live_world_def run_simps)

lemma live_prefix_run: "fst (reconcilePodCIDR (mem_env 50) \<lparr>rq_Namespace = [], rq_Name = ''node-1''\<rparr> live_world) =
    Ok \<lparr>RequeueAfter = 60000000000\<rparr>"
  by (simp add: live_world_def run_simps)

lemma live_cluster_run: "fst (reconcileCluster (mem_env 50) \<lparr>rq_Namespace = [], rq_Name = ''default''\<rparr> live_world) =
    Ok \<lparr>RequeueAfter = 60000000000\<rparr>"
  by (simp add: live_world_def run_simps)


theorem reconcileNode_witness:
  "\<exists>node. fst (GetNode (mem_env 50) ''node-1'' live_world) = Ok node \<and>
     node_reconciled 50 demo_spec node (mem_view live_world)
       (mem_view (snd (reconcileNode (mem_env 50) \<lparr>rq_Namespace = [], rq_Name = ''node-1''\<rparr> live_world)))"
  using reconcileNode_correct[OF lawful_mem_env live_store run_split[OF live_node_run]] by simp

theorem reconcileCluster_witness:
  "\<exists>cr w1 ns. GetHeraldConfig (mem_env 50) singletonName live_world = (Ok cr, w1) \<and>
     fst (GetNamespace (mem_env 50) ''kube-system'' w1) = Ok ns \<and>
     cluster_reconciled 50 demo_spec (nsp_UID ns) (mem_view live_world)
       (mem_view (snd (reconcileCluster (mem_env 50) \<lparr>rq_Namespace = [], rq_Name = ''default''\<rparr> live_world)))"
  using reconcileCluster_correct[OF lawful_mem_env _ live_store run_split[OF live_cluster_run]]
  by (simp add: singletonName_def)

theorem reconcilePodCIDR_prefixes_witness:
  "\<exists>w1 node. deleteStalePodCIDRAggregates (Netbox (mem_env 50) demo_client) demo_slug live_world = (Ok (), w1) \<and>
     fst (GetNode (mem_env 50) ''node-1'' w1) = Ok node \<and>
     prefixes_reconciled 50 demo_spec node (mem_view live_world)
       (mem_view (snd (reconcilePodCIDR (mem_env 50) \<lparr>rq_Namespace = [], rq_Name = ''node-1''\<rparr> live_world)))"
proof -
  have mode: "pc_Representation (rc_PodCIDRs (hs_Resources demo_spec)) \<noteq> PodCIDRRepresentationAggregate"
    by (simp add: run_simps)
  from reconcilePodCIDR_prefixes_correct[OF lawful_mem_env live_store mode run_split[OF live_prefix_run]]
  show ?thesis by (simp add: demo_slug_resolved)
qed

end
