(* ===== verification/Address_Properties.thy ===== *)
theory Address_Properties
  imports Supernets NetBox_Service NetBox_PodCIDR
begin

text \<open>
  Addresses, CIDR blocks and external IDs: the supernets of the aggregate representation, the
  host prefixes of Service addresses, and what external IDs tell apart.
\<close>

section \<open>Supernets\<close>

text \<open>C24: without an error, computeSupernets names a block for exactly the address families
  of the given CIDRs. It is the smallest CIDR block that covers all blocks of the family: it covers
  them, and no block with a longer prefix does. The block is given as Go prints it; one of
  IPv4-mapped IPv6 addresses is printed as the IPv4 block it maps.\<close>

theorem computeSupernets_correct:
  assumes "computeSupernets cidrs = Inr supernets"
  shows "case supernets F of
      None \<Rightarrow> \<forall>n \<in> nets_of cidrs. family_of n \<noteq> F
    | Some s \<Rightarrow> (\<exists>n \<in> nets_of cidrs. family_of n = F) \<and> (\<exists>e. s = ipnet_String e \<and> smallest_cover e F cidrs)"
proof -
  obtain families where sum: "summarises families (nets_of cidrs)"
    and res: "supernets = (\<lambda>F. map_option (\<lambda>b. ipnet_String (enclosing b)) (families F))"
    by (rule computeSupernets_summary[OF assms])
  show ?thesis
  proof (cases "families F")
    case None
    then show ?thesis using summarisesD(1)[OF sum None] by (simp add: res)
  next
    case (Some b)
    then show ?thesis using summarisesD(2)[OF sum Some] enclosing_smallest_cover[OF sum Some] by (auto simp: res)
  qed
qed

definition demo_supernets :: "string \<rightharpoonup> string" where
  "demo_supernets = [familyIPv4 \<mapsto> ''10.1.6.0/23'']"

lemma demo_mask: "CIDRMask 24 4 = [255, 255, 255, 0]" "mask_Size [255, 255, 255, 0] = (24, 32)"
  by code_simp+

lemma demo_blocks:
  "ParseCIDR ''10.1.7.0/24'' = Inr ([0, 0, 0, 0, 0, 0, 0, 0, 0, 0, 255, 255, 10, 1, 7, 0], \<lparr>in_IP = [10, 1, 7, 0], in_Mask = [255, 255, 255, 0]\<rparr>)"
  "ParseCIDR ''10.1.6.0/24'' = Inr ([0, 0, 0, 0, 0, 0, 0, 0, 0, 0, 255, 255, 10, 1, 6, 0], \<lparr>in_IP = [10, 1, 6, 0], in_Mask = [255, 255, 255, 0]\<rparr>)"
  by (simp_all add: ParseCIDR_def ParseAddr_def digit_val_def dtoi_def addr_As16_def addr_BitLen_def v4InV6Prefix_def
    ip_Mask_def demo_mask)

lemma demo_supernets: "computeSupernets [''10.1.7.0/24'', ''10.1.6.0/24''] = Inr demo_supernets"
proof -
  let ?b = "\<lparr>b_bits = 32, b_min = 167839232, b_max = 167839743\<rparr>"
  have "family_of \<lparr>in_IP = [10, 1, 7, 0], in_Mask = [255, 255, 255, 0]\<rparr> = familyIPv4"
    "block_start \<lparr>in_IP = [10, 1, 7, 0], in_Mask = [255, 255, 255, 0]\<rparr> = 167839488"
    "block_end \<lparr>in_IP = [10, 1, 7, 0], in_Mask = [255, 255, 255, 0]\<rparr> = 167839743"
    "family_of \<lparr>in_IP = [10, 1, 6, 0], in_Mask = [255, 255, 255, 0]\<rparr> = familyIPv4"
    "block_start \<lparr>in_IP = [10, 1, 6, 0], in_Mask = [255, 255, 255, 0]\<rparr> = 167839232"
    "block_end \<lparr>in_IP = [10, 1, 6, 0], in_Mask = [255, 255, 255, 0]\<rparr> = 167839487"
    by (simp_all add: family_of_def block_start_def block_end_def demo_mask)
  then have "collect_bounds [''10.1.7.0/24'', ''10.1.6.0/24''] Map.empty = Inr [familyIPv4 \<mapsto> ?b]"
    by (simp add: demo_blocks widen_def Let_def)
  moreover have "ipnet_String (enclosing ?b) = ''10.1.6.0/23''"
  proof -
    have "b_min ?b XOR b_max ?b = 511" by simp
    moreover have "BitLen 511 = 9" by (simp add: BitLen.simps)
    ultimately have "enclosing ?b = \<lparr>in_IP = ip_Mask (FillBytes 4 167839232) (CIDRMask 23 4), in_Mask = CIDRMask 23 4\<rparr>"
      by (simp add: enclosing_def Let_def)
    moreover have "FillBytes 4 167839232 = [10, 1, 6, 0]"
    proof -
      have "FillBytes (Suc (Suc (Suc (Suc 0)))) 167839232 = [10, 1, 6, 0]" by simp
      moreover have "Suc (Suc (Suc (Suc 0))) = 4" by simp
      ultimately show ?thesis by metis
    qed
    ultimately have e: "enclosing ?b = \<lparr>in_IP = ip_Mask [10, 1, 6, 0] (CIDRMask 23 4), in_Mask = CIDRMask 23 4\<rparr>" by simp
    show ?thesis unfolding e by code_simp
  qed
  ultimately show ?thesis by (simp add: computeSupernets_def demo_supernets_def fun_eq_iff)
qed

theorem computeSupernets_witness:
  "case demo_supernets familyIPv4 of
      None \<Rightarrow> \<forall>n \<in> nets_of [''10.1.7.0/24'', ''10.1.6.0/24'']. family_of n \<noteq> familyIPv4
    | Some s \<Rightarrow> (\<exists>n \<in> nets_of [''10.1.7.0/24'', ''10.1.6.0/24'']. family_of n = familyIPv4) \<and>
        (\<exists>e. s = ipnet_String e \<and> smallest_cover e familyIPv4 [''10.1.7.0/24'', ''10.1.6.0/24''])"
  by (rule computeSupernets_correct[OF demo_supernets])

lemma collect_bounds_err:
  "collect_bounds cidrs families = Inl err \<longleftrightarrow> (\<exists>pre c post e. cidrs = pre @ c # post \<and>
     (\<forall>x \<in> set pre. \<exists>y. ParseCIDR x = Inr y) \<and> ParseCIDR c = Inl e \<and>
     err = Errorf ''invalid pod CIDR %q: %w'' [AStr c, AErr e])"
proof (induction cidrs arbitrary: families)
  case Nil
  show ?case by simp
next
  case (Cons a cidrs)
  show ?case
  proof (cases "ParseCIDR a")
    case (Inl e)
    show ?thesis
    proof
      assume "collect_bounds (a # cidrs) families = Inl err"
      then show "\<exists>pre c post e. a # cidrs = pre @ c # post \<and> (\<forall>x \<in> set pre. \<exists>y. ParseCIDR x = Inr y) \<and>
          ParseCIDR c = Inl e \<and> err = Errorf ''invalid pod CIDR %q: %w'' [AStr c, AErr e]"
        using Inl by (intro exI[of _ "[]"] exI[of _ a] exI[of _ cidrs] exI[of _ e]) simp
    next
      assume "\<exists>pre c post e. a # cidrs = pre @ c # post \<and> (\<forall>x \<in> set pre. \<exists>y. ParseCIDR x = Inr y) \<and>
          ParseCIDR c = Inl e \<and> err = Errorf ''invalid pod CIDR %q: %w'' [AStr c, AErr e]"
      then obtain pre c post e' where *: "a # cidrs = pre @ c # post" "\<forall>x \<in> set pre. \<exists>y. ParseCIDR x = Inr y"
        "ParseCIDR c = Inl e'" "err = Errorf ''invalid pod CIDR %q: %w'' [AStr c, AErr e']" by blast
      then show "collect_bounds (a # cidrs) families = Inl err" using Inl by (cases pre) auto
    qed
  next
    case (Inr y)
    obtain ip n where y: "y = (ip, n)" by (cases y)
    have split: "(\<exists>pre c post e. a # cidrs = pre @ c # post \<and> (\<forall>x \<in> set pre. \<exists>y. ParseCIDR x = Inr y) \<and>
          ParseCIDR c = Inl e \<and> err = Errorf ''invalid pod CIDR %q: %w'' [AStr c, AErr e]) \<longleftrightarrow>
        (\<exists>pre c post e. cidrs = pre @ c # post \<and> (\<forall>x \<in> set pre. \<exists>y. ParseCIDR x = Inr y) \<and>
          ParseCIDR c = Inl e \<and> err = Errorf ''invalid pod CIDR %q: %w'' [AStr c, AErr e])" (is "?L \<longleftrightarrow> ?R")
    proof
      assume ?L
      then obtain pre c post e where *: "a # cidrs = pre @ c # post" "\<forall>x \<in> set pre. \<exists>y. ParseCIDR x = Inr y"
        "ParseCIDR c = Inl e" "err = Errorf ''invalid pod CIDR %q: %w'' [AStr c, AErr e]" by blast
      from *(1,3) Inr obtain pre' where "pre = a # pre'" by (cases pre) auto
      with * show ?R by auto
    next
      assume ?R
      then obtain pre c post e where "cidrs = pre @ c # post" "\<forall>x \<in> set pre. \<exists>y. ParseCIDR x = Inr y"
        "ParseCIDR c = Inl e" "err = Errorf ''invalid pod CIDR %q: %w'' [AStr c, AErr e]" by blast
      with Inr show ?L by (intro exI[of _ "a # pre"] exI[of _ c] exI[of _ post] exI[of _ e]) auto
    qed
    show ?thesis using Cons.IH[of "widen n families"] Inr by (simp only: split y collect_bounds.simps sum.case prod.case)
  qed
qed

text \<open>computeSupernets fails exactly when some CIDR does not parse, with the error of the first
  one that does not.\<close>

theorem computeSupernets_error:
  "computeSupernets cidrs = Inl err \<longleftrightarrow> (\<exists>pre c post e. cidrs = pre @ c # post \<and>
     (\<forall>x \<in> set pre. \<exists>y. ParseCIDR x = Inr y) \<and> ParseCIDR c = Inl e \<and>
     err = Errorf ''invalid pod CIDR %q: %w'' [AStr c, AErr e])"
  unfolding collect_bounds_err[of cidrs Map.empty, symmetric] computeSupernets_def by (simp split: sum.split)

theorem computeSupernets_error_witness:
  "computeSupernets [''10.1.7.0/24'', ''10.1.6.0''] = Inl (Errorf ''invalid pod CIDR %q: %w''
     [AStr ''10.1.6.0'', AErr (Errorf ''invalid CIDR address: %s'' [AStr ''10.1.6.0''])])"
proof -
  have "ParseCIDR ''10.1.6.0'' = Inl (Errorf ''invalid CIDR address: %s'' [AStr ''10.1.6.0''])" by (simp add: ParseCIDR_def)
  then show ?thesis
    unfolding computeSupernets_error
    by (intro exI[of _ "[''10.1.7.0/24'']"] exI[of _ "''10.1.6.0''"] exI[of _ "[]"]) (simp add: demo_blocks)
qed

lemma summarises_unique:
  assumes "summarises families N" and "summarises families' N"
  shows "families = families'"
proof
  fix F
  show "families F = families' F"
  proof (cases "families F")
    case None
    show ?thesis
    proof (cases "families' F")
      case (Some b)
      then show ?thesis using summarisesD(2)[OF assms(2) Some] summarisesD(1)[OF assms(1) None] by blast
    qed (simp add: None)
  next
    case (Some b)
    note b = summarisesD(2,3)[OF assms(1) Some]
    show ?thesis
    proof (cases "families' F")
      case None
      then show ?thesis using b(1) summarisesD(1)[OF assms(2) None] by blast
    next
      case (Some b')
      note b' = summarisesD(2,3)[OF assms(2) Some]
      obtain n where "n \<in> N" "family_of n = F" using b(1) by blast
      then have "b_bits b = b_bits b'" using b(2) b'(2) by simp
      moreover have "b_min b = b_min b'" using b b' by (metis order_antisym)
      moreover have "b_max b = b_max b'" using b b' by (metis order_antisym)
      ultimately show ?thesis using \<open>families F = Some b\<close> Some by simp
    qed
  qed
qed

lemma collect_bounds_fails:
  "c \<in> set cidrs \<Longrightarrow> ParseCIDR c = Inl e \<Longrightarrow> \<exists>err. collect_bounds cidrs families = Inl err"
  by (induction cidrs arbitrary: families) (auto split: sum.split)

text \<open>The supernets depend on the set of the CIDRs only: neither the order in which Nodes are
  listed nor repeated CIDRs change the outcome of a successful computation.\<close>

theorem computeSupernets_order:
  assumes "set cidrs = set cidrs'" and "computeSupernets cidrs = Inr supernets"
  shows "computeSupernets cidrs' = Inr supernets"
proof (cases "computeSupernets cidrs'")
  case (Inl err)
  then have "collect_bounds cidrs' Map.empty = Inl err" by (simp add: computeSupernets_def split: sum.splits)
  then obtain pre c post e where "cidrs' = pre @ c # post" "ParseCIDR c = Inl e" unfolding collect_bounds_err by blast
  then have "c \<in> set cidrs'" by simp
  note c = this \<open>ParseCIDR c = Inl e\<close>
  then have "\<exists>err. collect_bounds cidrs Map.empty = Inl err"
    using collect_bounds_fails[of c cidrs e] c assms(1) by simp
  then show ?thesis using assms(2) by (auto simp: computeSupernets_def)
next
  case (Inr supernets')
  obtain f where f: "summarises f (nets_of cidrs)" "supernets = (\<lambda>F. map_option (\<lambda>b. ipnet_String (enclosing b)) (f F))"
    by (rule computeSupernets_summary[OF assms(2)])
  obtain f' where f': "summarises f' (nets_of cidrs')" "supernets' = (\<lambda>F. map_option (\<lambda>b. ipnet_String (enclosing b)) (f' F))"
    by (rule computeSupernets_summary[OF Inr])
  have "nets_of cidrs' = nets_of cidrs" by (simp add: nets_of_def assms(1))
  then have "f' = f" using summarises_unique[OF f'(1)] f(1) by simp
  then show ?thesis by (simp add: Inr f(2) f'(2))
qed

theorem computeSupernets_order_witness:
  "computeSupernets [''10.1.6.0/24'', ''10.1.7.0/24'', ''10.1.6.0/24''] = Inr demo_supernets"
  by (rule computeSupernets_order[OF _ demo_supernets]) auto

text \<open>C26: computeSupernets depends on the set of CIDRs only, neither on the order in which Nodes are
  listed nor on repetitions, and fails exactly when some CIDR does not parse, with the error of
  the first one that does not.\<close>

theorem computeSupernets_outcome:
  "(computeSupernets cidrs = Inl err \<longleftrightarrow> (\<exists>pre c post e. cidrs = pre @ c # post \<and>
      (\<forall>x \<in> set pre. \<exists>y. ParseCIDR x = Inr y) \<and> ParseCIDR c = Inl e \<and>
      err = Errorf ''invalid pod CIDR %q: %w'' [AStr c, AErr e])) \<and>
   (computeSupernets cidrs = Inr supernets \<and> set cidrs' = set cidrs \<longrightarrow> computeSupernets cidrs' = Inr supernets)"
  using computeSupernets_error[of cidrs err] computeSupernets_order[of cidrs cidrs' supernets] by blast

theorem computeSupernets_outcome_witness:
  "computeSupernets [''10.1.6.0/24'', ''10.1.7.0/24'', ''10.1.6.0/24''] = Inr demo_supernets"
proof -
  have "set [''10.1.6.0/24'', ''10.1.7.0/24'', ''10.1.6.0/24''] = set [''10.1.7.0/24'', ''10.1.6.0/24'']" by auto
  with demo_supernets computeSupernets_outcome[of "[''10.1.7.0/24'', ''10.1.6.0/24'']" _ demo_supernets]
  show ?thesis by blast
qed

section \<open>Printing and parsing IPv4\<close>

lemma decimal_eq: "decimal n = (if n < 10 then [] else decimal (n div 10)) @ [char_of (n mod 10 + 48)]"
  by (simp add: decimal_def print_base.simps[of 10 n])

lemma decimal_byte:
  shows "n < 10 \<Longrightarrow> decimal n = [char_of (n + 48)]"
    and "10 \<le> n \<Longrightarrow> n < 100 \<Longrightarrow> decimal n = [char_of (n div 10 + 48), char_of (n mod 10 + 48)]"
    and "100 \<le> n \<Longrightarrow> n < 1000 \<Longrightarrow>
      decimal n = [char_of (n div 100 + 48), char_of (n div 10 mod 10 + 48), char_of (n mod 10 + 48)]"
proof -
  show 1: "decimal n = [char_of (n + 48)]" if "n < 10" for n using that by (subst decimal_eq) simp
  show 2: "decimal n = [char_of (n div 10 + 48), char_of (n mod 10 + 48)]" if "10 \<le> n" "n < 100" for n
    using that 1[of "n div 10"] by (subst decimal_eq) simp
  have "n div 10 div 10 = n div 100" by (simp flip: div_mult2_eq)
  then show "decimal n = [char_of (n div 100 + 48), char_of (n div 10 mod 10 + 48), char_of (n mod 10 + 48)]"
    if "100 \<le> n" "n < 1000"
    using that 2[of "n div 10"] by (subst decimal_eq) simp
qed

lemma digit_val_digit: "d < 10 \<Longrightarrow> digit_val (char_of (d + 48)) = Some d"
  by (simp add: digit_val_def)

definition separators :: "char set" where
  "separators = {CHR ''.'', CHR '':'', CHR ''%'', CHR ''/''}"

lemma digit_plain:
  assumes "d < (10 :: nat)"
  shows "char_of (d + 48) \<notin> separators"
proof
  assume "(char_of (d + 48) :: char) \<in> separators"
  then have "of_char (char_of (d + 48) :: char) \<in> of_char ` separators" by (rule imageI)
  also have "of_char ` separators = {46, 58, 37, 47 :: nat}" by (simp add: separators_def)
  finally show False using assms by simp
qed

lemma byte_cases:
  assumes "n < (256 :: nat)"
  obtains (one) "n < 10" | (two) "10 \<le> n" "n < 100" | (three) "100 \<le> n" "n < 1000"
  using assms by linarith

lemma decimal_plain: "n < 256 \<Longrightarrow> set (decimal n) \<inter> separators = {}"
  by (erule byte_cases) (simp_all add: decimal_byte digit_plain)

lemma decimal_nonempty: "decimal n \<noteq> []"
  by (simp add: decimal_eq[of n])

text \<open>Reading a number in decimal, within a dotted quad and as a prefix length.\<close>

lemma parse_decimal:
  assumes "n < 256"
  shows "parseIPv4Fields (decimal n @ s) flds 0 0 = parseIPv4Fields s flds n (length (decimal n))"
  using assms
proof (cases rule: byte_cases)
  case one
  then show ?thesis by (simp add: decimal_byte digit_val_digit)
next
  case two
  then have "0 < n div 10" "n div 10 < 10" by (simp_all add: div_greater_zero_iff)
  with two show ?thesis by (simp add: decimal_byte digit_val_digit)
next
  case three
  have "n div 100 * 10 + n div 10 mod 10 = n div 10"
    using div_mult_mod_eq[of "n div 10" 10] by (simp flip: div_mult2_eq)
  moreover have "0 < n div 100" "n div 10 \<le> 255" using three assms by (simp_all add: div_greater_zero_iff)
  ultimately show ?thesis using three assms by (simp add: decimal_byte digit_val_digit)
qed

lemma dtoi_decimal: "n < 256 \<Longrightarrow> dtoi (decimal n) = Some (n, length (decimal n))"
proof (erule byte_cases)
  assume "100 \<le> n" "n < 1000"
  moreover have "n div 100 * 10 + n div 10 mod 10 = n div 10"
    using div_mult_mod_eq[of "n div 10" 10] by (simp flip: div_mult2_eq)
  ultimately show ?thesis by (simp add: dtoi_def decimal_byte digit_val_digit)
qed (simp_all add: dtoi_def decimal_byte digit_val_digit)

lemma string4_quad: "string4 [a, b, c, d] = decimal (unat a) @ ''.'' @ decimal (unat b) @ ''.'' @ decimal (unat c) @ ''.'' @ decimal (unat d)"
  by (simp add: string4_def)

lemma dot_field: "0 < k \<Longrightarrow> s \<noteq> [] \<Longrightarrow> length flds \<noteq> 3 \<Longrightarrow>
    parseIPv4Fields (CHR ''.'' # s) flds n k = parseIPv4Fields s (flds @ [of_nat n]) 0 0"
  by (simp add: digit_val_def)

lemma parse_quad: "parseIPv4Fields (string4 [a, b, c, d]) [] 0 0 = Some [a, b, c, d]"
proof -
  have pos: "0 < length (decimal n)" for n using decimal_nonempty by simp
  note u = unat_byte_less
  have "parseIPv4Fields (decimal (unat d)) flds 0 0 = Some (flds @ [d])" if "length flds = 3" for flds
    using parse_decimal[OF u, of d "[]" flds] that by simp
  then show ?thesis unfolding string4_quad
    by (simp add: parse_decimal[OF u] dot_field[OF pos] decimal_nonempty del: parseIPv4Fields.simps)
qed

lemma ParseAddr_at_plain:
  "set s \<inter> separators = {} \<Longrightarrow> ParseAddr_at whole (s @ t) = ParseAddr_at whole t"
  by (induction s) (auto simp: separators_def)

lemma ParseAddr_quad: "ParseAddr (string4 [a, b, c, d]) = Some \<lparr>ad_bytes = [a, b, c, d], ad_zone = ''''\<rparr>"
proof -
  have "ParseAddr_at whole (string4 [a, b, c, d]) = map_option (\<lambda>b. \<lparr>ad_bytes = b, ad_zone = ''''\<rparr>) (parseIPv4Fields whole [] 0 0)" for whole
    unfolding string4_quad by (simp add: ParseAddr_at_plain[OF decimal_plain[OF unat_byte_less]])
  then show ?thesis by (simp add: ParseAddr_def parse_quad)
qed

lemma takeWhile_plain: "set s \<inter> separators = {} \<Longrightarrow> takeWhile (\<lambda>c. c \<noteq> CHR ''/'') (s @ t) = s @ takeWhile (\<lambda>c. c \<noteq> CHR ''/'') t"
  by (rule takeWhile_append2) (auto simp: separators_def)

lemma dropWhile_plain: "set s \<inter> separators = {} \<Longrightarrow> dropWhile (\<lambda>c. c \<noteq> CHR ''/'') (s @ t) = dropWhile (\<lambda>c. c \<noteq> CHR ''/'') t"
  by (rule dropWhile_append2) (auto simp: separators_def)

lemma quad_split:
  "takeWhile (\<lambda>c. c \<noteq> CHR ''/'') (string4 [a, b, c, d] @ CHR ''/'' # t) = string4 [a, b, c, d]"
  "dropWhile (\<lambda>c. c \<noteq> CHR ''/'') (string4 [a, b, c, d] @ CHR ''/'' # t) = CHR ''/'' # t"
  unfolding string4_quad
  by (simp_all add: takeWhile_plain dropWhile_plain decimal_plain[OF unat_byte_less])

lemma ParseCIDR_quad:
  assumes "ones \<le> 32"
  shows "ParseCIDR (string4 [a, b, c, d] @ ''/'' @ decimal ones) = Inr (v4InV6Prefix @ [a, b, c, d],
    \<lparr>in_IP = map2 (AND) [a, b, c, d] (CIDRMask ones 4), in_Mask = CIDRMask ones 4\<rparr>)"
proof -
  have "length v4InV6Prefix = 12" by (simp add: v4InV6Prefix_def)
  then have "ip_Mask (v4InV6Prefix @ [a, b, c, d]) (CIDRMask ones 4) = map2 (AND) [a, b, c, d] (CIDRMask ones 4)"
    by (simp add: ip_Mask_def)
  then show ?thesis
    using assms dtoi_decimal[of ones]
    by (simp add: ParseCIDR_def quad_split ParseAddr_quad addr_BitLen_def addr_As16_def Let_def)
qed

lemma and_mask_twice: "map2 (AND) (map2 (AND) xs ms) ms = map2 (AND) xs (ms :: bytes)"
  by (induction xs ms rule: list_induct2') (simp_all add: and.assoc)

lemma four_bytes:
  assumes "length xs = 4"
  obtains a b c d where "xs = [a, b, c, d]"
  using assms by (auto simp: numeral_eq_Suc length_Suc_conv)

lemma ipnet_String4:
  assumes "length (in_IP n) = 4" and "in_Mask n = CIDRMask ones 4" and "ones \<le> 32"
  shows "ipnet_String n = string4 (in_IP n) @ ''/'' @ decimal ones"
proof -
  have "CIDRMask ones 4 \<noteq> []" using length_CIDRMask[of ones 4] by (metis list.size(3) zero_neq_numeral)
  then show ?thesis
    using assms simpleMaskLength_CIDRMask[of ones 4]
    by (auto simp: ipnet_String_def networkNumberAndMask_def To4_def ip_String_def simp del: length_0_conv)
qed

lemma ParseCIDR_ipnet_String:
  assumes "length xs = 4" and "n = \<lparr>in_IP = map2 (AND) xs (CIDRMask ones 4), in_Mask = CIDRMask ones 4\<rparr>" and "ones \<le> 32"
  shows "ParseCIDR (ipnet_String n) = Inr (v4InV6Prefix @ in_IP n, n)"
proof -
  have "length (in_IP n) = 4" using assms(1,2) by simp
  then obtain a b c d where ip: "in_IP n = [a, b, c, d]" by (rule four_bytes)
  have "ParseCIDR (string4 [a, b, c, d] @ ''/'' @ decimal ones) = Inr (v4InV6Prefix @ [a, b, c, d],
    \<lparr>in_IP = map2 (AND) [a, b, c, d] (CIDRMask ones 4), in_Mask = CIDRMask ones 4\<rparr>)"
    by (rule ParseCIDR_quad[OF assms(3)])
  moreover have "map2 (AND) [a, b, c, d] (CIDRMask ones 4) = [a, b, c, d]"
    using and_mask_twice[of xs "CIDRMask ones 4"] ip assms(2) by simp
  moreover have "n = \<lparr>in_IP = [a, b, c, d], in_Mask = CIDRMask ones 4\<rparr>" using ip assms(2) by simp
  ultimately show ?thesis using ipnet_String4[of n ones] assms(3) by simp
qed

lemma enclosing_IPv4:
  assumes "bounds_ok b" and "b_bits b = 32"
  shows "ParseCIDR (ipnet_String (enclosing b)) = Inr (v4InV6Prefix @ in_IP (enclosing b), enclosing b)"
proof (rule ParseCIDR_ipnet_String)
  show "length (FillBytes 4 (b_min b)) = 4" by simp
  show "enclosing b = \<lparr>in_IP = map2 (AND) (FillBytes 4 (b_min b)) (CIDRMask (32 - BitLen (b_min b XOR b_max b)) 4),
      in_Mask = CIDRMask (32 - BitLen (b_min b XOR b_max b)) 4\<rparr>"
    by (simp add: enclosing_def Let_def assms(2) ip_Mask_def)
qed simp

text \<open>C25: the IPv4 supernet that computeSupernets prints, and Herald sends to NetBox as an aggregate,
  reads back as the block it stands for: parsing the text gives a block with no host bits set,
  which is the smallest one that covers the IPv4 CIDRs.\<close>

theorem supernet_roundtrip:
  assumes "computeSupernets cidrs = Inr supernets" and "supernets familyIPv4 = Some s"
  shows "\<exists>ip e. ParseCIDR s = Inr (ip, e) \<and> ipnet_String e = s \<and> ip = v4InV6Prefix @ in_IP e \<and> smallest_cover e familyIPv4 cidrs"
proof -
  obtain families where sum: "summarises families (nets_of cidrs)"
    and res: "supernets = (\<lambda>F. map_option (\<lambda>b. ipnet_String (enclosing b)) (families F))"
    by (rule computeSupernets_summary[OF assms(1)])
  from assms(2) res obtain b where b: "families familyIPv4 = Some b" "s = ipnet_String (enclosing b)" by auto
  note sd = summarisesD(2,3)[OF sum b(1)]
  obtain n where n: "n \<in> nets_of cidrs" "family_of n = familyIPv4" using sd(1) by blast
  then have "b_bits b = length (in_IP n) * 8" using sd(2) by blast
  with n(2) sd(1) have "b_bits b = 32" by (auto simp: family_of_def bounds_ok_def split: if_splits)
  then have "ParseCIDR s = Inr (v4InV6Prefix @ in_IP (enclosing b), enclosing b)"
    using enclosing_IPv4 sd(1) b(2) by blast
  then show ?thesis using enclosing_smallest_cover[OF sum b(1)] b(2) by blast
qed

theorem supernet_roundtrip_witness:
  "\<exists>ip e. ParseCIDR ''10.1.6.0/23'' = Inr (ip, e) \<and> ipnet_String e = ''10.1.6.0/23'' \<and> ip = v4InV6Prefix @ in_IP e \<and>
     smallest_cover e familyIPv4 [''10.1.7.0/24'', ''10.1.6.0/24'']"
  by (rule supernet_roundtrip[OF demo_supernets]) (simp add: demo_supernets_def)

section \<open>Host prefixes\<close>

text \<open>Text that parses as an address has no slash.\<close>

lemma hex_group_slash: "hex_group s off acc = Some (n, a, rest) \<Longrightarrow> CHR ''/'' \<in> set s \<Longrightarrow> CHR ''/'' \<in> set rest"
proof (induction s arbitrary: off acc)
  case (Cons c s)
  have "hex_val (CHR ''/'') = None" by (simp add: hex_val_def)
  with Cons show ?case by (auto split: option.splits if_splits)
qed simp

lemma IPv4_slash: "parseIPv4Fields s flds val k = Some bs \<Longrightarrow> CHR ''/'' \<notin> set s"
proof (induction s arbitrary: flds val k)
  case (Cons c s)
  have "digit_val (CHR ''/'') = None" by (simp add: digit_val_def)
  with Cons show ?case by (auto split: option.splits if_splits)
qed simp

lemma IPv6_loop_slash:
  "parseIPv6_loop k s ip e = Some (bs, e', rest) \<Longrightarrow> CHR ''/'' \<in> set s \<Longrightarrow> CHR ''/'' \<in> set rest"
proof (induction k arbitrary: s ip e)
  case (Suc k)
  from Suc.prems(1) obtain off acc r where g: "hex_group s 0 0 = Some (off, acc, r)"
    by (auto split: option.splits)
  have r: "CHR ''/'' \<in> set r" by (rule hex_group_slash[OF g Suc.prems(2)])
  then obtain c t where rt: "r = c # t" by (cases r) auto
  have v4: "parseIPv4Fields s [] 0 0 = None"
    using IPv4_slash[of s "[]" 0 0] Suc.prems(2) by (cases "parseIPv4Fields s [] 0 0") auto
  have "set t = insert (hd t) (set (tl t))" if "t \<noteq> []" using that by (cases t) auto
  with Suc.prems(1) Suc.IH g r rt v4 show ?case
    by (auto simp: Let_def split: if_splits option.splits)
qed simp

lemma parseIPv6_slash:
  assumes "parseIPv6 s = Some a" and "ad_zone a = ''''"
  shows "CHR ''/'' \<notin> set s"
proof -
  have zone: "CHR ''%'' \<notin> set s"
  proof
    assume "CHR ''%'' \<in> set s"
    moreover from this assms have "tl (dropWhile (\<lambda>c. c \<noteq> CHR ''%'') s) \<noteq> []" "ad_zone a = tl (dropWhile (\<lambda>c. c \<noteq> CHR ''%'') s)"
      by (auto simp: parseIPv6_def Let_def split: if_splits option.splits prod.splits)
    ultimately show False using assms(2) by simp
  qed
  then have tw: "takeWhile (\<lambda>c. c \<noteq> CHR ''%'') s = s" by (auto simp: takeWhile_eq_all_conv)
  show ?thesis
  proof (cases "take 2 s = ''::''")
    case True
    then have s: "s = ''::'' @ drop 2 s" by (metis append_take_drop_id)
    have "CHR ''/'' \<notin> set (drop 2 s)"
    proof (cases "drop 2 s = []")
      case False
      with assms(1) True tw obtain ip e where "parseIPv6_loop 8 (drop 2 s) [] (Some 0) = Some (ip, e, [])"
        by (auto simp: parseIPv6_def Let_def split: if_splits option.splits prod.splits)
      then show ?thesis using IPv6_loop_slash by fastforce
    qed simp
    then show ?thesis by (subst s) simp
  next
    case False
    with assms(1) tw obtain ip e where "parseIPv6_loop 8 s [] None = Some (ip, e, [])"
      by (auto simp: parseIPv6_def Let_def split: if_splits option.splits prod.splits)
    then show ?thesis using IPv6_loop_slash by fastforce
  qed
qed

lemma ParseAddr_slash:
  assumes "ParseAddr s = Some a" and "ad_zone a = ''''"
  shows "CHR ''/'' \<notin> set s"
proof -
  have "ParseAddr_at s t = Some a \<Longrightarrow> (\<exists>bs. parseIPv4Fields s [] 0 0 = Some bs) \<or> parseIPv6 s = Some a" for t
    by (induction t) (auto split: if_splits)
  then show ?thesis using assms IPv4_slash parseIPv6_slash unfolding ParseAddr_def by blast
qed

lemma dtoi_host: "dtoi ''32'' = Some (32, 2)" "dtoi ''128'' = Some (128, 3)"
  by (simp_all add: dtoi_def digit_val_def)

lemma ParseCIDR_suffix:
  assumes a: "ParseAddr s = Some a" "ad_zone a = ''''" and len: "dtoi t = Some (n, length t)" and n: "n \<le> addr_BitLen a"
  shows "ParseCIDR (s @ CHR ''/'' # t) = Inr (addr_As16 a,
    \<lparr>in_IP = ip_Mask (addr_As16 a) (CIDRMask n (addr_BitLen a div 8)), in_Mask = CIDRMask n (addr_BitLen a div 8)\<rparr>)"
proof -
  have "takeWhile (\<lambda>c. c \<noteq> CHR ''/'') (s @ CHR ''/'' # t) = s" "dropWhile (\<lambda>c. c \<noteq> CHR ''/'') (s @ CHR ''/'' # t) = CHR ''/'' # t"
    using ParseAddr_slash[OF a] by (subst takeWhile_append2 dropWhile_append2; auto)+
  then show ?thesis using a len n by (simp add: ParseCIDR_def Let_def)
qed

definition mapped :: "addr \<Rightarrow> bool" where
  "mapped a \<longleftrightarrow> length (ad_bytes a) = 16 \<and> take 12 (ad_bytes a) = v4InV6Prefix"

lemma addr_To4:
  assumes "length (ad_bytes a) = 4 \<or> length (ad_bytes a) = 16"
  shows "To4 (addr_As16 a) \<noteq> [] \<longleftrightarrow> length (ad_bytes a) = 4 \<or> mapped a"
  using assms by (auto simp: To4_def addr_As16_def mapped_def v4InV6Prefix_def)

lemma length_v4InV6Prefix: "length v4InV6Prefix = 12"
  by (simp add: v4InV6Prefix_def)

lemma host_mask:
  assumes "length (ad_bytes a) = k" and "k = 4 \<or> k = 16"
  shows "ip_Mask (addr_As16 a) (CIDRMask n k) = map2 (AND) (ad_bytes a) (CIDRMask n k)"
  using assms by (auto simp: ip_Mask_def addr_As16_def length_v4InV6Prefix)

text \<open>C27: the text cidrForIP makes of an address of a Service is a CIDR with that address. It is the
  host prefix of the address, except for an IPv6 text of an IPv4-mapped address: there it is the
  block of all addresses that share its first 32 bits.\<close>

theorem cidrForIP_host:
  assumes "cidrForIP s = Inr c"
  shows "\<exists>a ip n. ParseAddr s = Some a \<and> ParseCIDR c = Inr (ip, n) \<and> ip = ParseIP s \<and>
    (if mapped a then is_block n 128 32
     else is_block n (addr_BitLen a) (addr_BitLen a) \<and> block_start n = SetBytes (ad_bytes a))"
proof -
  from assms obtain a where a: "ParseAddr s = Some a" "ad_zone a = ''''" and ip: "ParseIP s = addr_As16 a"
    by (auto simp: cidrForIP_def ParseIP_def Let_def split: option.splits if_splits)
  note len = ParseAddr_length[OF a(1)]
  have c: "c = s @ CHR ''/'' # (if length (ad_bytes a) = 4 \<or> mapped a then ''32'' else ''128'')"
    using assms addr_To4[OF len] by (auto simp: cidrForIP_def ip Let_def split: if_splits)
  have cidr: "ParseCIDR (s @ CHR ''/'' # t) = Inr (addr_As16 a, \<lparr>in_IP = map2 (AND) (ad_bytes a) (CIDRMask n k), in_Mask = CIDRMask n k\<rparr>)"
    if "dtoi t = Some (n, length t)" "length (ad_bytes a) = k" "n \<le> 8 * k" for t n k
  proof -
    have k: "k = 4 \<or> k = 16" using len that(2) by simp
    have "addr_BitLen a = 8 * k" by (simp add: addr_BitLen_def that(2))
    with ParseCIDR_suffix[OF a that(1)] host_mask[OF that(2) k] that(3) show ?thesis by simp
  qed
  show ?thesis
  proof (cases "length (ad_bytes a) = 4")
    case True
    let ?n = "\<lparr>in_IP = map2 (AND) (ad_bytes a) (CIDRMask 32 4), in_Mask = CIDRMask 32 4\<rparr>"
    have "is_block ?n 32 32" "block_start ?n = SetBytes (ad_bytes a)"
      using masked_block[of 4 "ad_bytes a" 32 ?n] True by simp_all
    moreover have "ParseCIDR c = Inr (addr_As16 a, ?n)" using cidr[of "''32''" 32 4] True c by (simp add: dtoi_host)
    ultimately show ?thesis using a(1) True ip by (auto simp: mapped_def addr_BitLen_def)
  next
    case False
    with len have l: "length (ad_bytes a) = 16" by simp
    let ?k = "if mapped a then 32 else 128"
    let ?n = "\<lparr>in_IP = map2 (AND) (ad_bytes a) (CIDRMask ?k 16), in_Mask = CIDRMask ?k 16\<rparr>"
    have b: "is_block ?n 128 ?k" "block_start ?n = SetBytes (ad_bytes a) div 2 ^ (128 - ?k) * 2 ^ (128 - ?k)"
      using masked_block[of 16 "ad_bytes a" ?k ?n] l by simp_all
    have "ParseCIDR c = Inr (addr_As16 a, ?n)"
      using cidr[of "''32''" 32 16] cidr[of "''128''" 128 16] l False c by (auto simp: dtoi_host)
    then show ?thesis using a(1) l ip b by (cases "mapped a") (auto simp: addr_BitLen_def)
  qed
qed

theorem cidrForIP_host_witness:
  "\<exists>a ip n. ParseAddr ''10.0.0.7'' = Some a \<and> ParseCIDR ''10.0.0.7/32'' = Inr (ip, n) \<and> ip = ParseIP ''10.0.0.7'' \<and>
    (if mapped a then is_block n 128 32
     else is_block n (addr_BitLen a) (addr_BitLen a) \<and> block_start n = SetBytes (ad_bytes a))"
proof -
  have "cidrForIP ''10.0.0.7'' = Inr ''10.0.0.7/32''" by code_simp
  from cidrForIP_host[OF this] show ?thesis .
qed

end
