(* ===== verification/Aggregate_Properties.thy ===== *)
theory Aggregate_Properties
  imports Controller_Properties Address_Properties
begin

text \<open>
  What a reconcile achieves with the aggregate representation of pod CIDRs: the per-Node
  prefixes are gone and there is one aggregate per address family in use.
\<close>

section \<open>Removing the prefixes of all Nodes\<close>

lemma map_le_Some: "m \<subseteq>\<^sub>m m' \<Longrightarrow> m i = Some d \<Longrightarrow> m' i = Some d"
  by (force simp: map_le_def dom_def)

lemma fewer_managed: "k_get K v' \<subseteq>\<^sub>m k_get K v \<Longrightarrow> managed K slug v' \<subseteq> managed K slug v"
  unfolding managed_def using map_le_Some[of "k_get K v'" "k_get K v"] by blast

lemma fewer_owned: "k_get K v' \<subseteq>\<^sub>m k_get K v \<Longrightarrow> owned_ids K slug pre v' \<subseteq> owned_ids K slug pre v"
  unfolding owned_ids_def ids_for_def using map_le_Some[of "k_get K v'" "k_get K v"] by blast

definition prefixes_cleared :: "nat \<Rightarrow> string \<Rightarrow> node list \<Rightarrow> nb_view \<Rightarrow> nb_view \<Rightarrow> bool" where
  "prefixes_cleared psize slug nodes v v' \<longleftrightarrow> only prefix_kind v v' \<and> untouched prefix_kind slug v v' \<and>
     k_get prefix_kind v' \<subseteq>\<^sub>m k_get prefix_kind v \<and>
     (card (managed prefix_kind slug v) \<le> psize \<longrightarrow> (\<forall>node \<in> set nodes.
        owned_ids prefix_kind slug (nodePodCIDRExternalIDPrefix (nod_Name node)) v' = {}))"

lemma prefixes_cleared_Cons:
  assumes c: "cleared psize prefix_kind slug (nodePodCIDRExternalIDPrefix (nod_Name node)) v u"
    and rest: "prefixes_cleared psize slug nodes u v'" and fin: "finite (managed prefix_kind slug v)"
  shows "prefixes_cleared psize slug (node # nodes) v v'"
proof -
  have kept: "kept_others prefix_kind slug (nodePodCIDRExternalIDPrefix (nod_Name node)) v u"
    using c unfolding cleared_def by blast
  have "only prefix_kind v v'"
    using kept rest only_trans[OF kind_ok_kinds(5)] unfolding kept_others_def prefixes_cleared_def by blast
  moreover have "untouched prefix_kind slug v v'"
    using kept rest untouched_trans unfolding kept_others_def prefixes_cleared_def by blast
  moreover have le: "k_get prefix_kind u \<subseteq>\<^sub>m k_get prefix_kind v" "k_get prefix_kind v' \<subseteq>\<^sub>m k_get prefix_kind u"
    using kept rest unfolding kept_others_def prefixes_cleared_def by blast+
  moreover have "card (managed prefix_kind slug u) \<le> card (managed prefix_kind slug v)"
    by (rule card_mono[OF fin fewer_managed[OF le(1)]])
  moreover have "owned_ids prefix_kind slug (nodePodCIDRExternalIDPrefix (nod_Name node)) v' = {}"
    if "card (managed prefix_kind slug v) \<le> psize"
    using c that fewer_owned[OF le(2)] unfolding cleared_def by blast
  ultimately show ?thesis
    using rest map_le_trans[OF le(2,1)] unfolding prefixes_cleared_def by auto
qed

lemma clear_prefixes_run:
  assumes law: "lawful psize view api"
    and run: "for_each nodes (\<lambda>node. DeleteNodePodCIDRPrefixes api slug (nod_Name node)) w = (Ok u, w')"
  shows "prefixes_cleared psize slug nodes (view w) (view w')"
  using run
proof (induction nodes arbitrary: w)
  case Nil
  then show ?case by (simp add: prefixes_cleared_def ret_def only_refl)
next
  case (Cons node nodes)
  from Cons.prems obtain x w1 where del: "DeleteNodePodCIDRPrefixes api slug (nod_Name node) w = (Ok x, w1)"
    and rest: "for_each nodes (\<lambda>node. DeleteNodePodCIDRPrefixes api slug (nod_Name node)) w1 = (Ok u, w')"
    unfolding for_each.simps by (rule bind_OkE)
  have px: "lawful_ep psize view prefix_kind (IpamPrefixes api)" using law by (simp add: lawful_def)
  show ?case
    by (rule prefixes_cleared_Cons[OF delete_prefixes_run[OF law del] Cons.IH[OF rest] pfx.finite_managed[OF px]])
qed

section \<open>One aggregate per family\<close>

text \<open>What is due for a family: no aggregate without a supernet, else one that records it.\<close>

definition aggregate_due :: "string \<Rightarrow> int set \<Rightarrow> (string \<rightharpoonup> string) \<Rightarrow> string \<Rightarrow> nb_view \<Rightarrow> bool" where
  "aggregate_due slug rirs supernets F v \<longleftrightarrow> (case supernets F of
     None \<Rightarrow> ids_for aggregate_kind slug (ExternalIDForPodCIDRAggregate F) v = {}
   | Some cidr \<Rightarrow> settled aggregate_kind slug (\<lambda>_ d. wa_Prefix d = cidr \<and> wa_Rir d \<in> rirs)
       (ExternalIDForPodCIDRAggregate F) v)"

definition aggregate_step :: "nat \<Rightarrow> string \<Rightarrow> int set \<Rightarrow> (string \<rightharpoonup> string) \<Rightarrow> string \<Rightarrow> nb_view \<Rightarrow> nb_view \<Rightarrow> bool" where
  "aggregate_step psize slug rirs supernets F v v' \<longleftrightarrow> only aggregate_kind v v' \<and> untouched aggregate_kind slug v v' \<and>
     card (managed aggregate_kind slug v') \<le> Suc (card (managed aggregate_kind slug v)) \<and>
     (unique_ids aggregate_kind slug v \<and> card (managed aggregate_kind slug v) \<le> psize \<longrightarrow>
        unique_ids aggregate_kind slug v' \<and> aggregate_due slug rirs supernets F v' \<and>
        (\<forall>G. G \<noteq> F \<longrightarrow> aggregate_due slug rirs supernets G v \<longrightarrow> aggregate_due slug rirs supernets G v'))"

lemma removed_settled:
  assumes ok: "kind_ok K" and rm: "removed psize K slug x v v'" and y: "y \<noteq> x" and s: "settled K slug R y v"
  shows "settled K slug R y v'"
proof -
  obtain i d where i: "ids_for K slug y v = {i}" and d: "k_get K v i = Some d" "R y d"
    using s unfolding settled_def by blast
  from rm consider j where "j \<in> ids_for K slug x v" "v' = drop_ids K {j} v" | "v' = v"
    unfolding removed_def by blast
  then show ?thesis
  proof cases
    case 1
    have "i \<in> ids_for K slug y v" using i by simp
    then have "i \<noteq> j" using 1(1) y ids_for_disjoint by metis
    with 1 show ?thesis
      unfolding settled_def using i d by (auto simp: drop_ids_ids_for[OF ok] drop_ids_get[OF ok])
  qed (use s in simp)
qed

lemma removed_managed:
  assumes "kind_ok K" and "removed psize K slug x v v'"
  shows "managed K slug v' \<subseteq> managed K slug v"
  using assms by (auto simp: removed_def drop_ids_managed)

lemma removed_step:
  assumes rm: "removed psize aggregate_kind slug (ExternalIDForPodCIDRAggregate F) v v'"
    and none: "supernets F = None" and fin: "finite (managed aggregate_kind slug v)"
  shows "aggregate_step psize slug rirs supernets F v v'"
proof -
  note ok = kind_ok_kinds(6)
  have "card (managed aggregate_kind slug v') \<le> card (managed aggregate_kind slug v)"
    by (rule card_mono[OF fin removed_managed[OF ok rm]])
  moreover have "aggregate_due slug rirs supernets F v'"
    if "unique_ids aggregate_kind slug v" "card (managed aggregate_kind slug v) \<le> psize"
    using removed_ids_for[OF ok rm that] by (simp add: aggregate_due_def none)
  moreover have "aggregate_due slug rirs supernets G v'"
    if "unique_ids aggregate_kind slug v" "card (managed aggregate_kind slug v) \<le> psize"
      "G \<noteq> F" "aggregate_due slug rirs supernets G v" for G
  proof (cases "supernets G")
    case None
    then show ?thesis using that removed_ids_for[OF ok rm that(1,2)] by (simp add: aggregate_due_def aggregate_external_id_inj)
  next
    case (Some cidr)
    with that(4) show ?thesis unfolding aggregate_due_def Some option.case
      by (intro removed_settled[OF ok rm]) (simp_all add: aggregate_external_id_inj that(3))
  qed
  ultimately show ?thesis
    unfolding aggregate_step_def
    using only_removed[OF ok rm] removed_untouched[OF ok rm] removed_unique[OF ok rm] by auto
qed

lemma ensured_step:
  assumes en: "ensured psize aggregate_kind slug (ExternalIDForPodCIDRAggregate F) (\<lambda>d. wa_Prefix d = cidr \<and> wa_Rir d \<in> rirs) i v v'"
    and some: "supernets F = Some cidr" and fin: "finite (managed aggregate_kind slug v)"
  shows "aggregate_step psize slug rirs supernets F v v'"
proof -
  note ok = kind_ok_kinds(6)
  have "aggregate_due slug rirs supernets F v'"
    if "unique_ids aggregate_kind slug v" "card (managed aggregate_kind slug v) \<le> psize"
    using ensured_settled(1)[OF ok en that] by (simp add: aggregate_due_def some)
  moreover have "aggregate_due slug rirs supernets G v'"
    if "unique_ids aggregate_kind slug v" "card (managed aggregate_kind slug v) \<le> psize"
      "G \<noteq> F" "aggregate_due slug rirs supernets G v" for G
  proof (cases "supernets G")
    case None
    then show ?thesis using that(3,4) ensured_ids_for[OF ok en] by (simp add: aggregate_due_def aggregate_external_id_inj)
  next
    case (Some cidr')
    note due = that(4)
    have ne: "ExternalIDForPodCIDRAggregate G \<noteq> ExternalIDForPodCIDRAggregate F"
      using that(3) by (simp add: aggregate_external_id_inj)
    obtain d where get: "k_get aggregate_kind v' = (k_get aggregate_kind v)(i \<mapsto> d)" and x: "ext_of d = Some (ExternalIDForPodCIDRAggregate F)"
      using ensured_get[OF ok en] .
    obtain j e where j: "ids_for aggregate_kind slug (ExternalIDForPodCIDRAggregate G) v = {j}"
      and e: "k_get aggregate_kind v j = Some e" "wa_Prefix e = cidr'" "wa_Rir e \<in> rirs"
      using due unfolding aggregate_due_def Some option.case settled_def by blast
    have ids: "ids_for aggregate_kind slug (ExternalIDForPodCIDRAggregate G) v' = {j}"
      using ensured_ids_for[OF ok en] ne j by simp
    then have "ext_of (the (k_get aggregate_kind v' j)) = Some (ExternalIDForPodCIDRAggregate G)"
      unfolding ids_for_def by force
    with get x ne have "j \<noteq> i" by auto
    then show ?thesis
      unfolding aggregate_due_def Some option.case settled_def using ids get e by auto
  qed
  ultimately show ?thesis
    unfolding aggregate_step_def
    using only_ensured[OF en] ensured_untouched[OF ok en] ensured_card[OF ok en fin] ensured_unique(1)[OF ok en] by blast
qed

lemma sync_aggregate_run:
  assumes law: "lawful psize view api" and tag: "tg_Slug t = Some slug"
    and run: "sync_aggregate api slug rir t supernets F w = (Ok u, w')"
  shows "aggregate_step psize slug (v_refs (view w) RRIR rir) supernets F (view w) (view w')"
proof -
  have ag: "lawful_ep psize view aggregate_kind (IpamAggregates api)" using law by (simp add: lawful_def)
  note fin = agg.finite_managed[OF ag]
  show ?thesis
  proof (cases "supernets F")
    case None
    with run have "DeletePodCIDRAggregate api slug (ExternalIDForPodCIDRAggregate F) w = (Ok u, w')"
      by (simp add: sync_aggregate_def Let_def)
    then have "removed psize aggregate_kind slug (ExternalIDForPodCIDRAggregate F) (view w) (view w')"
      by (rule delete_aggregate_run[OF law])
    then show ?thesis by (rule removed_step[where F = F and supernets = supernets, OF _ None fin])
  next
    case (Some cidr)
    let ?s = "\<lparr>as_CIDR = cidr, as_RIRName = rir, as_Description = aggregate_description F,
      as_ExternalID = ExternalIDForPodCIDRAggregate F, as_ManagedTag = t\<rparr>"
    from run Some obtain i where ens: "EnsurePodCIDRAggregate api ?s w = (Ok i, w')"
      by (auto simp: sync_aggregate_def Let_def elim!: bind_OkE ret_OkE)
    have "aggregate_recorded (view w) ?s = (\<lambda>d. wa_Prefix d = cidr \<and> wa_Rir d \<in> v_refs (view w) RRIR rir)"
      by (simp add: fun_eq_iff aggregate_recorded_def)
    with triple_OkD[OF EnsurePodCIDRAggregate_triple[OF law] refl ens] tag
    have "ensured psize aggregate_kind slug (ExternalIDForPodCIDRAggregate F)
        (\<lambda>d. wa_Prefix d = cidr \<and> wa_Rir d \<in> v_refs (view w) RRIR rir) i (view w) (view w')"
      by simp
    then show ?thesis by (rule ensured_step[where F = F and supernets = supernets, OF _ Some fin])
  qed
qed

section \<open>Reconciling\<close>

lemma sync_aggregates_run:
  assumes law: "lawful psize view api" and tag: "tg_Slug t = Some slug"
    and run: "for_each podCIDRAddressFamilies (sync_aggregate api slug rir t supernets) w = (Ok u, w')"
  obtains m where "aggregate_step psize slug (v_refs (view w) RRIR rir) supernets familyIPv4 (view w) m"
    and "aggregate_step psize slug (v_refs (view w) RRIR rir) supernets familyIPv6 m (view w')"
proof -
  from run obtain x w1 y w2 where
    "sync_aggregate api slug rir t supernets familyIPv4 w = (Ok x, w1)"
    "sync_aggregate api slug rir t supernets familyIPv6 w1 = (Ok y, w2)" "w' = w2"
    by (auto simp: podCIDRAddressFamilies_def elim!: bind_OkE ret_OkE)
  note steps = sync_aggregate_run[OF law tag this(1)] sync_aggregate_run[OF law tag this(2)] this(3)
  from steps(1) have "v_refs (view w1) = v_refs (view w)"
    unfolding aggregate_step_def only_def aggregate_kind_def by auto
  with steps that show thesis by simp
qed

text \<open>The aggregates after both families: each is as is due, if there was room for one more.\<close>

definition aggregates_synced :: "nat \<Rightarrow> string \<Rightarrow> int set \<Rightarrow> (string \<rightharpoonup> string) \<Rightarrow> nb_view \<Rightarrow> nb_view \<Rightarrow> bool" where
  "aggregates_synced psize slug rirs supernets v v' \<longleftrightarrow> only aggregate_kind v v' \<and> untouched aggregate_kind slug v v' \<and>
     (unique_ids aggregate_kind slug v \<and> card (managed aggregate_kind slug v) < psize \<longrightarrow>
        unique_ids aggregate_kind slug v' \<and> (\<forall>F \<in> set podCIDRAddressFamilies. aggregate_due slug rirs supernets F v'))"

lemma aggregate_stepD:
  assumes "aggregate_step psize slug rirs supernets F v v'"
  shows "only aggregate_kind v v'" and "untouched aggregate_kind slug v v'"
    and "card (managed aggregate_kind slug v') \<le> Suc (card (managed aggregate_kind slug v))"
    and "unique_ids aggregate_kind slug v \<Longrightarrow> card (managed aggregate_kind slug v) \<le> psize \<Longrightarrow>
      unique_ids aggregate_kind slug v' \<and> aggregate_due slug rirs supernets F v'"
    and "unique_ids aggregate_kind slug v \<Longrightarrow> card (managed aggregate_kind slug v) \<le> psize \<Longrightarrow>
      G \<noteq> F \<Longrightarrow> aggregate_due slug rirs supernets G v \<Longrightarrow> aggregate_due slug rirs supernets G v'"
  using assms unfolding aggregate_step_def by blast+

lemma aggregate_steps_synced:
  assumes s4: "aggregate_step psize slug rirs supernets familyIPv4 v m"
    and s6: "aggregate_step psize slug rirs supernets familyIPv6 m v'"
  shows "aggregates_synced psize slug rirs supernets v v'"
proof -
  have ne: "familyIPv4 \<noteq> familyIPv6" by (simp add: familyIPv4_def familyIPv6_def)
  have "unique_ids aggregate_kind slug v' \<and> aggregate_due slug rirs supernets familyIPv4 v' \<and>
      aggregate_due slug rirs supernets familyIPv6 v'"
    if u: "unique_ids aggregate_kind slug v" and room: "card (managed aggregate_kind slug v) < psize"
  proof -
    have m: "unique_ids aggregate_kind slug m" "aggregate_due slug rirs supernets familyIPv4 m"
      using aggregate_stepD(4)[OF s4 u] room by simp_all
    have c: "card (managed aggregate_kind slug m) \<le> psize" using aggregate_stepD(3)[OF s4] room by simp
    show ?thesis using aggregate_stepD(4)[OF s6 m(1) c] aggregate_stepD(5)[OF s6 m(1) c ne m(2)] by simp
  qed
  moreover have "only aggregate_kind v v'"
    by (rule only_trans[OF kind_ok_kinds(6) aggregate_stepD(1)[OF s4] aggregate_stepD(1)[OF s6]])
  moreover have "untouched aggregate_kind slug v v'"
    by (rule untouched_trans[OF aggregate_stepD(2)[OF s4] aggregate_stepD(2)[OF s6]])
  ultimately show ?thesis unfolding aggregates_synced_def podCIDRAddressFamilies_def by simp
qed

definition aggregates_reconciled :: "nat \<Rightarrow> HeraldConfigSpec \<Rightarrow> node list \<Rightarrow> nb_view \<Rightarrow> nb_view \<Rightarrow> bool" where
  "aggregates_reconciled psize spec nodes v v' \<longleftrightarrow>
     (let slug = resolveManagedTagSlug spec; podCIDRs = rc_PodCIDRs (hs_Resources spec) in
      \<exists>supernets u t. computeSupernets (concat (map nod_PodCIDRs nodes)) = Inr supernets \<and>
        prefixes_cleared psize slug nodes v u \<and> tag_ensured slug u t \<and>
        aggregates_synced psize slug (v_refs v RRIR (pc_RIRName podCIDRs)) supernets t v')"

lemma tag_ensured_managed: "tag_ensured slug v v' \<Longrightarrow> k_get aggregate_kind v' = k_get aggregate_kind v"
  by (simp add: tag_ensured_tables aggregate_kind_def)

lemma aggregates_enabled_run:
  assumes law: "lawful_world psize view env" and on: "pc_Enabled (rc_PodCIDRs (hs_Resources spec))"
    and run: "syncAggregates env (Netbox env c) (resolveManagedTagSlug spec) spec w = (Ok u, w')"
  shows "\<exists>nodes. fst (ListNodes env w) = Ok nodes \<and> aggregates_reconciled psize spec nodes (view w) (view w')"
proof -
  note api = lawful_worldD(2)[OF law]
  let ?slug = "resolveManagedTagSlug spec"
  let ?rir = "pc_RIRName (rc_PodCIDRs (hs_Resources spec))"
  from run on obtain nodes w1 x w2 where nodes: "ListNodes env w = (Ok nodes, w1)"
    and clear: "for_each nodes (\<lambda>node. DeleteNodePodCIDRPrefixes (Netbox env c) ?slug (nod_Name node)) w1 = (Ok x, w2)"
    and rest: "(case computeSupernets (concat (map nod_PodCIDRs nodes)) of Inl err \<Rightarrow> fail err
      | Inr supernets \<Rightarrow> bind (EnsureManagedTag (Netbox env c) ?slug) (\<lambda>managedTag.
          for_each podCIDRAddressFamilies (sync_aggregate (Netbox env c) ?slug ?rir managedTag supernets))) w2 = (Ok u, w')"
    unfolding syncAggregates_def Let_def by (auto elim!: bind_OkE wrap_err_OkE)
  from rest obtain supernets t w3 where nets: "computeSupernets (concat (map nod_PodCIDRs nodes)) = Inr supernets"
    and tag: "EnsureManagedTag (Netbox env c) ?slug w2 = (Ok t, w3)"
    and fams: "for_each podCIDRAddressFamilies (sync_aggregate (Netbox env c) ?slug ?rir t supernets) w3 = (Ok u, w')"
    by (auto simp: fail_def split: sum.splits elim!: bind_OkE)
  note t = EnsureManagedTag_run[OF api tag]
  have cl: "prefixes_cleared psize ?slug nodes (view w) (view w2)"
    using clear_prefixes_run[OF api clear] kube_reads(5)[OF law nodes] by simp
  then obtain f where "view w2 = k_upd prefix_kind f (view w)" unfolding prefixes_cleared_def only_def by blast
  then have refs: "v_refs (view w3) = v_refs (view w)" using tag_ensured_tables(8)[OF t(2)] by (simp add: prefix_kind_def)
  obtain m where
    "aggregate_step psize ?slug (v_refs (view w) RRIR ?rir) supernets familyIPv4 (view w3) m"
    "aggregate_step psize ?slug (v_refs (view w) RRIR ?rir) supernets familyIPv6 m (view w')"
    using sync_aggregates_run[OF api t(1) fams] unfolding refs .
  from aggregate_steps_synced[OF this] cl t(2) nets
  have "aggregates_reconciled psize spec nodes (view w) (view w')"
    unfolding aggregates_reconciled_def Let_def by blast
  then show ?thesis using nodes by auto
qed

text \<open>C11: with the aggregate representation, a reconcile that asks to be run again does so
  after the resync interval. If the type is enabled, it has listed the Nodes and computed the
  supernets of their pod CIDRs; no prefix of these Nodes is left, if the managed prefixes fit on one
  page, and each address family in use has one aggregate, recording the family's supernet under the
  configured RIR, and an unused family has none, if the external IDs of aggregates were unique and
  one more aggregate fits on a page. If it is disabled, one aggregate of each family has been
  removed, if there was one and the managed ones fit on one page, or nothing has changed if they are
  to be retained. Whatever fits, no object without the managed tag has changed.\<close>

theorem reconcilePodCIDR_aggregates_correct:
  assumes law: "lawful_world psize view env"
    and spec: "sto_spec (w_store w) = Some spec" and client: "sto_client (w_store w) = Some c"
    and mode: "pc_Representation (rc_PodCIDRs (hs_Resources spec)) = PodCIDRRepresentationAggregate"
    and run: "reconcilePodCIDR env req w = (Ok r, w')" and again: "RequeueAfter r \<noteq> 0"
  shows "RequeueAfter r = resolveResyncInterval spec \<and>
    (if pc_Enabled (rc_PodCIDRs (hs_Resources spec))
     then \<exists>nodes. fst (ListNodes env w) = Ok nodes \<and> aggregates_reconciled psize spec nodes (view w) (view w')
     else if pc_RetainOnDisable (rc_PodCIDRs (hs_Resources spec)) then view w' = view w
     else aggregates_dropped psize (resolveManagedTagSlug spec) (view w) (view w'))"
proof -
  note status = status_tail[OF _ status_reads(3)[OF law]] and api = lawful_worldD(2)[OF law]
  let ?slug = "resolveManagedTagSlug spec"
  let ?podCIDRs = "rc_PodCIDRs (hs_Resources spec)"
  from run again obtain u w1 where sync: "syncAggregates env (Netbox env c) ?slug spec w = (Ok u, w1)"
    and tail: "bind (syncPodCIDRStatus env ?slug spec None) (\<lambda>_. ret \<lparr>RequeueAfter = resolveResyncInterval spec\<rparr>) w1 = (Ok r, w')"
    unfolding reconcilePodCIDR_def bind_StoreGet spec client prod.case option.case Let_def if_P[OF mode] reconcileAggregates_def
    by (auto elim!: if_err_OkE dest!: stops)
  have tail: "RequeueAfter r = resolveResyncInterval spec" "view w' = view w1" using status[OF tail] by simp_all
  show ?thesis
  proof (cases "pc_Enabled ?podCIDRs")
    case True
    with aggregates_enabled_run[OF law True sync] tail show ?thesis by simp
  next
    case False
    with sync tail show ?thesis
      by (auto simp: syncAggregates_def Let_def ret_def dest: delete_aggregates_run[OF api] split: if_splits)
  qed
qed

section \<open>A run in memory\<close>

definition aggregate_spec :: HeraldConfigSpec where
  "aggregate_spec = demo_spec\<lparr>hs_Resources := (hs_Resources demo_spec)\<lparr>rc_PodCIDRs := \<lparr>pc_Enabled = True,
     pc_RetainOnDisable = False, pc_Representation = PodCIDRRepresentationAggregate, pc_RIRName = ''rfc1918''\<rparr>\<rparr>\<rparr>"

definition aggregate_world :: memory where
  "aggregate_world = live_world\<lparr>w_store := \<lparr>sto_spec = Some aggregate_spec, sto_client = Some demo_client\<rparr>,
     k_nodes := [demo_node, \<lparr>nod_Name = ''node-2'', nod_UID = ''uid-3'', nod_PodCIDRs = [''10.1.6.0/24'']\<rparr>]\<rparr>"

lemma aggregate_spec_parts [run_simps]:
  "rc_PodCIDRs (hs_Resources aggregate_spec) = \<lparr>pc_Enabled = True, pc_RetainOnDisable = False,
     pc_Representation = PodCIDRRepresentationAggregate, pc_RIRName = ''rfc1918''\<rparr>"
  "resolveManagedTagSlug aggregate_spec = demo_slug" "resolveResyncInterval aggregate_spec = 60000000000"
  by (simp_all add: aggregate_spec_def resolveManagedTagSlug_def resolveResyncInterval_def demo_spec_def
    demo_slug_def word_sle_eq)

lemmas [run_simps] = demo_supernets demo_supernets_def reconcileAggregates_def syncAggregates_def sync_aggregate_def aggregate_description_def

lemma live_aggregate_run: "fst (reconcilePodCIDR (mem_env 50) \<lparr>rq_Namespace = [], rq_Name = ''node-1''\<rparr> aggregate_world) =
    Ok \<lparr>RequeueAfter = 60000000000\<rparr>"
  by (simp add: aggregate_world_def live_world_def run_simps)

theorem reconcilePodCIDR_aggregates_witness:
  "\<exists>nodes. fst (ListNodes (mem_env 50) aggregate_world) = Ok nodes \<and>
     aggregates_reconciled 50 aggregate_spec nodes (mem_view aggregate_world)
       (mem_view (snd (reconcilePodCIDR (mem_env 50) \<lparr>rq_Namespace = [], rq_Name = ''node-1''\<rparr> aggregate_world)))"
proof -
  have store: "sto_spec (w_store aggregate_world) = Some aggregate_spec" "sto_client (w_store aggregate_world) = Some demo_client"
    by (simp_all add: aggregate_world_def)
  have mode: "pc_Representation (rc_PodCIDRs (hs_Resources aggregate_spec)) = PodCIDRRepresentationAggregate"
    and on: "pc_Enabled (rc_PodCIDRs (hs_Resources aggregate_spec))"
    and again: "RequeueAfter \<lparr>RequeueAfter = 60000000000\<rparr> \<noteq> 0"
    by (simp_all add: aggregate_spec_parts)
  from reconcilePodCIDR_aggregates_correct[OF lawful_mem_env store mode run_split[OF live_aggregate_run] again]
  show ?thesis unfolding if_P[OF on] by (rule conjunct2)
qed

end
