(* ===== verification/Owner_Properties.thy ===== *)
theory Owner_Properties
  imports Controller_Properties
begin

text \<open>
  Owners side by side: syncing the objects of one Service or Node leaves those of the others as
  they are, so that syncing all of them, one after the other, gets all of them right.
\<close>

section \<open>Any kind\<close>

lemma spares_settled:
  assumes sp: "spares K slug X v v'" and y: "y \<notin> X" and ids: "ids_for K slug y v' = ids_for K slug y v"
    and s: "settled K slug R y v"
  shows "settled K slug R y v'"
proof -
  obtain i d where i: "ids_for K slug y v = {i}" "k_get K v i = Some d" "R y d"
    using s unfolding settled_def by blast
  have "i \<in> ids_for K slug y v" using i(1) by simp
  then have "\<forall>x \<in> X. i \<notin> ids_for K slug x v" using y ids_for_disjoint by metis
  with sp i(2) have "k_get K v' i = Some d" unfolding spares_def by blast
  with i ids show ?thesis unfolding settled_def by simp
qed

lemma matches_settled: "matches K slug pre R xs v \<longleftrightarrow>
    (\<forall>y. prefix pre y \<longrightarrow> (if y \<in> set xs then settled K slug R y v else ids_for K slug y v = {}))"
  by (simp add: matches_def settled_def)

lemma frame_matches:
  assumes "sync_frame K slug pre v v'" and "\<And>y. prefix pre' y \<Longrightarrow> \<not> prefix pre y" and "matches K slug pre' R xs v"
  shows "matches K slug pre' R xs v'"
  unfolding matches_settled
proof (intro allI impI)
  fix y
  assume y: "prefix pre' y"
  have ids: "ids_for K slug y v' = ids_for K slug y v" and sp: "spares K slug {y. prefix pre y} v v'"
    using assms(1,2) y unfolding sync_frame_def by blast+
  show "if y \<in> set xs then settled K slug R y v' else ids_for K slug y v' = {}"
    using assms(3) y ids spares_settled[OF sp _ ids] assms(2)[OF y] unfolding matches_settled by simp
qed

context ensure_and_prune
begin

lemma sync_all_run:
  assumes law: "lawful psize view client" and S: "set ss \<subseteq> S" and dist: "distinct (map owner_of ss)"
    and apart: "\<And>s s' y. s \<in> S \<Longrightarrow> s' \<in> S \<Longrightarrow> owner_of s \<noteq> owner_of s' \<Longrightarrow>
      prefix (owner_prefix (owner_of s)) y \<Longrightarrow> \<not> prefix (owner_prefix (owner_of s')) y"
    and un: "unique_ids K slug (view w)"
    and room: "card (managed K slug (view w)) + (\<Sum>s \<leftarrow> ss. length (desired s)) \<le> psize"
    and run: "for_each ss (sync client slug) w = (Ok u, w')"
  shows "(\<forall>s \<in> set ss. matches K slug (owner_prefix (owner_of s)) (records s) (desired s) (view w')) \<and>
    (\<forall>s \<in> S. owner_of s \<notin> owner_of ` set ss \<longrightarrow>
       matches K slug (owner_prefix (owner_of s)) (records s) (desired s) (view w) \<longrightarrow>
       matches K slug (owner_prefix (owner_of s)) (records s) (desired s) (view w'))"
  using S dist un room run
proof (induction ss arbitrary: w)
  case Nil
  then show ?case by (simp add: ret_def)
next
  case (Cons s ss)
  let ?M = "\<lambda>s. matches K slug (owner_prefix (owner_of s)) (records s) (desired s)"
  from Cons.prems(5) obtain x w1 where one: "sync client slug s w = (Ok x, w1)"
    and rest: "for_each ss (sync client slug) w1 = (Ok u, w')"
    unfolding for_each.simps by (rule bind_OkE)
  have "synced psize K slug (owner_prefix (owner_of s)) (records s) (desired s) (view w) (view w1)"
    using triple_OkD[OF sync_triple[OF law] refl one] .
  then have frame: "sync_frame K slug (owner_prefix (owner_of s)) (view w) (view w1)"
    and now: "unique_ids K slug (view w1)" "?M s (view w1)"
    and card: "card (managed K slug (view w1)) \<le> card (managed K slug (view w)) + length (desired s)"
    unfolding synced_iff using Cons.prems(3,4) by auto
  have IH: "(\<forall>s \<in> set ss. ?M s (view w')) \<and> (\<forall>s \<in> S. owner_of s \<notin> owner_of ` set ss \<longrightarrow> ?M s (view w1) \<longrightarrow> ?M s (view w'))"
    by (rule Cons.IH[OF _ _ now(1) _ rest]) (use Cons.prems card in auto)
  have "s \<in> S" using Cons.prems(1) by simp
  have "?M t (view w1)" if "t \<in> S" "owner_of t \<noteq> owner_of s" "?M t (view w)" for t
    by (rule frame_matches[OF frame _ that(3)]) (use apart[OF that(1) \<open>s \<in> S\<close> that(2)] in blast)
  then show ?case using IH now(2) Cons.prems(1,2) \<open>s \<in> S\<close> by auto
qed

end

section \<open>Services and Nodes\<close>

lemma service_apart:
  assumes "CHR ''/'' \<notin> set ns" "CHR ''/'' \<notin> set n" "CHR ''/'' \<notin> set ns'" "CHR ''/'' \<notin> set n'"
    and "prefix (serviceExternalIDPrefix ns n) y" and "prefix (serviceExternalIDPrefix ns' n') y"
  shows "ns = ns' \<and> n = n'"
proof -
  obtain a where "y = ExternalIDForServiceAddress ns' n' a"
    using assms(6) by (auto simp: prefix_def ExternalIDForServiceAddress_def)
  then show ?thesis using service_prefix_iff[OF assms(1-4)] assms(5) by simp
qed

lemma node_apart:
  assumes "CHR ''/'' \<notin> set n" "CHR ''/'' \<notin> set n'"
    and "prefix (nodePodCIDRExternalIDPrefix n) y" and "prefix (nodePodCIDRExternalIDPrefix n') y"
  shows "n = n'"
proof -
  obtain c where "y = ExternalIDForNodePodCIDR n' c"
    using assms(4) by (auto simp: prefix_def ExternalIDForNodePodCIDR_def nodePodCIDRExternalIDPrefix_def)
  then show ?thesis using node_prefix_iff[OF assms(1,2)] assms(3) by simp
qed

definition named_service :: "service \<Rightarrow> bool" where
  "named_service svc \<longleftrightarrow> CHR ''/'' \<notin> set (svc_Namespace svc) \<and> CHR ''/'' \<notin> set (svc_Name svc)"

definition service_matched :: "string \<Rightarrow> nb_view \<Rightarrow> service \<Rightarrow> bool" where
  "service_matched slug v svc \<longleftrightarrow> matches ip_kind slug (serviceExternalIDPrefix (svc_Namespace svc) (svc_Name svc))
     (address_recorded svc) (desired_addresses svc) v"

definition named_node :: "node \<Rightarrow> bool" where
  "named_node node \<longleftrightarrow> CHR ''/'' \<notin> set (nod_Name node)"

definition node_matched :: "string \<Rightarrow> nb_view \<Rightarrow> node \<Rightarrow> bool" where
  "node_matched slug v node \<longleftrightarrow> matches prefix_kind slug (nodePodCIDRExternalIDPrefix (nod_Name node))
     (cidr_recorded node) (desired_prefixes node) v"

text \<open>Services do not get in each other's way. Syncing a list of Services with different names,
  none with a slash (Kubernetes allows none), one after the other, leaves the managed IP
  addresses of every one of them exactly as its ingress addresses say, and those of any other
  Service that were right before are still right, provided external IDs were unique and
  everything fits on a page.\<close>

theorem services_side_by_side:
  assumes law: "lawful psize view api"
    and names: "\<forall>svc \<in> set svcs. named_service svc" "distinct (map (\<lambda>svc. (svc_Namespace svc, svc_Name svc)) svcs)"
    and un: "unique_ids ip_kind slug (view w)"
    and room: "card (managed ip_kind slug (view w)) + (\<Sum>svc \<leftarrow> svcs. length (desired_addresses svc)) \<le> psize"
    and run: "for_each svcs (syncServiceAddresses api slug) w = (Ok u, w')"
  shows "(\<forall>svc \<in> set svcs. service_matched slug (view w') svc) \<and>
    (\<forall>svc. named_service svc \<longrightarrow> (svc_Namespace svc, svc_Name svc) \<notin> (\<lambda>svc. (svc_Namespace svc, svc_Name svc)) ` set svcs \<longrightarrow>
       service_matched slug (view w) svc \<longrightarrow> service_matched slug (view w') svc)"
proof -
  have apart: "\<not> prefix (serviceExternalIDPrefix (svc_Namespace t) (svc_Name t)) y"
    if "named_service s" "named_service t" "(svc_Namespace s, svc_Name s) \<noteq> (svc_Namespace t, svc_Name t)"
      "prefix (serviceExternalIDPrefix (svc_Namespace s) (svc_Name s)) y" for s t y
    using that service_apart unfolding named_service_def by blast
  have sub: "set svcs \<subseteq> {svc. named_service svc}" using names(1) by blast
  from service_sync.sync_all_run[OF law sub names(2) _ un room run] apart
  show ?thesis unfolding service_matched_def by simp
qed

definition other_service :: service where
  "other_service = \<lparr>svc_Namespace = ''ns'', svc_Name = ''db'', svc_Type = ServiceTypeLoadBalancer, svc_Ingress = [''10.0.0.8'']\<rparr>"

lemma both_services_run:
  "fst (for_each [demo_service, other_service] (syncServiceAddresses (mem_api 50) demo_slug) stocked_world) = Ok ()"
proof -
  have "cidrForIP ''10.0.0.8'' = Inr ''10.0.0.8/32''" by code_simp
  then show ?thesis by (simp add: other_service_def run_simps)
qed

text \<open>Nor do Nodes. Syncing the pod CIDR prefixes of a list of Nodes with different names, one
  after the other, leaves the managed prefixes of every one of them exactly as its pod CIDRs
  say, and those of any other Node that were right before are still right, provided external
  IDs were unique and everything fits on a page.\<close>

theorem nodes_side_by_side:
  assumes law: "lawful psize view api"
    and names: "\<forall>node \<in> set nodes. named_node node" "distinct (map nod_Name nodes)"
    and un: "unique_ids prefix_kind slug (view w)"
    and room: "card (managed prefix_kind slug (view w)) + (\<Sum>node \<leftarrow> nodes. length (desired_prefixes node)) \<le> psize"
    and run: "for_each nodes (syncNodePrefixes api slug) w = (Ok u, w')"
  shows "(\<forall>node \<in> set nodes. node_matched slug (view w') node) \<and>
    (\<forall>node. named_node node \<longrightarrow> nod_Name node \<notin> nod_Name ` set nodes \<longrightarrow>
       node_matched slug (view w) node \<longrightarrow> node_matched slug (view w') node)"
proof -
  have apart: "\<not> prefix (nodePodCIDRExternalIDPrefix (nod_Name t)) y"
    if "named_node s" "named_node t" "nod_Name s \<noteq> nod_Name t" "prefix (nodePodCIDRExternalIDPrefix (nod_Name s)) y" for s t y
    using that node_apart unfolding named_node_def by blast
  have sub: "set nodes \<subseteq> {node. named_node node}" using names(1) by blast
  from prefix_sync.sync_all_run[OF law sub names(2) _ un room run] apart
  show ?thesis unfolding node_matched_def by simp
qed

text \<open>C13: owners do not get in each other's way while everything fits on a page. Take
  Services, or Nodes, with different names and no slash in a name (Kubernetes allows none), unique
  external IDs, and a page that has room for the managed IP addresses, or prefixes, and those of all
  these owners. Syncing them one after the other, if all syncs succeed, leaves the managed objects
  of every one of them exactly as its ingress addresses or pod CIDRs say, and those of any other
  owner that were right before are still right.\<close>

theorem owners_side_by_side:
  assumes law: "lawful psize view api"
  shows "(\<forall>svcs w u w'. (\<forall>svc \<in> set svcs. named_service svc) \<longrightarrow> distinct (map (\<lambda>svc. (svc_Namespace svc, svc_Name svc)) svcs) \<longrightarrow>
      unique_ids ip_kind slug (view w) \<longrightarrow>
      card (managed ip_kind slug (view w)) + (\<Sum>svc \<leftarrow> svcs. length (desired_addresses svc)) \<le> psize \<longrightarrow>
      for_each svcs (syncServiceAddresses api slug) w = (Ok u, w') \<longrightarrow>
      (\<forall>svc \<in> set svcs. service_matched slug (view w') svc) \<and>
      (\<forall>svc. named_service svc \<longrightarrow> (svc_Namespace svc, svc_Name svc) \<notin> (\<lambda>svc. (svc_Namespace svc, svc_Name svc)) ` set svcs \<longrightarrow>
         service_matched slug (view w) svc \<longrightarrow> service_matched slug (view w') svc)) \<and>
    (\<forall>nodes w u w'. (\<forall>node \<in> set nodes. named_node node) \<longrightarrow> distinct (map nod_Name nodes) \<longrightarrow>
      unique_ids prefix_kind slug (view w) \<longrightarrow>
      card (managed prefix_kind slug (view w)) + (\<Sum>node \<leftarrow> nodes. length (desired_prefixes node)) \<le> psize \<longrightarrow>
      for_each nodes (syncNodePrefixes api slug) w = (Ok u, w') \<longrightarrow>
      (\<forall>node \<in> set nodes. node_matched slug (view w') node) \<and>
      (\<forall>node. named_node node \<longrightarrow> nod_Name node \<notin> nod_Name ` set nodes \<longrightarrow>
         node_matched slug (view w) node \<longrightarrow> node_matched slug (view w') node))"
  by (intro conjI[of "\<forall>svcs. _ svcs"] allI impI) (rule services_side_by_side[OF law] nodes_side_by_side[OF law]; assumption)+

theorem owners_side_by_side_witness:
  "service_matched demo_slug (mem_view (snd (for_each [demo_service, other_service]
     (syncServiceAddresses (mem_api 50) demo_slug) stocked_world))) demo_service"
proof -
  have names: "\<forall>svc \<in> set [demo_service, other_service]. named_service svc"
    "distinct (map (\<lambda>svc. (svc_Namespace svc, svc_Name svc)) [demo_service, other_service])"
    by (simp_all add: named_service_def demo_service_def other_service_def)
  have room: "card (managed ip_kind demo_slug (mem_view stocked_world)) +
      (\<Sum>svc \<leftarrow> [demo_service, other_service]. length (desired_addresses svc)) \<le> 50"
    by (simp add: stocked_unique desired_addresses_def addresses_of_def demo_service_def other_service_def)
  from conjunct1[OF owners_side_by_side[OF lawful_mem_api], rule_format, OF names(1)[rule_format] names(2) stocked_unique(1) room
    run_split[OF both_services_run]]
  show ?thesis by simp
qed

section \<open>Syncing again\<close>

lemma synced_again:
  assumes "synced psize K slug pre R xs v v'" and "matches K slug pre R xs v"
    and "unique_ids K slug v" and "card (managed K slug v) + length xs \<le> psize"
  shows "ids_for K slug y v' = ids_for K slug y v" and "matches K slug pre R xs v'"
proof -
  have frame: "sync_frame K slug pre v v'" and m: "matches K slug pre R xs v'"
    and same: "\<forall>y \<in> set xs. ids_for K slug y v \<noteq> {} \<longrightarrow> ids_for K slug y v' = ids_for K slug y v"
    using assms(1,3,4) unfolding synced_iff by blast+
  show "matches K slug pre R xs v'" by (rule m)
  show "ids_for K slug y v' = ids_for K slug y v"
  proof (cases "prefix pre y")
    case True
    then show ?thesis using same m assms(2) unfolding matches_def by (cases "y \<in> set xs") force+
  next
    case False
    then show ?thesis using frame unfolding sync_frame_def by blast
  qed
qed

text \<open>C14: the periodic resync is idempotent while everything fits on a page. Take a Service
  or a Node whose objects are already right, unique external IDs, and a page that has room for the
  managed objects and once more for those of this owner. Syncing it, if that succeeds, leaves its
  objects right and creates and removes nothing: for every external ID the managed objects keep
  their NetBox IDs, so what refers to them in NetBox stays valid.\<close>

theorem resync_in_place:
  assumes law: "lawful psize view api"
  shows "(\<forall>svc u w'. syncServiceAddresses api slug svc w = (Ok u, w') \<longrightarrow> service_matched slug (view w) svc \<longrightarrow>
       unique_ids ip_kind slug (view w) \<longrightarrow>
       card (managed ip_kind slug (view w)) + length (desired_addresses svc) \<le> psize \<longrightarrow>
       service_matched slug (view w') svc \<and> (\<forall>y. ids_for ip_kind slug y (view w') = ids_for ip_kind slug y (view w))) \<and>
    (\<forall>node u w'. syncNodePrefixes api slug node w = (Ok u, w') \<longrightarrow> node_matched slug (view w) node \<longrightarrow>
       unique_ids prefix_kind slug (view w) \<longrightarrow>
       card (managed prefix_kind slug (view w)) + length (desired_prefixes node) \<le> psize \<longrightarrow>
       node_matched slug (view w') node \<and> (\<forall>y. ids_for prefix_kind slug y (view w') = ids_for prefix_kind slug y (view w)))"
  using synced_again[OF triple_OkD[OF service_sync.sync_triple[OF law] refl]]
    synced_again[OF triple_OkD[OF prefix_sync.sync_triple[OF law] refl]]
  unfolding service_matched_def node_matched_def by simp

lemma stocked_ids: "ids_for ip_kind demo_slug y (mem_view stocked_world) =
    (if y = ''ns/web/10.0.0.9'' then {1} else if y = ''ns/db/10.0.0.8'' then {2} else {})"
  by (auto simp: ids_for_def ext_of_def mem_view_def run_simps split: if_splits)

lemma other_matched: "service_matched demo_slug (mem_view stocked_world) other_service"
proof -
  have cidr: "cidrForIP ''10.0.0.8'' = Inr ''10.0.0.8/32''" by code_simp
  have "\<exists>d. k_get ip_kind (mem_view stocked_world) 2 = Some d \<and> address_recorded other_service ''ns/db/10.0.0.8'' d"
    by (auto simp: address_recorded_def other_service_def mem_view_def run_simps cidr)
  then show ?thesis
    unfolding service_matched_def matches_def stocked_ids
    by (auto simp: desired_addresses_def addresses_of_def other_service_def run_simps)
qed

lemma other_service_run: "fst (syncServiceAddresses (mem_api 50) demo_slug other_service stocked_world) = Ok ()"
proof -
  have "cidrForIP ''10.0.0.8'' = Inr ''10.0.0.8/32''" by code_simp
  then show ?thesis by (simp add: other_service_def run_simps)
qed

theorem resync_in_place_witness:
  "\<forall>y. ids_for ip_kind demo_slug y (mem_view (snd (syncServiceAddresses (mem_api 50) demo_slug other_service stocked_world))) =
   ids_for ip_kind demo_slug y (mem_view stocked_world)"
proof -
  have room: "card (managed ip_kind demo_slug (mem_view stocked_world)) + length (desired_addresses other_service) \<le> 50"
    by (simp add: stocked_unique desired_addresses_def addresses_of_def other_service_def)
  from resync_in_place[OF lawful_mem_api[of 50], of demo_slug stocked_world] run_split[OF other_service_run]
    other_matched stocked_unique(1) room show ?thesis by blast
qed

section \<open>More than a page\<close>

text \<open>The page that lists the managed objects has none with the external ID \<open>x\<close>.\<close>

definition off_page :: "('o nb_object_scheme, 'd writable_scheme) kind \<Rightarrow> ('o nb_object_scheme, 'd writable_scheme, 'w) endpoint \<Rightarrow>
    string \<Rightarrow> string \<Rightarrow> nb_view \<Rightarrow> 'w \<Rightarrow> bool" where
  "off_page K ep slug x v w \<longleftrightarrow> (\<forall>pg w1. ep_list ep (no_params\<lparr>lp_Tag := [slug]\<rparr>) w = (Ok pg, w1) \<longrightarrow>
     list_all (\<lambda>ob. ob_ID ob \<notin> ids_for K slug x v) (pg_Results pg))"

text \<open>Another object \<open>i\<close> has the external ID \<open>x\<close> as well; if there was one before, it is not unique any more.\<close>

definition duplicated :: "('o, 'd writable_scheme) kind \<Rightarrow> string \<Rightarrow> string \<Rightarrow> int \<Rightarrow> nb_view \<Rightarrow> nb_view \<Rightarrow> bool" where
  "duplicated K slug x i v v' \<longleftrightarrow> i \<notin> ids_for K slug x v \<and> ids_for K slug x v' = insert i (ids_for K slug x v) \<and>
     (ids_for K slug x v \<noteq> {} \<longrightarrow> \<not> unique_ids K slug v')"

context managed_finder
begin

lemma find_off_page:
  assumes law: "lawful_ep psize view K (ep client)" and off: "off_page K (ep client) slug x (view w) w"
    and run: "find_ext client slug x w = (Ok r, w')"
  shows "r = None \<and> view w' = view w"
proof -
  obtain pg where page: "ep_list (ep client) (no_params\<lparr>lp_Tag := [slug]\<rparr>) w = (Ok pg, w')"
    and r: "r = List.find (\<lambda>ob. readExternalID (ob_CustomFields ob) = Some x) (pg_Results pg)"
    using run unfolding find_eq by (auto elim!: bind_OkE wrap_err_OkE ret_OkE)
  have "triple (\<lambda>u. view u = view w) (ep_list (ep client) (no_params\<lparr>lp_Tag := [slug]\<rparr>))
      (\<lambda>pg u. view u = view w \<and> listing psize K (no_params\<lparr>lp_Tag := [slug]\<rparr>) (view w) pg) (\<lambda>_ u. view u = view w)"
    using law unfolding lawful_ep_def by blast
  from triple_OkD[OF this refl page]
  have pg: "view w' = view w" "listing psize K (no_params\<lparr>lp_Tag := [slug]\<rparr>) (view w) pg" by blast+
  from off page have "\<forall>ob \<in> set (pg_Results pg). ob_ID ob \<notin> ids_for K slug x (view w)"
    by (auto simp: off_page_def list_all_iff)
  then show ?thesis using pg listed_ext[OF pg(2)] unfolding r find_None_all by blast
qed

end

context managed_ensure
begin

lemma ensure_off_page:
  assumes law: "lawful_ep psize view K (ep client)" and slug: "tg_Slug (spec_tag spec) = Some slug"
    and prep: "\<And>v. triple (\<lambda>w. view w = v) (prepare client spec) (\<lambda>_ w. view w = v) (\<lambda>_ _. True)"
    and off: "off_page K (ep client) slug (spec_ext spec) (view w) w"
    and run: "ensure client spec w = (Ok i, w')"
  shows "duplicated K slug (spec_ext spec) i (view w) (view w')"
proof -
  let ?x = "spec_ext spec"
  from run obtain r w1 d w2 where find: "find_ext client slug ?x w = (Ok r, w1)" and data: "prepare client spec w1 = (Ok d, w2)"
    and rest: "(case r of
        Some ob \<Rightarrow> bind (wrap_err (update_failed spec (ob_ID ob)) (ep_update (ep client) (ob_ID ob) d)) (\<lambda>resp. ret (ob_ID resp))
      | None \<Rightarrow> bind (wrap_err (create_failed spec) (ep_create (ep client) d)) (\<lambda>resp. ret (ob_ID resp))) w2 = (Ok i, w')"
    unfolding ensure_eq slug deref_simps bind_ret by (auto elim!: bind_OkE)
  note none = find_off_page[OF law off find]
  have v2: "view w2 = view w" using triple_OkD[OF prep _ data] none by blast
  obtain ob where ob: "ep_create (ep client) d w2 = (Ok ob, w')" "i = ob_ID ob"
    using rest none by (auto elim!: bind_OkE wrap_err_OkE ret_OkE)
  have "triple (\<lambda>u. view u = view w) (ep_create (ep client) d) (\<lambda>ob u. created K d ob (view w) (view u))
      (\<lambda>_ u. view u = view w \<or> (\<exists>ob. created K d ob (view w) (view u)))"
    using law unfolding lawful_ep_def by blast
  from triple_OkD[OF this v2 ob(1)] have "created K d ob (view w) (view w')" .
  then obtain d' where new: "k_get K (view w) i = None" "stored_as K d d'" "view w' = put_obj K i d' (view w)"
    by (auto simp: created_def ob(2))
  have "has_tag slug d' \<and> ext_of d' = Some ?x"
    using prepared[OF data] new(2) slug by (simp add: stored_as_def has_tag_NestedManagedTag ext_of_def)
  then have ids: "ids_for K slug ?x (view w') = insert i (ids_for K slug ?x (view w))" and i: "i \<notin> ids_for K slug ?x (view w)"
    using new(1) by (auto simp: ids_for_def new(3) put_obj_get[OF kind])
  have "\<not> unique_ids K slug (view w')" if "j \<in> ids_for K slug ?x (view w)" for j
    using that i ids unfolding unique_ids_def by (metis insertI1 insertI2)
  with ids i show ?thesis unfolding duplicated_def by blast
qed

end

context managed_delete
begin

lemma delete_off_page:
  assumes "lawful_ep psize view K (ep client)" and "off_page K (ep client) slug x (view w) w"
    and "delete_ext client slug x w = (Ok u, w')"
  shows "view w' = view w"
  using assms(3) find_off_page[OF assms(1,2)]
  unfolding delete_ext_eq by (auto elim!: bind_OkE ret_OkE)

end

text \<open>C40: every object is looked up on one page of a listing. If the page NetBox answers with
  has no managed object of an external ID, although there may be such objects, then ensuring one, if
  it succeeds, has created another with the same external ID, for each of the six kinds; if there
  was one already, the external IDs are no longer unique. Deleting by that external ID, if it
  returns without an error, has deleted nothing.\<close>

theorem second_page_duplicate:
  assumes law: "lawful psize view api" and slug: "tg_Slug t = Some slug"
  shows "(\<forall>s i w'. off_page cluster_kind (VirtualizationClusters api) slug (cs_ExternalID s) (view w) w \<and> cs_ManagedTag s = t \<and>
        EnsureCluster api s w = (Ok i, w') \<longrightarrow> duplicated cluster_kind slug (cs_ExternalID s) i (view w) (view w')) \<and>
    (\<forall>s i w'. off_page device_kind (DcimDevices api) slug (ds_ExternalID s) (view w) w \<and> ds_ManagedTag s = t \<and>
        EnsureDevice api s w = (Ok i, w') \<longrightarrow> duplicated device_kind slug (ds_ExternalID s) i (view w) (view w')) \<and>
    (\<forall>s i w'. off_page vm_kind (VirtualizationVirtualMachines api) slug (vs_ExternalID s) (view w) w \<and> vs_ManagedTag s = t \<and>
        EnsureVirtualMachine api s w = (Ok i, w') \<longrightarrow> duplicated vm_kind slug (vs_ExternalID s) i (view w) (view w')) \<and>
    (\<forall>s i w'. off_page ip_kind (IpamIPAddresses api) slug (is_ExternalID s) (view w) w \<and> is_ManagedTag s = t \<and>
        EnsureServiceIP api s w = (Ok i, w') \<longrightarrow> duplicated ip_kind slug (is_ExternalID s) i (view w) (view w')) \<and>
    (\<forall>s i w'. off_page prefix_kind (IpamPrefixes api) slug (ps_ExternalID s) (view w) w \<and> ps_ManagedTag s = t \<and>
        EnsurePodCIDRPrefix api s w = (Ok i, w') \<longrightarrow> duplicated prefix_kind slug (ps_ExternalID s) i (view w) (view w')) \<and>
    (\<forall>s i w'. off_page aggregate_kind (IpamAggregates api) slug (as_ExternalID s) (view w) w \<and> as_ManagedTag s = t \<and>
        EnsurePodCIDRAggregate api s w = (Ok i, w') \<longrightarrow> duplicated aggregate_kind slug (as_ExternalID s) i (view w) (view w')) \<and>
    (\<forall>x u w'. off_page cluster_kind (VirtualizationClusters api) slug x (view w) w \<and>
        DeleteCluster api slug x w = (Ok u, w') \<longrightarrow> view w' = view w) \<and>
    (\<forall>x u w'. off_page device_kind (DcimDevices api) slug x (view w) w \<and>
        DeleteDeviceByExternalID api slug x w = (Ok u, w') \<longrightarrow> view w' = view w) \<and>
    (\<forall>x u w'. off_page vm_kind (VirtualizationVirtualMachines api) slug x (view w) w \<and>
        DeleteVirtualMachineByExternalID api slug x w = (Ok u, w') \<longrightarrow> view w' = view w) \<and>
    (\<forall>x u w'. off_page aggregate_kind (IpamAggregates api) slug x (view w) w \<and>
        DeletePodCIDRAggregate api slug x w = (Ok u, w') \<longrightarrow> view w' = view w)"
proof -
  have ep: "lawful_ep psize view cluster_kind (VirtualizationClusters api)" "lawful_ep psize view device_kind (DcimDevices api)"
    "lawful_ep psize view vm_kind (VirtualizationVirtualMachines api)" "lawful_ep psize view ip_kind (IpamIPAddresses api)"
    "lawful_ep psize view prefix_kind (IpamPrefixes api)" "lawful_ep psize view aggregate_kind (IpamAggregates api)"
    using law by (simp_all add: lawful_def)
  note prep = triple_post[OF cluster_data_triple[OF law]] triple_post[OF device_data_triple[OF law]]
    triple_post[OF vm_data_triple[OF law]] triple_post[OF aggregate_data_triple[OF law]]
  show ?thesis
    using slug by (intro conjI allI impI; elim conjE)
      (auto intro!: cluster.ensure_off_page[OF ep(1) _ prep(1)] device.ensure_off_page[OF ep(2) _ prep(2)]
        vm.ensure_off_page[OF ep(3) _ prep(3)] ip.ensure_off_page[OF ep(4) _ triple_ret]
        pfx.ensure_off_page[OF ep(5) _ triple_ret] agg.ensure_off_page[OF ep(6) _ prep(4)]
        intro: cluster_delete.delete_off_page[OF ep(1)] device_delete.delete_off_page[OF ep(2)]
          vm_delete.delete_off_page[OF ep(3)] agg_delete.delete_off_page[OF ep(6)])
qed

text \<open>In memory, with one object on a page: the second of two IP addresses is not found.\<close>

definition other_address :: service_ip_spec where
  "other_address = \<lparr>is_Address = ''10.0.0.8/32'', is_Description = [], is_ExternalID = ''ns/db/10.0.0.8'',
     is_ManagedTag = demo_tag\<rparr>"

theorem second_page_duplicate_witness:
  "ids_for ip_kind demo_slug (is_ExternalID other_address) (mem_view stocked_world) = {2} \<and>
   duplicated ip_kind demo_slug (is_ExternalID other_address) 3 (mem_view stocked_world)
     (mem_view (snd (EnsureServiceIP (mem_api 1) other_address stocked_world)))"
proof -
  have ids: "ids_for ip_kind demo_slug (is_ExternalID other_address) (mem_view stocked_world) = {2}"
    by (simp add: stocked_ids other_address_def)
  have "off_page ip_kind (IpamIPAddresses (mem_api 1)) demo_slug (is_ExternalID other_address) (mem_view stocked_world) stocked_world"
    unfolding off_page_def ids by (simp add: run_simps)
  moreover have "EnsureServiceIP (mem_api 1) other_address stocked_world =
      (Ok 3, snd (EnsureServiceIP (mem_api 1) other_address stocked_world))"
    by (rule run_split) (simp add: other_address_def run_simps)
  moreover have tag: "is_ManagedTag other_address = demo_tag" "tg_Slug demo_tag = Some demo_slug"
    by (simp_all add: other_address_def demo_tag_def)
  ultimately show ?thesis
    using conjunct1[OF conjunct2[OF conjunct2[OF conjunct2[OF
        second_page_duplicate[OF lawful_mem_api[of 1] tag(2), of stocked_world]]]]] ids by blast
qed

end
