(* ===== verification/Progress_Properties.thy ===== *)
theory Progress_Properties
  imports Controller_Properties
begin

text \<open>
  Progress: on a NetBox whose calls do not fail, syncing a Service with valid addresses succeeds,
  and its reconcile ends in a resync.
\<close>

section \<open>Runs that succeed\<close>

definition succeeds :: "('w \<Rightarrow> bool) \<Rightarrow> ('w, 'a) go \<Rightarrow> bool" where
  "succeeds P m \<longleftrightarrow> triple P m (\<lambda>_ _. True) (\<lambda>_ _. False)"

named_theorems succeeds_rules \<open>success of the combinators\<close>

lemma succeeds_ret [succeeds_rules]: "succeeds P (ret x)"
  by (simp add: succeeds_def triple_ret)

lemma succeeds_bind [succeeds_rules]:
  "succeeds P m \<Longrightarrow> (\<And>x. succeeds (\<lambda>_. True) (k x)) \<Longrightarrow> succeeds P (bind m k)"
  unfolding succeeds_def by (rule triple_bind)

lemma succeeds_wrap_err [succeeds_rules]: "succeeds P m \<Longrightarrow> succeeds P (wrap_err f m)"
  unfolding succeeds_def by (rule triple_wrap_err)

lemma succeeds_weaken: "succeeds P' m \<Longrightarrow> (\<And>w. P w \<Longrightarrow> P' w) \<Longrightarrow> succeeds P m"
  unfolding succeeds_def by (erule triple_weaken) auto

text \<open>With what a run establishes when it succeeds.\<close>

lemma succeeds_post: "succeeds P m \<Longrightarrow> triple P m Q E \<Longrightarrow> triple P m Q (\<lambda>_ _. False)"
  unfolding succeeds_def by (drule (1) triple_conj) simp

lemma succeeds_bind_post:
  assumes "succeeds P m" and "triple P m R E" and "\<And>x. succeeds (R x) (k x)"
  shows "succeeds P (bind m k)"
  unfolding succeeds_def
  by (rule triple_bind[OF succeeds_post[OF assms(1,2)]]) (use assms(3) in \<open>simp add: succeeds_def\<close>)

lemma succeeds_run: "succeeds P m \<Longrightarrow> P w \<Longrightarrow> \<exists>x w'. m w = (Ok x, w')"
  unfolding succeeds_def by (cases "m w"; cases "fst (m w)") (auto dest: triple_ErrD triple_PanicD)

lemma triple_disj: "triple P m Q E \<Longrightarrow> triple P' m Q E \<Longrightarrow> triple (\<lambda>w. P w \<or> P' w) m Q E"
  by (auto simp: triple_def)

section \<open>A NetBox that answers\<close>

text \<open>
  No call fails that refers to existing objects only, and no object is listed twice on a page.
\<close>

definition answers :: "('w \<Rightarrow> nb_view) \<Rightarrow> ('o nb_object_scheme, 'd writable_scheme) kind \<Rightarrow>
    ('o nb_object_scheme, 'd writable_scheme, 'w) endpoint \<Rightarrow> bool" where
  "answers view K ep \<longleftrightarrow>
     (\<forall>p. triple (\<lambda>_. True) (ep_list ep p) (\<lambda>pg _. distinct (map ob_ID (pg_Results pg))) (\<lambda>_ _. False)) \<and>
     (\<forall>d. succeeds (\<lambda>_. True) (ep_create ep d)) \<and>
     (\<forall>i d. succeeds (\<lambda>w. k_get K (view w) i \<noteq> None) (ep_update ep i d)) \<and>
     (\<forall>i. succeeds (\<lambda>w. k_get K (view w) i \<noteq> None) (ep_delete ep i))"

lemma answersD:
  assumes "answers view K ep"
  shows "triple (\<lambda>_. True) (ep_list ep p) (\<lambda>pg _. distinct (map ob_ID (pg_Results pg))) (\<lambda>_ _. False)"
    and "succeeds (\<lambda>_. True) (ep_create ep d)"
    and "succeeds (\<lambda>w. k_get K (view w) i \<noteq> None) (ep_update ep i d)"
    and "succeeds (\<lambda>w. k_get K (view w) i \<noteq> None) (ep_delete ep i)"
  using assms by (simp_all add: answers_def)

lemma list_succeeds: "answers view K ep \<Longrightarrow> succeeds P (ep_list ep p)"
  unfolding succeeds_def by (rule triple_weaken[OF answersD(1)]) simp_all

context managed_ensure
begin

lemma ensure_succeeds_at:
  assumes law: "lawful_ep psize view K (ep client)" and ans: "answers view K (ep client)"
    and slug: "tg_Slug (spec_tag spec) = Some slug"
    and prep: "triple (\<lambda>w. view w = v) (prepare client spec) (\<lambda>_ w. view w = v) (\<lambda>_ _. False)"
  shows "succeeds (\<lambda>w. view w = v) (ensure client spec)"
  unfolding ensure_eq slug deref_simps bind_ret
proof (rule succeeds_bind_post[OF _ find_triple[OF law]])
  show "succeeds (\<lambda>w. view w = v) (find_ext client slug (spec_ext spec))"
    unfolding find_eq by (intro succeeds_rules list_succeeds[OF ans])
  fix r
  show "succeeds (\<lambda>w. view w = v \<and> found_ext psize K slug (spec_ext spec) v r)
     (bind (prepare client spec) (\<lambda>data. case r of
        Some ob \<Rightarrow> bind (wrap_err (update_failed spec (ob_ID ob)) (ep_update (ep client) (ob_ID ob) data))
          (\<lambda>resp. ret (ob_ID resp))
      | None \<Rightarrow> bind (wrap_err (create_failed spec) (ep_create (ep client) data)) (\<lambda>resp. ret (ob_ID resp))))"
  proof (cases r)
    case None
    have "succeeds (\<lambda>w. view w = v) (prepare client spec)" unfolding succeeds_def by (rule triple_post[OF prep]) simp_all
    then show ?thesis unfolding None option.case
      by (intro succeeds_bind succeeds_wrap_err succeeds_ret answersD(2)[OF ans]) (erule succeeds_weaken, simp)
  next
    case (Some ob)
    have upd: "succeeds (\<lambda>w. k_get K (view w) (ob_ID ob) \<noteq> None)
        (bind (wrap_err (update_failed spec (ob_ID ob)) (ep_update (ep client) (ob_ID ob) data)) (\<lambda>resp. ret (ob_ID resp)))" for data
      by (intro succeeds_rules answersD(3)[OF ans])
    have "triple (\<lambda>w. ob_ID ob \<in> ids_for K slug (spec_ext spec) v \<and> view w = v) (prepare client spec)
        (\<lambda>_ w. k_get K (view w) (ob_ID ob) \<noteq> None) (\<lambda>_ _. False)"
      by (rule triple_pre_cond, rule triple_post[OF prep]) (auto simp: ids_for_def)
    then have "triple (\<lambda>w. view w = v \<and> found_ext psize K slug (spec_ext spec) v r) (prepare client spec)
        (\<lambda>_ w. k_get K (view w) (ob_ID ob) \<noteq> None) (\<lambda>_ _. False)"
      by (rule triple_weaken) (auto simp: found_ext_def Some)
    then show ?thesis unfolding Some option.case succeeds_def
      by (rule triple_bind) (rule upd[unfolded succeeds_def])
  qed
qed

lemma ensure_succeeds:
  assumes "lawful_ep psize view K (ep client)" and "answers view K (ep client)" and "tg_Slug (spec_tag spec) = Some slug"
    and "\<And>v. triple (\<lambda>w. view w = v) (prepare client spec) (\<lambda>_ w. view w = v) (\<lambda>_ _. False)"
  shows "succeeds P (ensure client spec)"
  using ensure_succeeds_at[OF assms] by (simp add: succeeds_def triple_def)

end

context managed_delete
begin

lemma delete_ext_succeeds:
  assumes law: "lawful_ep psize view K (ep client)" and ans: "answers view K (ep client)"
  shows "succeeds P (delete_ext client slug x)"
proof -
  have "succeeds (\<lambda>w. view w = v) (delete_ext client slug x)" for v
    unfolding delete_ext_eq
  proof (rule succeeds_bind_post[OF _ find_triple[OF law]])
    show "succeeds (\<lambda>w. view w = v) (find_ext client slug x)"
      unfolding find_eq by (intro succeeds_rules list_succeeds[OF ans])
    fix r
    have del: "succeeds (\<lambda>w. k_get K (view w) i \<noteq> None) (wrap_err f (ep_delete (ep client) i))" for f i
      by (intro succeeds_rules answersD(4)[OF ans])
    show "succeeds (\<lambda>w. view w = v \<and> found_ext psize K slug x v r)
        (case r of None \<Rightarrow> ret ()
         | Some ob \<Rightarrow> bind (wrap_err (delete_failed (ob_ID ob)) (ep_delete (ep client) (ob_ID ob))) (\<lambda>_. ret ()))"
      by (cases r) (auto intro!: succeeds_ret succeeds_weaken[OF del] simp: found_ext_def ids_for_def)
  qed
  then show ?thesis by (simp add: succeeds_def triple_def)
qed

end

context managed_owner
begin

text \<open>The ID of an object that is still there can be deleted, and the loop deletes none twice.\<close>

lemma drop_loop_succeeds:
  assumes law: "lawful_ep psize view K (ep client)" and ans: "answers view K (ep client)"
    and body: "\<And>ob. ob \<in> set owned \<Longrightarrow> f ob = (if P ob then delete_id client (ob_ID ob) else ret ())"
    and dist: "distinct (map ob_ID owned)" and there: "\<forall>ob \<in> set owned. k_get K v (ob_ID ob) \<noteq> None"
  shows "succeeds (\<lambda>w. view w = v) (for_each owned f)"
  using body dist there
proof (induction owned arbitrary: v)
  case Nil
  show ?case by (simp add: succeeds_ret)
next
  case (Cons ob owned)
  have f: "f ob = (if P ob then delete_id client (ob_ID ob) else ret ())" by (rule Cons.prems(1)) simp
  have rest: "succeeds (\<lambda>w. view w = u) (for_each owned f)"
    if "u = v \<or> u = drop_ids K {ob_ID ob} v" for u
  proof (rule Cons.IH)
    show "\<forall>o' \<in> set owned. k_get K u (ob_ID o') \<noteq> None"
    proof
      fix o'
      assume o': "o' \<in> set owned"
      then have "ob_ID o' \<in> ob_ID ` set owned" by (rule imageI)
      then have "ob_ID o' \<noteq> ob_ID ob" using Cons.prems(2) by auto
      moreover have "k_get K v (ob_ID o') \<noteq> None" using Cons.prems(3) o' by simp
      ultimately show "k_get K u (ob_ID o') \<noteq> None" using that by (auto simp: drop_ids_get[OF kind] restrict_map_def)
    qed
    show "distinct (map ob_ID owned)" using Cons.prems(2) by simp
    show "f ob' = (if P ob' then delete_id client (ob_ID ob') else ret ())" if "ob' \<in> set owned" for ob'
      by (rule Cons.prems(1)) (simp add: that)
  qed
  have del: "succeeds (\<lambda>w. view w = v) (delete_id client (ob_ID ob))"
    unfolding delete_id_eq
    by (intro succeeds_rules succeeds_weaken[OF answersD(4)[OF ans]]) (use Cons.prems(3) in simp)
  have "triple (\<lambda>w. view w = v) (f ob) (\<lambda>_ w. view w = v \<or> view w = drop_ids K {ob_ID ob} v) (\<lambda>_ _. False)"
  proof (cases "P ob")
    case True
    show ?thesis unfolding f if_P[OF True] by (rule triple_post[OF succeeds_post[OF del delete_id_triple[OF law]]]) simp_all
  next
    case False
    show ?thesis unfolding f if_not_P[OF False] by (rule triple_ret) simp
  qed
  then show ?case
    unfolding for_each.simps succeeds_def
    by (rule triple_bind) (rule triple_disj; rule rest[unfolded succeeds_def]; simp)
qed

lemma list_owned_distinct:
  assumes "answers view K (ep client)"
  shows "triple P (list_owned client slug k) (\<lambda>owned _. distinct (map ob_ID owned)) (\<lambda>_ _. False)"
  unfolding list_owned_eq
proof (rule triple_bind[where R = "\<lambda>pg _. distinct (map ob_ID (pg_Results pg))"])
  show "triple P (wrap_err f (ep_list (ep client) p)) (\<lambda>pg _. distinct (map ob_ID (pg_Results pg))) (\<lambda>_ _. False)" for f p
    by (rule triple_wrap_err, rule triple_weaken[OF answersD(1)[OF assms]]) simp_all
qed (rule triple_ret, erule distinct_map_filter)

lemma prune_succeeds:
  assumes law: "lawful_ep psize view K (ep client)" and ans: "answers view K (ep client)"
  shows "succeeds P (bind (list_owned client slug k) (\<lambda>owned. for_each owned (\<lambda>ob.
       bind (assertExternalID (ob_CustomFields ob)) (\<lambda>x.
       if x \<in> set desired then ret () else delete_id client (ob_ID ob)))))"
proof -
  have "succeeds (\<lambda>w. view w = v) (bind (list_owned client slug k) (\<lambda>owned. for_each owned (\<lambda>ob.
       bind (assertExternalID (ob_CustomFields ob)) (\<lambda>x.
       if x \<in> set desired then ret () else delete_id client (ob_ID ob)))))" for v
  proof (rule succeeds_bind_post)
    show "triple (\<lambda>w. view w = v) (list_owned client slug k)
        (\<lambda>owned w. (owned_listing psize slug (owner_prefix k) v owned \<and> view w = v) \<and> distinct (map ob_ID owned)) (\<lambda>_ _. False)"
      by (rule triple_weaken[OF triple_conj[OF list_owned_triple[OF law] list_owned_distinct[OF ans]]]) simp_all
    show "succeeds (\<lambda>w. view w = v) (list_owned client slug k)"
      unfolding list_owned_eq by (intro succeeds_rules list_succeeds[OF ans])
    fix owned
    show "succeeds (\<lambda>w. (owned_listing psize slug (owner_prefix k) v owned \<and> view w = v) \<and> distinct (map ob_ID owned))
       (for_each owned (\<lambda>ob. bind (assertExternalID (ob_CustomFields ob)) (\<lambda>x.
          if x \<in> set desired then ret () else delete_id client (ob_ID ob))))"
    proof (cases "owned_listing psize slug (owner_prefix k) v owned \<and> distinct (map ob_ID owned)")
      case True
      note listed = owned_listingD(1)[OF conjunct1[OF True]]
      let ?stale = "\<lambda>ob. the (readExternalID (ob_CustomFields ob)) \<notin> set desired"
      have "succeeds (\<lambda>w. view w = v) (for_each owned (\<lambda>ob. bind (assertExternalID (ob_CustomFields ob)) (\<lambda>x.
          if x \<in> set desired then ret () else delete_id client (ob_ID ob))))"
      proof (rule drop_loop_succeeds[OF law ans, where P = ?stale])
        fix ob
        assume "ob \<in> set owned"
        then obtain x where "readExternalID (ob_CustomFields ob) = Some x" using listed by blast
        then show "bind (assertExternalID (ob_CustomFields ob)) (\<lambda>x.
            if x \<in> set desired then ret () else delete_id client (ob_ID ob)) =
            (if ?stale ob then delete_id client (ob_ID ob) else ret ())"
          by (simp add: assertExternalID_read)
      qed (use True listed in \<open>auto simp: ids_for_def\<close>)
      then show ?thesis by (rule succeeds_weaken) simp
    next
      case False
      then show ?thesis by (auto simp: succeeds_def triple_def)
    qed
  qed
  then show ?thesis by (simp add: succeeds_def triple_def)
qed

lemma delete_owned_succeeds:
  assumes law: "lawful_ep psize view K (ep client)" and ans: "answers view K (ep client)"
  shows "succeeds P (delete_owned client slug k)"
proof -
  have "succeeds (\<lambda>w. view w = v) (delete_owned client slug k)" for v
    unfolding delete_owned_eq
  proof (rule succeeds_bind_post)
    show "triple (\<lambda>w. view w = v) (list_owned client slug k)
        (\<lambda>owned w. (owned_listing psize slug (owner_prefix k) v owned \<and> view w = v) \<and> distinct (map ob_ID owned)) (\<lambda>_ _. False)"
      by (rule triple_weaken[OF triple_conj[OF list_owned_triple[OF law] list_owned_distinct[OF ans]]]) simp_all
    show "succeeds (\<lambda>w. view w = v) (list_owned client slug k)"
      unfolding list_owned_eq by (intro succeeds_rules list_succeeds[OF ans])
    fix owned
    have "succeeds (\<lambda>w. view w = v) (for_each owned (\<lambda>ob. delete_id client (ob_ID ob)))"
      if "owned_listing psize slug (owner_prefix k) v owned" "distinct (map ob_ID owned)"
    proof (rule drop_loop_succeeds[OF law ans, where P = "\<lambda>_. True"])
      show "\<forall>ob \<in> set owned. k_get K v (ob_ID ob) \<noteq> None"
        using owned_listingD(1)[OF that(1)] by (force simp: ids_for_def)
    qed (simp_all add: that)
    then show "succeeds (\<lambda>w. (owned_listing psize slug (owner_prefix k) v owned \<and> view w = v) \<and> distinct (map ob_ID owned))
       (for_each owned (\<lambda>ob. delete_id client (ob_ID ob)))"
      by (auto simp: succeeds_def triple_def)
  qed
  then show ?thesis by (simp add: succeeds_def triple_def)
qed

end

text \<open>A reference object is found if there is one of the name, on the page of the listing.\<close>

context name_lookup
begin

lemma lookup_found:
  assumes law: "lawful_names view ids fits oid oname params (lst client)"
    and ans: "\<And>p. succeeds (\<lambda>_. True) (lst client p)" and there: "fits v n" "ids v n \<noteq> {}"
  shows "triple (\<lambda>w. view w = v) (lookup client n) (\<lambda>i w. view w = v \<and> i \<in> ids v n) (\<lambda>_ _. False)"
proof -
  have list: "triple (\<lambda>w. view w = v) (lst client (params n)) (\<lambda>pg w. view w = v \<and>
      (\<forall>ob \<in> set (pg_Results pg). oname ob = Some n \<longrightarrow> oid ob \<in> ids v n) \<and>
      (\<exists>ob \<in> set (pg_Results pg). oname ob = Some n)) (\<lambda>_ _. False)"
    by (rule triple_weaken[OF succeeds_post[OF succeeds_weaken[OF ans] law[unfolded lawful_names_def, rule_format]]])
      (use there in auto)
  show ?thesis
    unfolding lookup_eq
    by (rule triple_bind[OF triple_wrap_err[OF list]])
      (auto split: option.splits intro!: triple_ret triple_fail dest!: find_Some_set simp: find_None_all)
qed

end

section \<open>Syncing\<close>

definition tags_answer :: "'w netbox_api \<Rightarrow> bool" where
  "tags_answer api \<longleftrightarrow> (\<forall>p. succeeds (\<lambda>_. True) (ExtrasTagsList api p)) \<and> (\<forall>d. succeeds (\<lambda>_. True) (ExtrasTagsCreate api d))"

lemma EnsureManagedTag_succeeds:
  assumes "tags_answer api"
  shows "succeeds (\<lambda>_. True) (EnsureManagedTag api slug)"
proof -
  have "succeeds (\<lambda>_. True) (ExtrasTagsList api p)" "succeeds (\<lambda>_. True) (ExtrasTagsCreate api d)" for p d
    using assms by (simp_all add: tags_answer_def)
  then show ?thesis
    unfolding EnsureManagedTag_def
    by (intro succeeds_rules) (auto intro!: succeeds_rules split: option.split)
qed

context ensure_and_prune
begin

lemma sync_succeeds:
  assumes law: "lawful psize view client" and ans: "answers view K (ep client)" and tags: "tags_answer client"
    and ens: "\<And>tag :: tag. tg_Slug tag = Some slug \<Longrightarrow> succeeds (\<lambda>_. True) (ensure_desired client tag s)"
  shows "succeeds (\<lambda>w. view w = v) (sync client slug s)"
  unfolding sync_eq
proof (rule succeeds_bind_post)
  have "lawful_tags view client" using law by (simp add: lawful_def)
  from EnsureManagedTag_triple[OF this, of v slug]
  show "triple (\<lambda>w. view w = v) (EnsureManagedTag client slug) (\<lambda>t _. tg_Slug t = Some slug) (\<lambda>_ _. True)"
    by (rule triple_post) simp_all
  show "succeeds (\<lambda>w. view w = v) (EnsureManagedTag client slug)"
    by (rule succeeds_weaken[OF EnsureManagedTag_succeeds[OF tags]]) simp
  fix tag :: tag
  show "succeeds (\<lambda>_. tg_Slug tag = Some slug) (bind (ensure_desired client tag s) (\<lambda>xs.
      bind (list_owned client slug (owner_of s)) (\<lambda>owned.
      for_each owned (\<lambda>ob. bind (assertExternalID (ob_CustomFields ob)) (\<lambda>x.
        if x \<in> set xs then ret () else delete_id client (ob_ID ob))))))"
  proof (cases "tg_Slug tag = Some slug")
    case True
    show ?thesis
      by (rule succeeds_bind[OF succeeds_weaken[OF ens[OF True]]] prune_succeeds[OF lawful_kind[OF law] ans] | rule TrueI)+
  next
    case False
    then show ?thesis by (simp add: succeeds_def triple_def)
  qed
qed

end

definition valid_ingress :: "service \<Rightarrow> bool" where
  "valid_ingress svc \<longleftrightarrow> (\<forall>ip \<in> set (svc_Ingress svc). ip = '''' \<or> (\<exists>c. cidrForIP ip = Inr c))"

lemma ensure_addresses_succeeds:
  assumes law: "lawful psize view api" and ans: "answers view ip_kind (IpamIPAddresses api)" and tag: "tg_Slug t = Some slug"
  shows "\<forall>ip \<in> set ips. ip = '''' \<or> (\<exists>c. cidrForIP ip = Inr c) \<Longrightarrow> succeeds (\<lambda>_. True) (ensure_addresses api t svc ips)"
proof (induction ips)
  case (Cons ip ips)
  have ep: "lawful_ep psize view ip_kind (IpamIPAddresses api)" using law by (simp add: lawful_def)
  have "succeeds P (EnsureServiceIP api \<lparr>is_Address = a, is_Description = d, is_ExternalID = x, is_ManagedTag = t\<rparr>)" for P a d x
    by (rule ip.ensure_succeeds[OF ep ans]) (simp_all add: tag triple_ret)
  with Cons show ?case by (auto simp: Let_def intro!: succeeds_rules)
qed (simp add: succeeds_ret)

lemma syncServiceAddresses_succeeds:
  assumes "lawful psize view api" and "answers view ip_kind (IpamIPAddresses api)" and "tags_answer api" and "valid_ingress svc"
  shows "\<exists>w'. syncServiceAddresses api slug svc w = (Ok (), w')"
proof -
  have "succeeds (\<lambda>u. view u = view w) (syncServiceAddresses api slug svc)"
    by (rule service_sync.sync_succeeds[OF assms(1-3) ensure_addresses_succeeds[OF assms(1,2)]])
      (use assms(4) in \<open>simp_all add: valid_ingress_def\<close>)
  from succeeds_run[OF this] show ?thesis by simp
qed

lemma ensure_prefixes_succeeds:
  assumes law: "lawful psize view api" and ans: "answers view prefix_kind (IpamPrefixes api)" and tag: "tg_Slug t = Some slug"
  shows "succeeds (\<lambda>_. True) (ensure_prefixes api t node cidrs)"
proof (induction cidrs)
  case (Cons cidr cidrs)
  have ep: "lawful_ep psize view prefix_kind (IpamPrefixes api)" using law by (simp add: lawful_def)
  have "succeeds P (EnsurePodCIDRPrefix api \<lparr>ps_CIDR = a, ps_Description = d, ps_ExternalID = x, ps_ManagedTag = t\<rparr>)" for P a d x
    by (rule pfx.ensure_succeeds[OF ep ans]) (simp_all add: tag triple_ret)
  with Cons show ?case by (auto simp: Let_def intro!: succeeds_rules)
qed (simp add: succeeds_ret)

lemma syncNodePrefixes_succeeds:
  assumes "lawful psize view api" and "answers view prefix_kind (IpamPrefixes api)" and "tags_answer api"
  shows "\<exists>w'. syncNodePrefixes api slug node w = (Ok (), w')"
proof -
  have "succeeds (\<lambda>u. view u = view w) (syncNodePrefixes api slug node)"
    by (rule prefix_sync.sync_succeeds[OF assms(1-3) ensure_prefixes_succeeds[OF assms(1,2)]])
  from succeeds_run[OF this] show ?thesis by simp
qed

lemma deleteStalePodCIDRAggregates_succeeds:
  assumes "lawful psize view api" and "answers view aggregate_kind (IpamAggregates api)"
  shows "\<exists>w'. deleteStalePodCIDRAggregates api slug w = (Ok (), w')"
proof -
  have ep: "lawful_ep psize view aggregate_kind (IpamAggregates api)" using assms(1) by (simp add: lawful_def)
  have "succeeds (\<lambda>_. True) (deleteStalePodCIDRAggregates api slug)"
    unfolding deleteStalePodCIDRAggregates_def podCIDRAddressFamilies_def for_each.simps
    by (intro succeeds_rules agg_delete.delete_ext_succeeds[OF ep assms(2)])
  from succeeds_run[OF this] show ?thesis by simp
qed

section \<open>In memory\<close>

context memory_table
begin

lemma answers_mem_ep: "answers view K (mem_ep psize K display get upd)"
proof -
  have "distinct (map ob_ID (pg_Results (mem_list psize K display (get w) p)))" for w p
  proof -
    let ?hits = "filter (\<lambda>(i, d). selects K p d) (rows 1 (get w))"
    have "map ob_ID (pg_Results (mem_list psize K display (get w) p)) = map fst (take (page_size psize p) ?hits)"
      by (simp add: mem_list_def Let_def display(2) case_prod_unfold)
    also have "\<dots> = take (page_size psize p) (map fst ?hits)" by (simp only: take_map)
    finally have "map ob_ID (pg_Results (mem_list psize K display (get w) p)) = take (page_size psize p) (map fst ?hits)" .
    moreover have "distinct (map fst ?hits)" by (rule distinct_map_filter[OF rows_distinct])
    ultimately show ?thesis by simp
  qed
  then show ?thesis by (auto simp: answers_def succeeds_def triple_def mem_ep_def view_get)
qed

end

lemma mem_answers:
  "answers mem_view ip_kind (IpamIPAddresses (mem_api psize))" "tags_answer (mem_api psize)"
  "answers mem_view prefix_kind (IpamPrefixes (mem_api psize))"
  "answers mem_view aggregate_kind (IpamAggregates (mem_api psize))"
  "answers mem_view device_kind (DcimDevices (mem_api psize))"
  "answers mem_view vm_kind (VirtualizationVirtualMachines (mem_api psize))"
proof -
  show "answers mem_view prefix_kind (IpamPrefixes (mem_api psize))"
    and "answers mem_view aggregate_kind (IpamAggregates (mem_api psize))"
    and "answers mem_view device_kind (DcimDevices (mem_api psize))"
    and "answers mem_view vm_kind (VirtualizationVirtualMachines (mem_api psize))"
    using mem_prefix.answers_mem_ep mem_aggregate.answers_mem_ep mem_device.answers_mem_ep mem_vm.answers_mem_ep
    by (simp_all add: mem_api_def)
  show "answers mem_view ip_kind (IpamIPAddresses (mem_api psize))"
    using mem_ip.answers_mem_ep by (simp add: mem_api_def)
  show "tags_answer (mem_api psize)"
    by (simp add: tags_answer_def succeeds_def triple_def mem_api_def mem_tags_def mem_tag_create_def)
qed

text \<open>Progress. On a NetBox that answers its calls, the reconcile of a LoadBalancer Service of an
  enabled type whose ingress addresses are all valid ends in a resync: it returns no error, asks
  to be run again after the resync interval, and has synced the Service's addresses. Only the
  reads of Kubernetes and the status update have to succeed besides.\<close>

theorem service_progress:
  assumes law: "lawful_world psize view env"
    and ans: "answers view ip_kind (IpamIPAddresses (Netbox env c))" and tags: "tags_answer (Netbox env c)"
    and spec: "sto_spec (w_store w) = Some spec" and client: "sto_client (w_store w) = Some c"
    and get: "GetService env (rq_Namespace req) (rq_Name req) w = (Ok svc, w1)"
    and on: "sv_Enabled (rc_Services (hs_Resources spec))" "svc_Type svc = ServiceTypeLoadBalancer" "valid_ingress svc"
    and status: "\<And>w2. syncServiceAddresses (Netbox env c) (resolveManagedTagSlug spec) svc w1 = (Ok (), w2) \<Longrightarrow>
      fst (syncServicesStatus env (resolveManagedTagSlug spec) spec None w2) = Ok ()"
  shows "\<exists>w'. reconcileService env req w = (Ok \<lparr>RequeueAfter = resolveResyncInterval spec\<rparr>, w') \<and>
    synced psize ip_kind (resolveManagedTagSlug spec) (serviceExternalIDPrefix (svc_Namespace svc) (svc_Name svc))
      (address_recorded svc) (desired_addresses svc) (view w) (view w')"
proof -
  note api = lawful_worldD(2)[OF law]
  obtain w2 where sync: "syncServiceAddresses (Netbox env c) (resolveManagedTagSlug spec) svc w1 = (Ok (), w2)"
    using syncServiceAddresses_succeeds[OF api ans tags on(3)] by blast
  note st = run_split[OF status[OF sync]]
  let ?w3 = "snd (syncServicesStatus env (resolveManagedTagSlug spec) spec None w2)"
  have "reconcileService env req w = (Ok \<lparr>RequeueAfter = resolveResyncInterval spec\<rparr>, ?w3)"
    by (simp add: reconcileService_def bind_StoreGet spec client Let_def if_err_apply(1)[where m = "GetService _ _ _", OF get]
      on if_err_apply(1)[where m = "syncServiceAddresses _ _ _", OF sync] bind_apply(1)[where m = "syncServicesStatus _ _ _ _", OF st] ret_apply)
  moreover have "synced psize ip_kind (resolveManagedTagSlug spec) (serviceExternalIDPrefix (svc_Namespace svc) (svc_Name svc))
      (address_recorded svc) (desired_addresses svc) (view w) (view w2)"
    using triple_OkD[OF service_sync.sync_triple[OF api] refl sync] kube_reads(2)[OF law get] by simp
  moreover have "view ?w3 = view w2" by (rule keeps_view[OF status_reads(2)[OF law] st])
  ultimately show ?thesis by simp
qed

lemma mem_status:
  assumes "k_config w \<noteq> None"
  shows "fst (syncServicesStatus (mem_env psize) slug spec None w) = Ok ()"
  using assms
  by (auto simp: syncServicesStatus_def sync_status_def CountManagedServiceIPs_def mem_env_def existing_def mem_update_status_def
    mem_api_def mem_ep_def mem_list_def bind_def if_err_def wrap_err_def attempt_def ret_def fail_def StoreGet_def Let_def
    split: option.split)

text \<open>NetBox has no say in the store, in Kubernetes and in its own reference objects.\<close>

lemma mem_keeps_rest:
  "api_keeps (\<lambda>w. P (w_store w) (k_config w) (k_nodes w) (k_services w) (m_refs w)) (mem_api psize)"
proof -
  let ?I = "\<lambda>w. P (w_store w) (k_config w) (k_nodes w) (k_services w) (m_refs w)"
  have ep: "ep_keeps ?I (mem_ep psize K display get upd)"
    if "\<And>f w. ?I (upd f w) = ?I w" for K display get upd
    using that by (simp add: ep_keeps_def mem_ep_def keeps_def triple_def)
  show ?thesis
    unfolding api_keeps_def
    by (intro conjI allI)
      (simp_all add: mem_api_def ep keeps_ret, simp_all add: keeps_def triple_def mem_tags_def
        mem_tag_create_def mem_fields_def mem_field_create_def mem_refs_def mem_device_types_def display_tag_def)
qed

lemma mem_keeps_kube: "api_keeps (\<lambda>w. P (k_config w) (k_nodes w)) (mem_api psize)"
  by (rule mem_keeps_rest)

theorem service_progress_witness:
  "\<exists>w'. reconcileService (mem_env 50) \<lparr>rq_Namespace = ''ns'', rq_Name = ''web''\<rparr> live_world =
     (Ok \<lparr>RequeueAfter = 60000000000\<rparr>, w')"
proof -
  have get: "GetService (mem_env 50) (rq_Namespace \<lparr>rq_Namespace = ''ns'', rq_Name = ''web''\<rparr>)
      (rq_Name \<lparr>rq_Namespace = ''ns'', rq_Name = ''web''\<rparr>) live_world = (Ok demo_service, live_world)"
    by (simp add: mem_env_def existing_def live_world_def demo_service_def)
  have on: "sv_Enabled (rc_Services (hs_Resources demo_spec))" "svc_Type demo_service = ServiceTypeLoadBalancer"
    "valid_ingress demo_service"
    by (simp_all add: demo_spec_parts demo_service_def valid_ingress_def demo_service_cidr)
  have api: "Netbox (mem_env 50) demo_client = mem_api 50" by (simp add: mem_env_def)
  have status: "fst (syncServicesStatus (mem_env 50) demo_slug demo_spec None w2) = Ok ()"
    if "syncServiceAddresses (mem_api 50) demo_slug demo_service live_world = (Ok (), w2)" for w2
  proof (rule mem_status)
    have "k_config live_world \<noteq> None" by (simp add: live_world_def)
    then show "k_config w2 \<noteq> None"
      using triple_OkD[OF keepsD[OF package_keepsD(12)[OF api_package_keeps[OF mem_keeps_kube[where P = "\<lambda>c _. c \<noteq> None"]]]] _ that] by simp
  qed
  from service_progress[OF lawful_mem_env _ _ live_store get on, unfolded api demo_slug_resolved, OF mem_answers(1,2) status]
  show ?thesis by (auto simp: demo_interval)
qed

text \<open>Progress of the pod CIDRs. On a NetBox that answers its calls, the reconcile for a Node with
  pod CIDRs, with the prefix representation enabled, ends in a resync: it returns no error,
  asks to be run again after the resync interval, and has brought NetBox in line with the Node.
  Only the reads of Kubernetes and the status update have to succeed besides.\<close>

theorem podcidr_progress:
  assumes law: "lawful_world psize view env" and tags: "tags_answer (Netbox env c)"
    and ans: "answers view prefix_kind (IpamPrefixes (Netbox env c))" "answers view aggregate_kind (IpamAggregates (Netbox env c))"
    and spec: "sto_spec (w_store w) = Some spec" and client: "sto_client (w_store w) = Some c"
    and get: "\<And>w1. deleteStalePodCIDRAggregates (Netbox env c) (resolveManagedTagSlug spec) w = (Ok (), w1) \<Longrightarrow>
      \<exists>w2. GetNode env (rq_Name req) w1 = (Ok node, w2)"
    and on: "pc_Enabled (rc_PodCIDRs (hs_Resources spec))" "nod_PodCIDRs node \<noteq> []"
      "pc_Representation (rc_PodCIDRs (hs_Resources spec)) \<noteq> PodCIDRRepresentationAggregate"
    and status: "\<And>w1 w2 w3. \<lbrakk>deleteStalePodCIDRAggregates (Netbox env c) (resolveManagedTagSlug spec) w = (Ok (), w1);
        GetNode env (rq_Name req) w1 = (Ok node, w2);
        syncNodePrefixes (Netbox env c) (resolveManagedTagSlug spec) node w2 = (Ok (), w3)\<rbrakk> \<Longrightarrow>
      fst (syncPodCIDRStatus env (resolveManagedTagSlug spec) spec None w3) = Ok ()"
  shows "\<exists>w'. reconcilePodCIDR env req w = (Ok \<lparr>RequeueAfter = resolveResyncInterval spec\<rparr>, w') \<and>
    prefixes_reconciled psize spec node (view w) (view w')"
proof -
  note api = lawful_worldD(2)[OF law]
  let ?slug = "resolveManagedTagSlug spec"
  obtain w1 where stale: "deleteStalePodCIDRAggregates (Netbox env c) ?slug w = (Ok (), w1)"
    using deleteStalePodCIDRAggregates_succeeds[OF api ans(2)] by blast
  obtain w2 where node: "GetNode env (rq_Name req) w1 = (Ok node, w2)" using get[OF stale] by blast
  obtain w3 where sync: "syncNodePrefixes (Netbox env c) ?slug node w2 = (Ok (), w3)"
    using syncNodePrefixes_succeeds[OF api ans(1) tags] by blast
  note st = run_split[OF status[OF stale node sync]]
  let ?w4 = "snd (syncPodCIDRStatus env ?slug spec None w3)"
  have run: "reconcilePodCIDR env req w = (Ok \<lparr>RequeueAfter = resolveResyncInterval spec\<rparr>, ?w4)"
    by (simp add: reconcilePodCIDR_def bind_StoreGet spec client Let_def on reconcilePrefixForNode_def
      if_err_apply(1)[where m = "deleteStalePodCIDRAggregates _ _", OF stale] if_err_apply(1)[where m = "GetNode _ _", OF node]
      if_err_apply(1)[where m = "syncNodePrefixes _ _ _", OF sync] bind_apply(1)[where m = "syncPodCIDRStatus _ _ _ _", OF st] ret_apply)
  have ag: "aggregates_dropped psize ?slug (view w) (view w2)"
    using delete_aggregates_run[OF api stale[unfolded deleteStalePodCIDRAggregates_def]] kube_reads(1)[OF law node] by simp
  have "prefixes_reconciled psize spec node (view w) (view w3)"
    by (rule prefixes_run[OF api ag _ _ refl]) (use on(1,2) sync in simp_all)
  moreover have "view ?w4 = view w3" by (rule keeps_view[OF status_reads(3)[OF law] st])
  ultimately show ?thesis using run by simp
qed

lemma mem_podcidr_status:
  assumes "k_config w \<noteq> None"
  shows "fst (syncPodCIDRStatus (mem_env psize) slug spec None w) = Ok ()"
  using assms
  by (auto simp: syncPodCIDRStatus_def sync_status_def CountManagedPrefixes_def CountManagedAggregates_def mem_env_def existing_def
    mem_update_status_def mem_api_def mem_ep_def mem_list_def bind_def if_err_def wrap_err_def attempt_def ret_def fail_def
    StoreGet_def Let_def split: option.split)

theorem podcidr_progress_witness:
  "\<exists>w'. reconcilePodCIDR (mem_env 50) \<lparr>rq_Namespace = [], rq_Name = ''node-1''\<rparr> live_world =
     (Ok \<lparr>RequeueAfter = 60000000000\<rparr>, w') \<and> prefixes_reconciled 50 demo_spec demo_node (mem_view live_world) (mem_view w')"
proof -
  let ?I = "\<lambda>w. k_config w \<noteq> None \<and> List.find (\<lambda>x. nod_Name x = ''node-1'') (k_nodes w) = Some demo_node"
  have live: "?I live_world" by (simp add: live_world_def demo_node_def)
  have keeps: "api_keeps ?I (mem_api 50)"
    by (rule mem_keeps_kube[where P = "\<lambda>c ns. c \<noteq> None \<and> List.find (\<lambda>x. nod_Name x = ''node-1'') ns = Some demo_node"])
  have drops: "keeps ?I (deleteStalePodCIDRAggregates (mem_api 50) demo_slug)"
    unfolding deleteStalePodCIDRAggregates_def by (intro keeps_for_each package_keepsD(19)[OF api_package_keeps[OF keeps]])
  note stale = keeps_OkD[where w = live_world, OF drops live]
  have get: "GetNode (mem_env 50) ''node-1'' w1 = (Ok demo_node, w1)" if "?I w1" for w1
    using that by (simp add: mem_env_def existing_def)
  note sync = keeps_OkD[OF package_keepsD(15)[OF api_package_keeps[OF keeps]]]
  have api: "Netbox (mem_env 50) demo_client = mem_api 50" by (simp add: mem_env_def)
  have "\<exists>w'. reconcilePodCIDR (mem_env 50) \<lparr>rq_Namespace = [], rq_Name = ''node-1''\<rparr> live_world =
      (Ok \<lparr>RequeueAfter = resolveResyncInterval demo_spec\<rparr>, w') \<and>
      prefixes_reconciled 50 demo_spec demo_node (mem_view live_world) (mem_view w')"
  proof (rule podcidr_progress[OF lawful_mem_env _ _ _ live_store])
    fix w1
    assume "deleteStalePodCIDRAggregates (Netbox (mem_env 50) demo_client) (resolveManagedTagSlug demo_spec) live_world = (Ok (), w1)"
    then show "\<exists>w2. GetNode (mem_env 50) (rq_Name \<lparr>rq_Namespace = [], rq_Name = ''node-1''\<rparr>) w1 = (Ok demo_node, w2)"
      using get[OF stale] by (simp add: api demo_slug_resolved)
  next
    fix w1 w2 w3
    assume "deleteStalePodCIDRAggregates (Netbox (mem_env 50) demo_client) (resolveManagedTagSlug demo_spec) live_world = (Ok (), w1)"
      and "GetNode (mem_env 50) (rq_Name \<lparr>rq_Namespace = [], rq_Name = ''node-1''\<rparr>) w1 = (Ok demo_node, w2)"
      and "syncNodePrefixes (Netbox (mem_env 50) demo_client) (resolveManagedTagSlug demo_spec) demo_node w2 = (Ok (), w3)"
    then have st: "?I w1" and "w2 = w1" and run: "syncNodePrefixes (mem_api 50) demo_slug demo_node w1 = (Ok (), w3)"
      using stale get by (auto simp: api demo_slug_resolved)
    have "?I w3" by (rule sync[OF st run])
    then show "fst (syncPodCIDRStatus (mem_env 50) (resolveManagedTagSlug demo_spec) demo_spec None w3) = Ok ()"
      by (intro mem_podcidr_status) simp
  qed (simp_all add: api mem_answers demo_spec_parts demo_node_def PodCIDRRepresentationPrefix_def PodCIDRRepresentationAggregate_def)
  then show ?thesis by (simp add: demo_interval)
qed

end
