(* ===== verification/Connection_Properties.thy ===== *)
theory Connection_Properties
  imports Controller_Properties
begin

text \<open>
  The connection to NetBox: how the spec and its Secrets become a client, which NetBox versions
  are accepted, and what a reconcile of the HeraldConfig leaves in the store.
\<close>

section \<open>The store after a reconcile\<close>

lemma keeps_conj: "keeps I m \<Longrightarrow> keeps J m \<Longrightarrow> keeps (\<lambda>w. I w \<and> J w) m"
  unfolding keeps_def by (drule (1) triple_conj) simp

lemma kube_keeps_conj: "kube_keeps I env \<Longrightarrow> kube_keeps J env \<Longrightarrow> kube_keeps (\<lambda>w. I w \<and> J w) env"
  by (simp add: kube_keeps_def keeps_conj)

lemma keeps_at:
  assumes "keeps I m" and "\<And>w. P w \<Longrightarrow> I w"
  shows "triple P m (\<lambda>_. I) (\<lambda>_. I)"
  by (rule triple_weaken[OF keepsD[OF assms(1)]]) (use assms(2) in auto)

lemma triple_result:
  assumes "triple P m Q E"
  shows "triple P m (\<lambda>x w. (\<exists>u. P u \<and> fst (m u) = Ok x) \<and> Q x w) E"
  by (rule tripleI) (use assms in \<open>force dest: triple_OkD triple_ErrD triple_PanicD\<close>)+

lemma triple_views: "(\<And>v. triple (\<lambda>w. view w = v) m Q E) \<Longrightarrow> triple P m Q E"
  by (simp add: triple_def)

lemma triple_states: "(\<And>u. P u \<Longrightarrow> triple (\<lambda>w. w = u) m Q E) \<Longrightarrow> triple P m Q E"
  by (simp add: triple_def)

lemma triple_view_in: "(\<And>v. F v \<Longrightarrow> triple (\<lambda>w. view w = v) m Q E) \<Longrightarrow> triple (\<lambda>w. F (view w)) m Q E"
  by (simp add: triple_def)

text \<open>\<open>held s v\<close>: the store is \<open>s\<close> and NetBox is as \<open>v\<close>. No external read or status update changes either.\<close>

definition held :: "('x world_scheme \<Rightarrow> nb_view) \<Rightarrow> store \<Rightarrow> nb_view \<Rightarrow> 'x world_scheme \<Rightarrow> bool" where
  "held view s v w \<longleftrightarrow> w_store w = s \<and> view w = v"

definition keeps_store :: "('x, 'v) env \<Rightarrow> bool" where
  "keeps_store env \<longleftrightarrow> (\<forall>s. externals_keep (\<lambda>w. w_store w = s) env)"

lemma kube_held:
  assumes "lawful_world psize view env" and "keeps_store env"
  shows "kube_keeps (held view s v) env"
proof -
  have "kube_keeps (\<lambda>w. w_store w = s) env" using assms(2) by (simp add: keeps_store_def externals_keep_def)
  from kube_keeps_conj[OF this lawful_worldD(1)[OF assms(1)]] show ?thesis by (simp add: held_def[abs_def])
qed

lemma reportUnreachable_triple:
  assumes law: "lawful_world psize view env" and st: "keeps_store env"
  shows "triple (\<lambda>w. view w = v) (reportUnreachable env cr cause) (\<lambda>_ _. False) (\<lambda>_. held view NewStore v)"
proof -
  have set_store: "view (w\<lparr>w_store := s\<rparr>) = view w" for w s using law unfolding lawful_world_def by blast
  note k = kube_held[OF law st, of NewStore v]
  show ?thesis
    unfolding reportUnreachable_def Let_def
    apply (rule triple_bind[where R = "\<lambda>_. held view NewStore v"])
     apply (rule triple_StoreSet)
     apply (simp add: held_def NewStore_def set_store)
    apply (rule triple_bind[OF keepsD[OF kube_keepsD(10)[OF k]]])
    apply (rule triple_bind[OF keepsD[OF kube_keepsD(9)[OF k]]])
    apply (rule triple_bind[OF keepsD[OF kube_keepsD(9)[OF k]]])
    apply (rule triple_bind[OF keepsD[OF keeps_attempt[OF kube_keepsD(8)[OF k]]]])
    apply (rule triple_fail)
    apply assumption
    done
qed

lemma reportUnreachable_fails:
  assumes law: "lawful_world psize view env" and st: "keeps_store env"
  shows "triple P (reportUnreachable env cr cause) (\<lambda>_ _. False) (\<lambda>_ w. w_store w = NewStore)"
proof (rule triple_views[where view = view])
  fix v
  show "triple (\<lambda>w. view w = v) (reportUnreachable env cr cause) (\<lambda>_ _. False) (\<lambda>_ w. w_store w = NewStore)"
    by (rule triple_post[OF reportUnreachable_triple[OF law st]]) (simp_all add: held_def)
qed

text \<open>The spec of some answer to a status update.\<close>

definition answered :: "('x, 'v) env \<Rightarrow> HeraldConfigSpec \<Rightarrow> bool" where
  "answered env sp \<longleftrightarrow> (\<exists>cr w decoded. fst (UpdateStatus env cr w) = Ok decoded \<and> sp = hc_Spec decoded)"

lemma UpdateStatus_triple:
  assumes "kube_keeps I env"
  shows "triple I (UpdateStatus env cr) (\<lambda>decoded w. answered env (hc_Spec decoded) \<and> I w) (\<lambda>_. I)"
  by (rule triple_post[OF triple_result[OF keepsD[OF kube_keepsD(8)[OF assms]]]]) (auto simp: answered_def)

lemma reportConnected_triple:
  assumes law: "lawful_world psize view env" and st: "keeps_store env"
  shows "triple (held view \<lparr>sto_spec = Some sp, sto_client = Some c\<rparr> v) (reportConnected env cr version)
    (\<lambda>_ w. \<exists>sp'. answered env sp' \<and> held view \<lparr>sto_spec = Some sp', sto_client = Some c\<rparr> v w) (\<lambda>_. held view \<lparr>sto_spec = Some sp, sto_client = Some c\<rparr> v)"
proof -
  have set_store: "view (w\<lparr>w_store := s\<rparr>) = view w" for w s using law unfolding lawful_world_def by blast
  note k = kube_held[OF law st, of "\<lparr>sto_spec = Some sp, sto_client = Some c\<rparr>" v]
  show ?thesis
    unfolding reportConnected_def Let_def
    apply (rule triple_bind[OF keepsD[OF kube_keepsD(10)[OF k]]])
    apply (rule triple_bind[OF keepsD[OF kube_keepsD(9)[OF k]]])
    apply (rule triple_bind[OF keepsD[OF kube_keepsD(9)[OF k]]])
    apply (rule triple_bind[OF UpdateStatus_triple[OF k]])
    apply (rule triple_StoreDecoded)
    apply (simp add: held_def set_store)
    done
qed

text \<open>The client a spec gives with the Secrets of the world \<open>w\<close>, of a NetBox that passed the version
  check if there is one; and a NetBox ready for Herald.\<close>

definition connects :: "('x, 'v) env \<Rightarrow> HeraldConfigSpec \<Rightarrow> 'x world_scheme \<Rightarrow> netbox_client \<Rightarrow> bool" where
  "connects env spec w c \<longleftrightarrow> (\<exists>cfg. fst (LoadConfig (GetSecret env) (OperatorNamespace env) (hs_NetBox spec) w) = Ok cfg \<and>
     fst (Client (Libs env) cfg w) = Ok c) \<and>
     (vc_Enabled (nc_VersionCheck (hs_NetBox spec)) \<longrightarrow>
        (\<exists>w version. fst (CheckVersion (Libs env) (Netbox env c) w) = Ok (version, None)))"

definition bootstrapped :: "string \<Rightarrow> nb_view \<Rightarrow> nb_view \<Rightarrow> bool" where
  "bootstrapped slug v v' \<longleftrightarrow> tag_present slug v' \<and> field_present v' \<and> (\<exists>u. tag_ensured slug v u \<and> field_ensured u v')"

definition published :: "('x, 'v) env \<Rightarrow> ('x world_scheme \<Rightarrow> nb_view) \<Rightarrow> nb_view \<Rightarrow> HeraldConfigSpec \<Rightarrow>
    'x world_scheme \<Rightarrow> (HeraldConfigSpec \<Rightarrow> bool) \<Rightarrow> 'x world_scheme \<Rightarrow> bool" where
  "published env view v spec w1 P w \<longleftrightarrow> (\<exists>sp c. P sp \<and> connects env spec w1 c \<and>
     w_store w = \<lparr>sto_spec = Some sp, sto_client = Some c\<rparr> \<and> bootstrapped (resolveManagedTagSlug spec) v (view w))"

lemma bootstrap_triple:
  assumes law: "lawful_world psize view env" and st: "keeps_store env" and spec: "spec = hc_Spec cr"
    and con: "connects env spec w1 c" and slug: "slug = resolveManagedTagSlug spec"
  shows "triple (\<lambda>w. view w = v)
    (if_err (EnsureManagedTag (Netbox env c) slug) (reportUnreachable env cr) (\<lambda>_.
     if_err (EnsureExternalIDCustomField (Netbox env c)) (reportUnreachable env cr) (\<lambda>_.
     bind (StoreSet (Some spec) (Some c)) (\<lambda>_.
     bind (reportConnected env cr version) (\<lambda>_. ret \<lparr>RequeueAfter = interval\<rparr>)))))
    (\<lambda>r w. r = \<lparr>RequeueAfter = interval\<rparr> \<and> published env view v spec w1 (answered env) w)
    (\<lambda>_ w. w_store w = NewStore \<or> published env view v spec w1 (\<lambda>sp. sp = spec) w)"
proof -
  have api: "lawful_tags view (Netbox env c)" "lawful_fields view (Netbox env c)"
    using lawful_worldD(2)[OF law, of c] by (simp_all add: lawful_def)
  have set_store: "view (w\<lparr>w_store := s\<rparr>) = view w" for w s using law unfolding lawful_world_def by blast
  have failed: "triple P (reportUnreachable env cr e) Q
      (\<lambda>_ w. w_store w = NewStore \<or> published env view v spec w1 (\<lambda>sp. sp = spec) w)" for e P and Q :: "result \<Rightarrow> 'a world_scheme \<Rightarrow> bool"
    by (rule triple_post[OF reportUnreachable_fails[OF law st]]) simp_all
  have pub: "published env view v spec w1 P w"
    if "held view \<lparr>sto_spec = Some sp, sto_client = Some c\<rparr> u w" "P sp" "bootstrapped slug v u" for P sp u w
    using that con slug unfolding published_def held_def by auto
  have field: "triple (\<lambda>w. view w = u) (EnsureExternalIDCustomField (Netbox env c))
      (\<lambda>_ w. bootstrapped slug v (view w)) (\<lambda>_ _. True)" if "tag_ensured slug v u" "tag_present slug u" for u
  proof (rule triple_post[OF EnsureExternalIDCustomField_triple[OF api(2)]])
    fix w
    assume f: "field_ensured u (view w) \<and> field_present (view w)"
    then have "v_tags (view w) = v_tags u" by (auto simp: field_ensured_def)
    with f that show "bootstrapped slug v (view w)" unfolding bootstrapped_def tag_present_def by auto
  qed simp
  have publish: "triple (\<lambda>w. bootstrapped slug v (view w))
      (bind (StoreSet (Some spec) (Some c)) (\<lambda>_.
       bind (reportConnected env cr version) (\<lambda>_. ret \<lparr>RequeueAfter = interval\<rparr>)))
      (\<lambda>r w. r = \<lparr>RequeueAfter = interval\<rparr> \<and> published env view v spec w1 (answered env) w)
      (\<lambda>_ w. published env view v spec w1 (\<lambda>sp. sp = spec) w)"
  proof (rule triple_view_in[where view = view and F = "bootstrapped slug v"])
    fix u
    assume u: "bootstrapped slug v u"
    let ?s = "\<lparr>sto_spec = Some spec, sto_client = Some c\<rparr>"
    have "triple (\<lambda>w. view w = u) (StoreSet (Some spec) (Some c)) (\<lambda>_. held view ?s u) E" for E
      by (rule triple_StoreSet) (simp add: held_def set_store)
    moreover have "triple (held view ?s u) (bind (reportConnected env cr version) (\<lambda>_. ret \<lparr>RequeueAfter = interval\<rparr>))
        (\<lambda>r w. r = \<lparr>RequeueAfter = interval\<rparr> \<and> published env view v spec w1 (answered env) w)
        (\<lambda>_ w. published env view v spec w1 (\<lambda>sp. sp = spec) w)"
      by (rule triple_bind[OF triple_post[OF reportConnected_triple[OF law st], where Q = "\<lambda>_. published env view v spec w1 (answered env)"]])
        (auto intro: pub u triple_ret)
    ultimately show "triple (\<lambda>w. view w = u)
      (bind (StoreSet (Some spec) (Some c)) (\<lambda>_.
       bind (reportConnected env cr version) (\<lambda>_. ret \<lparr>RequeueAfter = interval\<rparr>)))
      (\<lambda>r w. r = \<lparr>RequeueAfter = interval\<rparr> \<and> published env view v spec w1 (answered env) w)
      (\<lambda>_ w. published env view v spec w1 (\<lambda>sp. sp = spec) w)"
      by (rule triple_bind)
  qed
  have tagged: "triple (\<lambda>w. tg_Slug t = Some slug \<and> tag_ensured slug v (view w) \<and> tag_present slug (view w))
      (EnsureExternalIDCustomField (Netbox env c)) (\<lambda>_ w. bootstrapped slug v (view w)) (\<lambda>_ _. True)" for t
    by (rule triple_view_in[where view = view]) (use field in blast)
  show ?thesis
    by (rule triple_if_err[OF EnsureManagedTag_triple[OF api(1)] triple_if_err[OF tagged triple_post[OF publish] failed] failed]) simp_all
qed

lemma LoadConfig_reads: "kube_keeps I env \<Longrightarrow> keeps I (LoadConfig (GetSecret env) ns spec)"
  by (rule config_keeps) (rule kube_keepsD)

text \<open>The end of a reconcile, from the version check on.\<close>

definition checked_bootstrap :: "('x, 'v) env \<Rightarrow> HeraldConfig \<Rightarrow> netbox_client \<Rightarrow> ('x world_scheme, result) go" where
  "checked_bootstrap env cr c =
     bind (if vc_Enabled (nc_VersionCheck (hs_NetBox (hc_Spec cr)))
           then CheckVersion (Libs env) (Netbox env c) else ret ('''', None)) (\<lambda>(version, verr).
     case verr of
       Some err \<Rightarrow> reportUnreachable env cr err
     | None \<Rightarrow>
       if_err (EnsureManagedTag (Netbox env c) (resolveManagedTagSlug (hc_Spec cr))) (reportUnreachable env cr) (\<lambda>_.
       if_err (EnsureExternalIDCustomField (Netbox env c)) (reportUnreachable env cr) (\<lambda>_.
       bind (StoreSet (Some (hc_Spec cr)) (Some c)) (\<lambda>_.
       bind (reportConnected env cr version) (\<lambda>_. ret \<lparr>RequeueAfter = resolveResyncInterval (hc_Spec cr)\<rparr>)))))"

lemma reconcileHeraldConfig_eq:
  assumes "rq_Name req = singletonName"
  shows "reconcileHeraldConfig env req = if_err (GetHeraldConfig env singletonName)
    (\<lambda>e. if IsNotFound e then bind (StoreSet None None) (\<lambda>_. ret no_requeue) else fail e) (\<lambda>cr.
    if_err (LoadConfig (GetSecret env) (OperatorNamespace env) (hs_NetBox (hc_Spec cr)))
      (reportUnreachable env cr) (\<lambda>netboxCfg.
    if_err (Client (Libs env) netboxCfg) (reportUnreachable env cr) (checked_bootstrap env cr)))"
  using assms unfolding reconcileHeraldConfig_def checked_bootstrap_def Let_def by simp

lemma Client_triple:
  assumes "http_transports lib"
  shows "triple I (Client lib cfg) (\<lambda>c w. fst (Client lib cfg w1) = Ok c \<and> I w) (\<lambda>_. I)"
  by (rule tripleI)
    (use Client_no_panic[OF assms, of cfg] Client_pure(1)[of lib cfg] Client_pure(2)[of lib cfg _ w1] in \<open>metis fst_conv snd_conv\<close>)+

definition version_passed :: "('x, 'v) env \<Rightarrow> HeraldConfigSpec \<Rightarrow> netbox_client \<Rightarrow> bool" where
  "version_passed env spec c \<longleftrightarrow> (vc_Enabled (nc_VersionCheck (hs_NetBox spec)) \<longrightarrow>
     (\<exists>w version. fst (CheckVersion (Libs env) (Netbox env c) w) = Ok (version, None)))"

lemma CheckVersion_triple:
  assumes "keeps I (StatusList client)"
  shows "triple I (CheckVersion lib client)
    (\<lambda>x w. (\<exists>u. fst (CheckVersion lib client u) = Ok x) \<and> I w) (\<lambda>_ _. False)"
proof -
  have "triple I (CheckVersion lib client) (\<lambda>_. I) (\<lambda>_ _. False)"
    unfolding CheckVersion_def by (rule triple_if_err[OF keepsD[OF assms]]) (rule triple_ret, assumption)+
  from triple_result[OF this] show ?thesis by (rule triple_post) auto
qed

lemma version_triple:
  assumes law: "lawful_world psize view env"
  shows "triple (\<lambda>w. view w = v)
    (if vc_Enabled (nc_VersionCheck (hs_NetBox spec)) then CheckVersion (Libs env) (Netbox env c) else ret ('''', None))
    (\<lambda>(_, verr) w. view w = v \<and> (verr = None \<longrightarrow> version_passed env spec c)) E"
proof (cases "vc_Enabled (nc_VersionCheck (hs_NetBox spec))")
  case True
  have "keeps (\<lambda>w. view w = v) (StatusList (Netbox env c))"
    using lawful_worldD(2)[OF law, of c] by (simp add: lawful_def)
  from CheckVersion_triple[OF this, of "Libs env"] show ?thesis
    unfolding if_P[OF True] by (rule triple_post) (auto simp: version_passed_def)
qed (auto intro: triple_ret simp: version_passed_def)

lemma checked_bootstrap_triple:
  assumes law: "lawful_world psize view env" and st: "keeps_store env"
    and con: "version_passed env (hc_Spec cr) c \<Longrightarrow> connects env (hc_Spec cr) w1 c"
  shows "triple (\<lambda>w. view w = v) (checked_bootstrap env cr c)
    (\<lambda>r w. r = \<lparr>RequeueAfter = resolveResyncInterval (hc_Spec cr)\<rparr> \<and>
       published env view v (hc_Spec cr) w1 (answered env) w)
    (\<lambda>_ w. w_store w = NewStore \<or> published env view v (hc_Spec cr) w1 (\<lambda>sp. sp = hc_Spec cr) w)"
  unfolding checked_bootstrap_def
proof (rule triple_bind[OF version_triple[OF law]])
  fix x :: "string \<times> error option"
  show "triple ((\<lambda>(_, verr) w. view w = v \<and> (verr = None \<longrightarrow> version_passed env (hc_Spec cr) c)) x)
      (case x of (version, None) \<Rightarrow>
         if_err (EnsureManagedTag (Netbox env c) (resolveManagedTagSlug (hc_Spec cr))) (reportUnreachable env cr) (\<lambda>_.
         if_err (EnsureExternalIDCustomField (Netbox env c)) (reportUnreachable env cr) (\<lambda>_.
         bind (StoreSet (Some (hc_Spec cr)) (Some c)) (\<lambda>_.
         bind (reportConnected env cr version) (\<lambda>_. ret \<lparr>RequeueAfter = resolveResyncInterval (hc_Spec cr)\<rparr>))))
       | (version, Some err) \<Rightarrow> reportUnreachable env cr err)
      (\<lambda>r w. r = \<lparr>RequeueAfter = resolveResyncInterval (hc_Spec cr)\<rparr> \<and>
         published env view v (hc_Spec cr) w1 (answered env) w)
      (\<lambda>_ w. w_store w = NewStore \<or> published env view v (hc_Spec cr) w1 (\<lambda>sp. sp = hc_Spec cr) w)"
  proof (cases "snd x")
    case None
    have "triple (\<lambda>w. version_passed env (hc_Spec cr) c \<and> view w = v)
         (if_err (EnsureManagedTag (Netbox env c) (resolveManagedTagSlug (hc_Spec cr))) (reportUnreachable env cr) (\<lambda>_.
         if_err (EnsureExternalIDCustomField (Netbox env c)) (reportUnreachable env cr) (\<lambda>_.
         bind (StoreSet (Some (hc_Spec cr)) (Some c)) (\<lambda>_.
         bind (reportConnected env cr (fst x)) (\<lambda>_. ret \<lparr>RequeueAfter = resolveResyncInterval (hc_Spec cr)\<rparr>)))))
      (\<lambda>r w. r = \<lparr>RequeueAfter = resolveResyncInterval (hc_Spec cr)\<rparr> \<and>
         published env view v (hc_Spec cr) w1 (answered env) w)
      (\<lambda>_ w. w_store w = NewStore \<or> published env view v (hc_Spec cr) w1 (\<lambda>sp. sp = hc_Spec cr) w)"
      by (rule triple_pre_cond) (rule bootstrap_triple[OF law st refl con refl])
    with None show ?thesis by (cases x) (simp add: conj_commute)
  next
    case (Some e)
    show ?thesis using Some
      by (cases x) (auto intro: triple_post[OF reportUnreachable_fails[OF law st]])
  qed
qed

text \<open>C12: a reconcile of the HeraldConfig of the singleton's name leaves the store empty, as
  it was, or with a connection that works. If it asks to be run again after the resync interval, the
  store has the client of the spec it read and of its Secrets, the version check has passed if it is
  enabled, NetBox has the managed tag and the external-ID custom field, and they are all it changed
  there. If the HeraldConfig is gone the store is emptied. If the run fails, the store is empty, or
  is unchanged because Kubernetes would not say what the HeraldConfig is, or is published in full
  and only the status update failed.\<close>

theorem reconcileHeraldConfig_correct:
  assumes law: "lawful_world psize view env" and st: "keeps_store env" and name: "rq_Name req = singletonName"
  shows "triple (\<lambda>u. u = w) (reconcileHeraldConfig env req)
    (\<lambda>r w'. (\<exists>e w1. GetHeraldConfig env singletonName w = (Err e, w1) \<and> IsNotFound e \<and> r = no_requeue \<and>
          w_store w' = NewStore \<and> view w' = view w) \<or>
       (\<exists>cr w1. GetHeraldConfig env singletonName w = (Ok cr, w1) \<and>
          RequeueAfter r = resolveResyncInterval (hc_Spec cr) \<and>
          published env view (view w) (hc_Spec cr) w1 (answered env) w'))
    (\<lambda>e w'. w_store w' = NewStore \<or>
       (\<exists>w1. GetHeraldConfig env singletonName w = (Err e, w1) \<and> \<not> IsNotFound e \<and> w_store w' = w_store w) \<or>
       (\<exists>cr w1. GetHeraldConfig env singletonName w = (Ok cr, w1) \<and>
          published env view (view w) (hc_Spec cr) w1 (\<lambda>sp. sp = hc_Spec cr) w'))"
    (is "triple _ _ ?Q ?E")
proof -
  have set_store: "view (w\<lparr>w_store := s\<rparr>) = view w" for w s using law unfolding lawful_world_def by blast
  note k = kube_held[OF law st]
  let ?get = "GetHeraldConfig env singletonName"
  have get: "triple (\<lambda>u. u = w) ?get (\<lambda>cr u. ?get w = (Ok cr, u) \<and> held view (w_store w) (view w) u)
      (\<lambda>e u. ?get w = (Err e, u) \<and> held view (w_store w) (view w) u)"
    using keepsD[OF kube_keepsD(1)[OF k[of "w_store w" "view w"]], of singletonName]
    by (auto simp: triple_def held_def split: outcome.splits prod.splits)
  have failed: "triple P (reportUnreachable env cr e) ?Q ?E" for P cr e
    by (rule triple_post[OF reportUnreachable_fails[OF law st]]) simp_all
  have err: "triple (\<lambda>u. ?get w = (Err e, u) \<and> held view (w_store w) (view w) u)
      (if IsNotFound e then bind (StoreSet None None) (\<lambda>_. ret no_requeue) else fail e) ?Q ?E" for e
    by (auto simp: triple_def StoreSet_def bind_apply ret_def fail_def held_def NewStore_def set_store)
  have ok: "triple (\<lambda>u. ?get w = (Ok cr, u) \<and> held view (w_store w) (view w) u)
      (if_err (LoadConfig (GetSecret env) (OperatorNamespace env) (hs_NetBox (hc_Spec cr)))
        (reportUnreachable env cr) (\<lambda>cfg. if_err (Client (Libs env) cfg)
          (reportUnreachable env cr) (checked_bootstrap env cr))) ?Q ?E"
      (is "triple _ (?run cr) _ _") for cr
  proof -
    let ?load = "LoadConfig (GetSecret env) (OperatorNamespace env) (hs_NetBox (hc_Spec cr))"
    have run: "triple (\<lambda>u. u = w1) (?run cr) ?Q ?E" if w1: "?get w = (Ok cr, w1)" "view w1 = view w" for w1
    proof (rule triple_if_err[OF _ _ failed])
      have "triple (\<lambda>u. u = w1) ?load (\<lambda>_ u. view u = view w) (\<lambda>_ u. view u = view w)"
        by (rule keeps_at[OF LoadConfig_reads[OF lawful_worldD(1)[OF law]]]) (simp add: w1)
      from triple_result[OF this] show "triple (\<lambda>u. u = w1) ?load
          (\<lambda>cfg u. fst (?load w1) = Ok cfg \<and> view u = view w) (\<lambda>_ u. view u = view w)"
        by (rule triple_post) auto
      fix cfg
      show "triple (\<lambda>u. fst (?load w1) = Ok cfg \<and> view u = view w) (if_err (Client (Libs env) cfg)
          (reportUnreachable env cr) (checked_bootstrap env cr)) ?Q ?E"
      proof (rule triple_pre_cond, rule triple_if_err[OF Client_triple[OF kube_transports[OF lawful_worldD(1)[OF law]]] _ failed])
        fix c
        assume "fst (?load w1) = Ok cfg"
        then show "triple (\<lambda>u. fst (Client (Libs env) cfg w1) = Ok c \<and> view u = view w) (checked_bootstrap env cr c) ?Q ?E"
          by (intro triple_pre_cond, rule_tac triple_post[OF checked_bootstrap_triple[OF law st, of _ _ w1]])
            (use w1 in \<open>auto simp: connects_def version_passed_def\<close>)
      qed
    qed
    show ?thesis by (rule triple_states, rule run) (simp_all add: held_def)
  qed
  show ?thesis
    unfolding reconcileHeraldConfig_eq[OF name] by (rule triple_if_err[OF get ok err])
qed

text \<open>A world in which nothing has been published yet, with the Secret of the API token.\<close>

definition fresh_world :: memory where
  "fresh_world = live_world\<lparr>w_store := NewStore,
     k_secrets := (\<lambda>_ _. Some (\<lambda>k. if k = ''token'' then Some ''t0ken'' else None))\<rparr>"

lemma keeps_store_mem: "keeps_store (mem_env psize)"
  using externals_keep_store[where P = "\<lambda>s. s = t" for t] by (simp add: keeps_store_def)

lemma demo_netbox: "hs_NetBox demo_spec = \<lparr>nc_URL = ''netbox.example'', nc_TokenSecretRef = \<lparr>sk_Name = ''netbox'', sk_Key = []\<rparr>,
    nc_TLS = \<lparr>tc_InsecureSkipVerify = False, tc_CABundleSecretRef = None\<rparr>, nc_RequestTimeoutSeconds = 30,
    nc_VersionCheck = \<lparr>vc_Enabled = True\<rparr>, nc_ManagedTag = \<lparr>mt_Slug = demo_slug\<rparr>\<rparr>"
  by (simp add: demo_spec_def)

definition demo_connection :: config where
  "demo_connection = \<lparr>cfg_ServerURL = ''netbox.example'', cfg_APIToken = ''t0ken'', cfg_InsecureSkipVerify = False,
     cfg_CACertPEM = [], cfg_RequestTimeout = 30000000000\<rparr>"

lemma demo_load: "LoadConfig (GetSecret (mem_env 50)) ns (hs_NetBox demo_spec) fresh_world = (Ok demo_connection, fresh_world)"
  by (simp add: LoadConfig_def secretKey_def demo_netbox mem_env_def existing_def fresh_world_def bind_def if_err_def
    wrap_err_def ret_def fail_def demo_connection_def timeout_of_def Second_def Let_def)

lemma demo_client: "Client mem_libs demo_connection w = (Ok demo_client, w)"
  by (simp add: Client_def demo_connection_def mem_libs_def demo_client_def word_sle_eq ret_def)

lemma demo_version: "CheckVersion mem_libs (mem_api 50) w = (Ok (''4.3.1'', None), w)"
  by (simp add: CheckVersion_def mem_libs_def mem_api_def ret_def if_err_def)

lemma fresh_run: "fst (reconcileHeraldConfig (mem_env 50) \<lparr>rq_Namespace = [], rq_Name = singletonName\<rparr> fresh_world) =
    Ok \<lparr>RequeueAfter = 60000000000\<rparr>"
proof -
  let ?req = "\<lparr>rq_Namespace = [], rq_Name = singletonName\<rparr>"
  have get: "GetHeraldConfig (mem_env 50) singletonName fresh_world = (Ok demo_config, fresh_world)"
    by (simp add: mem_env_def existing_def fresh_world_def live_world_def)
  have spec: "hc_Spec demo_config = demo_spec" by (simp add: demo_config_def)
  have env: "Libs (mem_env n) = mem_libs" "Netbox (mem_env n) c = mem_api n" for n c by (simp_all add: mem_env_def)
  have name: "rq_Name ?req = singletonName" by simp
  have "fst (checked_bootstrap (mem_env 50) demo_config demo_client fresh_world) = Ok \<lparr>RequeueAfter = 60000000000\<rparr>"
    by (simp add: checked_bootstrap_def spec env demo_netbox demo_version bind_apply)
      (simp add: fresh_world_def live_world_def demo_netbox reportConnected_def StoreSet_def StoreDecoded_def set_condition_def run_simps)
  then show ?thesis
    unfolding reconcileHeraldConfig_eq[OF name] by (simp add: if_err_apply get spec demo_load demo_client env)
qed

theorem reconcileHeraldConfig_witness:
  "\<exists>w1. published (mem_env 50) mem_view (mem_view fresh_world) demo_spec w1 (answered (mem_env 50))
     (snd (reconcileHeraldConfig (mem_env 50) \<lparr>rq_Namespace = [], rq_Name = singletonName\<rparr> fresh_world))"
proof -
  let ?req = "\<lparr>rq_Namespace = [], rq_Name = singletonName\<rparr>"
  have get: "GetHeraldConfig (mem_env 50) singletonName fresh_world = (Ok demo_config, fresh_world)"
    by (simp add: mem_env_def existing_def fresh_world_def live_world_def)
  have spec: "hc_Spec demo_config = demo_spec" by (simp add: demo_config_def)
  have name: "rq_Name ?req = singletonName" by simp
  from triple_at[OF reconcileHeraldConfig_correct[OF lawful_mem_env keeps_store_mem name] refl fresh_run] get spec
  show ?thesis by auto
qed

section \<open>The client of a spec\<close>

text \<open>The Secret of \<open>r\<close>, read in \<open>w\<close>, has the value \<open>x\<close> under the key asked for.\<close>

definition secret_read :: "(string \<Rightarrow> string \<Rightarrow> ('w, secret) go) \<Rightarrow> string \<Rightarrow> SecretKeyRef \<Rightarrow> 'w \<Rightarrow> string \<Rightarrow> 'w \<Rightarrow> bool" where
  "secret_read getSecret ns r w x w' \<longleftrightarrow> (\<exists>secret. getSecret ns (sk_Name r) w = (Ok secret, w') \<and>
     secret (if sk_Key r = '''' then ''token'' else sk_Key r) = Some x)"

lemma secretKey_run:
  assumes "secretKey getSecret ns r w = (Ok x, w')"
  shows "secret_read getSecret ns r w x w'"
  using assms unfolding secretKey_def Let_def secret_read_def
  by (auto elim!: bind_OkE wrap_err_OkE simp: ret_def fail_def split: option.splits)

lemma LoadConfig_run:
  assumes "LoadConfig getSecret ns spec w = (Ok cfg, w')"
  obtains w1 where "secret_read getSecret ns (nc_TokenSecretRef spec) w (cfg_APIToken cfg) w1"
    and "case tc_CABundleSecretRef (nc_TLS spec) of None \<Rightarrow> cfg_CACertPEM cfg = '''' \<and> w' = w1
      | Some r \<Rightarrow> secret_read getSecret ns r w1 (cfg_CACertPEM cfg) w'"
    and "cfg_ServerURL cfg = nc_URL spec" and "cfg_InsecureSkipVerify cfg = tc_InsecureSkipVerify (nc_TLS spec)"
    and "cfg_RequestTimeout cfg = timeout_of (nc_RequestTimeoutSeconds spec)"
proof -
  from assms obtain token w1 where token: "secretKey getSecret ns (nc_TokenSecretRef spec) w = (Ok token, w1)"
    and rest: "(let cfg = \<lparr>cfg_ServerURL = nc_URL spec, cfg_APIToken = token,
        cfg_InsecureSkipVerify = tc_InsecureSkipVerify (nc_TLS spec), cfg_CACertPEM = '''',
        cfg_RequestTimeout = timeout_of (nc_RequestTimeoutSeconds spec)\<rparr> in
     case tc_CABundleSecretRef (nc_TLS spec) of
       None \<Rightarrow> ret cfg
     | Some r \<Rightarrow>
         bind (wrap_err (\<lambda>err. Errorf ''resolving netbox.tls.caBundleSecretRef: %w'' [AErr err])
           (secretKey getSecret ns r)) (\<lambda>caPEM. ret (cfg\<lparr>cfg_CACertPEM := caPEM\<rparr>))) w1 = (Ok cfg, w')"
    unfolding LoadConfig_def by (elim bind_OkE wrap_err_OkE)
  show thesis
    by (rule that[of w1]) (use secretKey_run[OF token] rest secretKey_run in
      \<open>auto simp: Let_def ret_def split: option.splits elim!: bind_OkE wrap_err_OkE\<close>)
qed

text \<open>The options the transport is asked for, and what becomes of it.\<close>

definition client_tls :: "config \<Rightarrow> tls_options" where
  "client_tls cfg = \<lparr>tls_InsecureSkipVerify = cfg_InsecureSkipVerify cfg,
     tls_LoadedCAPool = (if cfg_CACertPEM cfg = '''' then None else Some (cfg_CACertPEM cfg))\<rparr>"

lemma Client_run:
  assumes "Client lib cfg u = (Ok c, u')"
  shows "cfg_APIToken cfg \<noteq> ''''"
    and "cl_Authorization c = (if prefix ''nbt_'' (cfg_APIToken cfg) then ''Bearer '' else ''Token '') @ cfg_APIToken cfg"
    and "\<exists>transport. TLSTransport lib (client_tls cfg) = Inr (HttpTransport transport) \<and>
      cl_Transport c = transport\<lparr>ht_Proxy := Some ProxyFromEnvironment\<rparr>"
    and "cfg_CACertPEM cfg \<noteq> '''' \<longrightarrow> AppendCertsFromPEM lib (cfg_CACertPEM cfg)"
    and "\<exists>url. urlx_Parse lib (cfg_ServerURL cfg) = Inr url \<and> cl_Host c = url_Host url \<and> cl_Schemes c = [url_Scheme url] \<and>
      cl_BasePath c = url_Path url @ DefaultBasePath lib"
  using assms by (auto simp: Client_def client_tls_def Let_def ret_def fail_def panic_def
      split: if_splits sum.splits round_tripper.splits)

text \<open>C36: a client made from a spec works as the spec says. Requests go to the host, scheme and path of
  the URL and time out after exactly the configured number of seconds, or 30 seconds if that is
  not positive, with no overflow for any 32-bit value. The token is not empty, is the value of
  the referenced Secret under the configured key (\<open>token\<close> if none is given) and is sent as a bearer
  token only if it starts with \<open>nbt_\<close>. The transport is the one the TLS library makes for the
  spec's verification setting and CA bundle, with the proxy of the environment: its pool is
  exactly the bundle Secret's value, whose certificates could be read, and there is none if the
  spec references no bundle or the Secret's value is empty.\<close>

theorem client_of_spec:
  assumes "LoadConfig getSecret ns spec w = (Ok cfg, w')" and "Client lib cfg u = (Ok c, u')"
  shows "sint (cl_Timeout c) = (if sint (nc_RequestTimeoutSeconds spec) \<le> 0 then 30 else sint (nc_RequestTimeoutSeconds spec)) * 10 ^ 9 \<and>
    (\<exists>url. urlx_Parse lib (nc_URL spec) = Inr url \<and> cl_Host c = url_Host url \<and> cl_Schemes c = [url_Scheme url] \<and>
       cl_BasePath c = url_Path url @ DefaultBasePath lib) \<and>
    (\<exists>token w1 pool transport. secret_read getSecret ns (nc_TokenSecretRef spec) w token w1 \<and> token \<noteq> '''' \<and>
       cl_Authorization c = (if prefix ''nbt_'' token then ''Bearer '' else ''Token '') @ token \<and>
       TLSTransport lib \<lparr>tls_InsecureSkipVerify = tc_InsecureSkipVerify (nc_TLS spec), tls_LoadedCAPool = pool\<rparr> =
         Inr (HttpTransport transport) \<and>
       cl_Transport c = transport\<lparr>ht_Proxy := Some ProxyFromEnvironment\<rparr> \<and>
       (case tc_CABundleSecretRef (nc_TLS spec) of
          None \<Rightarrow> pool = None \<and> w' = w1
        | Some r \<Rightarrow> \<exists>pem. secret_read getSecret ns r w1 pem w' \<and>
            (if pem = '''' then pool = None else pool = Some pem \<and> AppendCertsFromPEM lib pem)))"
proof -
  obtain w1 where token: "secret_read getSecret ns (nc_TokenSecretRef spec) w (cfg_APIToken cfg) w1"
    and ca: "case tc_CABundleSecretRef (nc_TLS spec) of None \<Rightarrow> cfg_CACertPEM cfg = '''' \<and> w' = w1
      | Some r \<Rightarrow> secret_read getSecret ns r w1 (cfg_CACertPEM cfg) w'"
    and l: "cfg_ServerURL cfg = nc_URL spec" "cfg_InsecureSkipVerify cfg = tc_InsecureSkipVerify (nc_TLS spec)"
      "cfg_RequestTimeout cfg = timeout_of (nc_RequestTimeoutSeconds spec)"
    by (rule LoadConfig_run[OF assms(1)])
  note c = Client_run[OF assms(2)]
  have "sint (cl_Timeout c) = (if sint (nc_RequestTimeoutSeconds spec) \<le> 0 then 30 else sint (nc_RequestTimeoutSeconds spec)) * 10 ^ 9"
    using Client_timeout(1)[OF assms(2)] by (simp add: l(3) timeout_of_exact Second_def mult_le_0_iff)
  moreover have "case tc_CABundleSecretRef (nc_TLS spec) of
          None \<Rightarrow> tls_LoadedCAPool (client_tls cfg) = None \<and> w' = w1
        | Some r \<Rightarrow> \<exists>pem. secret_read getSecret ns r w1 pem w' \<and>
            (if pem = '''' then tls_LoadedCAPool (client_tls cfg) = None
             else tls_LoadedCAPool (client_tls cfg) = Some pem \<and> AppendCertsFromPEM lib pem)"
    using ca c(4) by (auto simp: client_tls_def split: option.splits)
  moreover from c(3) obtain transport where "TLSTransport lib (client_tls cfg) = Inr (HttpTransport transport)"
    and "cl_Transport c = transport\<lparr>ht_Proxy := Some ProxyFromEnvironment\<rparr>" by blast
  moreover have "client_tls cfg = \<lparr>tls_InsecureSkipVerify = tc_InsecureSkipVerify (nc_TLS spec),
      tls_LoadedCAPool = tls_LoadedCAPool (client_tls cfg)\<rparr>" by (simp add: client_tls_def l(2))
  ultimately show ?thesis
    by (intro conjI exI[of _ "cfg_APIToken cfg"] exI[of _ w1] exI[of _ "tls_LoadedCAPool (client_tls cfg)"] exI[of _ transport])
      (use c(1,2,5) token l(1) in simp_all)
qed

theorem client_of_spec_witness:
  "sint (cl_Timeout demo_client) = 30 * 10 ^ 9 \<and>
   (\<exists>token w1 transport. secret_read (GetSecret (mem_env 50)) ''ns'' \<lparr>sk_Name = ''netbox'', sk_Key = []\<rparr> fresh_world token w1 \<and>
      token \<noteq> '''' \<and> cl_Authorization demo_client = (if prefix ''nbt_'' token then ''Bearer '' else ''Token '') @ token \<and>
      TLSTransport mem_libs \<lparr>tls_InsecureSkipVerify = False, tls_LoadedCAPool = None\<rparr> = Inr (HttpTransport transport) \<and>
      cl_Transport demo_client = transport\<lparr>ht_Proxy := Some ProxyFromEnvironment\<rparr>)"
proof -
  have "sint (nc_RequestTimeoutSeconds (hs_NetBox demo_spec)) = 30" by (simp add: demo_netbox)
  moreover have "nc_TokenSecretRef (hs_NetBox demo_spec) = \<lparr>sk_Name = ''netbox'', sk_Key = []\<rparr>"
    "nc_TLS (hs_NetBox demo_spec) = \<lparr>tc_InsecureSkipVerify = False, tc_CABundleSecretRef = None\<rparr>"
    by (simp_all add: demo_netbox)
  ultimately show ?thesis using client_of_spec[OF demo_load demo_client, of "''ns''"] by auto
qed

section \<open>When a reconcile is run again\<close>

definition yields :: "('a \<Rightarrow> bool) \<Rightarrow> ('w, 'a) go \<Rightarrow> bool" where
  "yields P m \<longleftrightarrow> (\<forall>w x w'. m w = (Ok x, w') \<longrightarrow> P x)"

named_theorems yields_rules \<open>what a run returns\<close>

lemma yields_ret [yields_rules]: "P x \<Longrightarrow> yields P (ret x)"
  by (simp add: yields_def ret_def)

lemma yields_fail [yields_rules]: "yields P (fail e)"
  by (simp add: yields_def fail_def)

lemma yields_bind [yields_rules]: "(\<And>x. yields P (k x)) \<Longrightarrow> yields P (bind m k)"
  unfolding yields_def by (blast elim: bind_OkE)

lemma yields_if_err [yields_rules]: "(\<And>e. yields P (h e)) \<Longrightarrow> (\<And>x. yields P (k x)) \<Longrightarrow> yields P (if_err m h k)"
  unfolding yields_def by (blast elim: if_err_OkE)

lemma yields_if [yields_rules]: "(b \<Longrightarrow> yields P m) \<Longrightarrow> (\<not> b \<Longrightarrow> yields P n) \<Longrightarrow> yields P (if b then m else n)"
  by simp

lemma yields_option [yields_rules]:
  "(x = None \<Longrightarrow> yields P m) \<Longrightarrow> (\<And>y. x = Some y \<Longrightarrow> yields P (k y)) \<Longrightarrow> yields P (case x of None \<Rightarrow> m | Some y \<Rightarrow> k y)"
  by (cases x) simp_all

lemma yields_sum [yields_rules]:
  "(\<And>e. x = Inl e \<Longrightarrow> yields P (h e)) \<Longrightarrow> (\<And>y. x = Inr y \<Longrightarrow> yields P (k y)) \<Longrightarrow> yields P (case x of Inl e \<Rightarrow> h e | Inr y \<Rightarrow> k y)"
  by (cases x) simp_all

lemma yields_prod [yields_rules]: "(\<And>a b. x = (a, b) \<Longrightarrow> yields P (k a b)) \<Longrightarrow> yields P (case x of (a, b) \<Rightarrow> k a b)"
  by (cases x) simp

text \<open>The intervals a reconcile returns: none, ten seconds, or the resync interval of a spec.\<close>

definition scheduled :: "result \<Rightarrow> bool" where
  "scheduled r \<longleftrightarrow> r = no_requeue \<or> r = \<lparr>RequeueAfter = storeNotReadyPollInterval\<rparr> \<or>
     (\<exists>spec. r = \<lparr>RequeueAfter = resolveResyncInterval spec\<rparr>)"

lemma scheduledI [yields_rules]:
  "scheduled no_requeue" "scheduled \<lparr>RequeueAfter = storeNotReadyPollInterval\<rparr>"
  "scheduled \<lparr>RequeueAfter = resolveResyncInterval spec\<rparr>"
  by (auto simp: scheduled_def)

lemma reconcile_scheduled: "yields scheduled (reconcile r env req)"
proof (cases r)
  case HeraldConfigReconciler
  show ?thesis unfolding HeraldConfigReconciler reconcile.simps reconcileHeraldConfig_def reportUnreachable_def Let_def
    by (intro yields_rules)
next
  case ClusterReconciler
  show ?thesis unfolding ClusterReconciler reconcile.simps reconcileCluster_def reportClusterSyncError_def Let_def by (intro yields_rules)
next
  case NodeReconciler
  show ?thesis unfolding NodeReconciler reconcile.simps reconcileNode_def Let_def by (intro yields_rules)
next
  case ServiceReconciler
  show ?thesis unfolding ServiceReconciler reconcile.simps reconcileService_def Let_def by (intro yields_rules)
next
  case PodCIDRReconciler
  show ?thesis unfolding PodCIDRReconciler reconcile.simps reconcilePodCIDR_def reconcilePrefixForNode_def
    reconcileAggregates_def Let_def by (intro yields_rules)
qed

text \<open>Until a connection has been published nothing is done at all.\<close>

lemma not_ready:
  assumes "sto_spec (w_store w) = None \<or> sto_client (w_store w) = None"
    and "r \<noteq> HeraldConfigReconciler" and "r = ClusterReconciler \<Longrightarrow> rq_Name req = singletonName"
  shows "reconcile r env req w = (Ok \<lparr>RequeueAfter = 10000000000\<rparr>, w)"
  using assms by (cases r)
    (auto simp: reconcileCluster_def reconcileNode_def reconcileService_def reconcilePodCIDR_def bind_StoreGet ret_apply
      storeNotReadyPollInterval_def Second_def split: option.split)

text \<open>C39: when a reconcile is run again. One that returns asks for no further run, for one after ten
  seconds, or for one after a positive number of nanoseconds: a zero or negative resync interval,
  which controller-runtime would take as none and so end the periodic resync, is never passed on.
  Until the first connection has been published, a resource reconciler asks for a run after ten
  seconds and has made no external call.\<close>

theorem next_run:
  assumes "reconcile r env req w = (Ok x, w')"
  shows "(x = no_requeue \<or> RequeueAfter x = 10 * Second \<or>
      (\<exists>spec. RequeueAfter x = resolveResyncInterval spec \<and> 0 < sint (RequeueAfter x))) \<and>
    ((sto_spec (w_store w) = None \<or> sto_client (w_store w) = None) \<and> r \<noteq> HeraldConfigReconciler \<and>
      (r = ClusterReconciler \<longrightarrow> rq_Name req = singletonName) \<longrightarrow> RequeueAfter x = 10 * Second \<and> w' = w)"
proof
  show "x = no_requeue \<or> RequeueAfter x = 10 * Second \<or>
      (\<exists>spec. RequeueAfter x = resolveResyncInterval spec \<and> 0 < sint (RequeueAfter x))"
    using reconcile_scheduled[of r env req] assms unfolding yields_def scheduled_def
    by (force simp: storeNotReadyPollInterval_def resolveResyncInterval_positive)
qed (use assms not_ready[of w r req env] in \<open>auto simp: Second_def\<close>)

theorem next_run_witness:
  "\<lparr>RequeueAfter = 60000000000\<rparr> = no_requeue \<or> (60000000000 :: duration) = 10 * Second \<or>
    (\<exists>spec. 60000000000 = resolveResyncInterval spec \<and> 0 < sint (60000000000 :: duration))"
proof -
  have "reconcile ServiceReconciler (mem_env 50) \<lparr>rq_Namespace = ''ns'', rq_Name = ''web''\<rparr> live_world =
      (Ok \<lparr>RequeueAfter = 60000000000\<rparr>, snd (reconcileService (mem_env 50) \<lparr>rq_Namespace = ''ns'', rq_Name = ''web''\<rparr> live_world))"
    using run_split[OF live_service_run] by simp
  from conjunct1[OF next_run[OF this]] show ?thesis by simp
qed

end
