(* ===== verification/Status_Properties.thy ===== *)
theory Status_Properties
  imports Connection_Properties
begin

text \<open>
  What a reconcile reports, and what becomes of the objects of Nodes and Services that are gone.
\<close>

section \<open>The status of a resource type\<close>

text \<open>The common body of the three status syncs: \<open>count\<close> is what they count, \<open>put\<close> the field they write.\<close>

definition report_sync :: "('x, 'v) env \<Rightarrow> bool \<Rightarrow> ('x world_scheme netbox_api \<Rightarrow> ('x world_scheme, 64 word) go) \<Rightarrow>
    (ResourceSyncStatus \<Rightarrow> ResourceStatuses \<Rightarrow> ResourceStatuses) \<Rightarrow> error option \<Rightarrow> ('x world_scheme, unit) go" where
  "report_sync env enabled count put syncErr =
     if_err (GetHeraldConfig env singletonName)
       (\<lambda>err. if IsNotFound err then ret () else fail err) (\<lambda>cr.
     bind StoreGet (\<lambda>(_, clientp).
     case clientp of
       None \<Rightarrow> ret ()
     | Some c \<Rightarrow>
         bind (attempt (count (Netbox env c))) (\<lambda>n.
         bind (sync_status env enabled (hc_Generation cr) n syncErr) (\<lambda>status.
         bind (UpdateStatus env (cr\<lparr>hc_Status := (hc_Status cr)
           \<lparr>hc_Resources := put status (hc_Resources (hc_Status cr))\<rparr>\<rparr>)) (\<lambda>_. ret ())))))"

text \<open>
  What a written status says of a sync with the outcome \<open>err\<close>: \<open>counted\<close> is how counting the managed
  objects ended, \<open>n\<close> how many there are.
\<close>

definition tells :: "bool \<Rightarrow> HeraldConfig \<Rightarrow> 64 word outcome \<Rightarrow> nat \<Rightarrow> error option \<Rightarrow> ResourceSyncStatus \<Rightarrow> bool" where
  "tells enabled cr counted n err status \<longleftrightarrow>
     ss_Enabled status = enabled \<and> ss_ObservedGeneration status = hc_Generation cr \<and>
     ss_ObjectCount status = (case counted of Ok _ \<Rightarrow> word_of_nat n | _ \<Rightarrow> 0) \<and>
     (case err of None \<Rightarrow> ss_LastError status = Literal '''' \<and> ss_LastSyncTime status \<noteq> None
      | Some e \<Rightarrow> ss_LastError status = ErrorText e \<and> ss_LastSyncTime status = None)"

text \<open>
  The status was written with the last call of the run, if there was a HeraldConfig and a
  connection to write it for.
\<close>

definition reported :: "('x, 'v) env \<Rightarrow> bool \<Rightarrow> ('x world_scheme netbox_api \<Rightarrow> ('x world_scheme, 64 word) go) \<Rightarrow> nat \<Rightarrow>
    (ResourceSyncStatus \<Rightarrow> ResourceStatuses \<Rightarrow> ResourceStatuses) \<Rightarrow> error option \<Rightarrow> 'x world_scheme \<Rightarrow> 'x world_scheme \<Rightarrow> bool" where
  "reported env enabled count n put err w w' \<longleftrightarrow> (\<exists>got w1. GetHeraldConfig env singletonName w = (got, w1) \<and>
     (case (got, sto_client (w_store w)) of
        (Ok cr, Some c) \<Rightarrow> \<exists>status u x. tells enabled cr (fst (count (Netbox env c) w1)) n err status \<and>
          UpdateStatus env (cr\<lparr>hc_Status := (hc_Status cr)
            \<lparr>hc_Resources := put status (hc_Resources (hc_Status cr))\<rparr>\<rparr>) u = (Ok x, w')
      | (Ok cr, None) \<Rightarrow> w' = w1
      | (Err e, _) \<Rightarrow> IsNotFound e \<and> w' = w1
      | (Panic, _) \<Rightarrow> False))"

lemma narrowed_count: "ucast (word_of_nat n :: 64 word) = (word_of_nat n :: 32 word)"
  by (simp add: unsigned_of_nat word_of_nat_eq_iff min_def)

lemma sync_status_tells:
  assumes "sync_status env enabled (hc_Generation cr) count err w = (Ok status, w')"
    and "case count of Inl _ \<Rightarrow> \<exists>e. counted = Err e | Inr c \<Rightarrow> counted = Ok c \<and> c = word_of_nat n"
  shows "tells enabled cr counted n err status"
  using assms unfolding sync_status_def Let_def tells_def
  by (auto simp: ret_def zero_sync_status_def narrowed_count split: option.splits sum.splits elim!: bind_OkE)

lemma attempt_OkE:
  assumes "attempt m w = (Ok r, w')"
  obtains (ok) x where "r = Inr x" "m w = (Ok x, w')" | (err) e where "r = Inl e" "m w = (Err e, w')"
  using assms unfolding attempt_def by (auto simp: ret_def elim!: if_err_OkE)

lemma report_sync_run:
  assumes law: "lawful_world psize view env" and st: "keeps_store env"
    and count: "\<And>c v. triple (\<lambda>w. view w = v) (count (Netbox env c)) (\<lambda>x w. view w = v \<and> x = word_of_nat (n v)) (\<lambda>_ w. view w = v)"
    and run: "report_sync env enabled count put err w = (Ok u, w')"
  shows "reported env enabled count (n (view w)) put err w w'"
proof -
  note k = kube_held[OF law st] and gone = kube_keepsD(1)[OF k[of "w_store w" "view w"], of singletonName]
  from run show ?thesis unfolding report_sync_def
  proof (cases rule: if_err_OkE)
    case (err e w1)
    then show ?thesis by (auto simp: reported_def fail_def ret_def split: if_splits)
  next
    case (ok cr w1)
    have w1: "w_store w1 = w_store w" "view w1 = view w"
      using triple_OkD[OF keepsD[OF gone] _ ok(1)] by (simp_all add: held_def)
    show ?thesis
    proof (cases "sto_client (w_store w)")
      case None
      with ok show ?thesis by (auto simp: reported_def bind_StoreGet w1 ret_def)
    next
      case (Some c)
      from ok(2) obtain m w2 status w3 x where m: "attempt (count (Netbox env c)) w1 = (Ok m, w2)"
        and s: "sync_status env enabled (hc_Generation cr) m err w2 = (Ok status, w3)"
        and upd: "UpdateStatus env (cr\<lparr>hc_Status := (hc_Status cr)
          \<lparr>hc_Resources := put status (hc_Resources (hc_Status cr))\<rparr>\<rparr>) w3 = (Ok x, w')"
        by (auto simp: bind_StoreGet w1 Some elim!: bind_OkE ret_OkE)
      from m have "case m of Inl _ \<Rightarrow> \<exists>e. fst (count (Netbox env c) w1) = Err e
          | Inr y \<Rightarrow> fst (count (Netbox env c) w1) = Ok y \<and> y = word_of_nat (n (view w))"
        by (cases rule: attempt_OkE) (use triple_OkD[OF count w1(2)] in auto)
      from sync_status_tells[OF s this] upd ok(1) Some show ?thesis
        unfolding reported_def by auto
    qed
  qed
qed

lemma status_syncs_eq:
  "syncNodesStatus env slug spec err = report_sync env (nd_Enabled (rc_Nodes (hs_Resources spec)))
     (\<lambda>api. if nd_Mapping (rc_Nodes (hs_Resources spec)) = NodeMappingVirtualMachine
        then CountManagedVirtualMachines api slug else CountManagedDevices api slug) (\<lambda>s. st_Nodes_update (\<lambda>_. s)) err"
  "syncServicesStatus env slug spec err = report_sync env (sv_Enabled (rc_Services (hs_Resources spec)))
     (\<lambda>api. CountManagedServiceIPs api slug) (\<lambda>s. st_Services_update (\<lambda>_. s)) err"
  "syncPodCIDRStatus env slug spec err = report_sync env (pc_Enabled (rc_PodCIDRs (hs_Resources spec)))
     (\<lambda>api. if pc_Representation (rc_PodCIDRs (hs_Resources spec)) = PodCIDRRepresentationAggregate
        then CountManagedAggregates api slug else CountManagedPrefixes api slug) (\<lambda>s. st_PodCIDRs_update (\<lambda>_. s)) err"
  unfolding syncNodesStatus_def syncServicesStatus_def syncPodCIDRStatus_def report_sync_def Let_def by (rule refl)+

lemma count_triples:
  assumes "lawful psize view api"
  shows "triple (\<lambda>w. view w = v) (CountManagedDevices api slug)
      (\<lambda>x w. view w = v \<and> x = word_of_nat (card (managed device_kind slug v))) (\<lambda>_ w. view w = v)"
    and "triple (\<lambda>w. view w = v) (CountManagedVirtualMachines api slug)
      (\<lambda>x w. view w = v \<and> x = word_of_nat (card (managed vm_kind slug v))) (\<lambda>_ w. view w = v)"
    and "triple (\<lambda>w. view w = v) (CountManagedServiceIPs api slug)
      (\<lambda>x w. view w = v \<and> x = word_of_nat (card (managed ip_kind slug v))) (\<lambda>_ w. view w = v)"
    and "triple (\<lambda>w. view w = v) (CountManagedPrefixes api slug)
      (\<lambda>x w. view w = v \<and> x = word_of_nat (card (managed prefix_kind slug v))) (\<lambda>_ w. view w = v)"
    and "triple (\<lambda>w. view w = v) (CountManagedAggregates api slug)
      (\<lambda>x w. view w = v \<and> x = word_of_nat (card (managed aggregate_kind slug v))) (\<lambda>_ w. view w = v)"
proof -
  have "lawful_ep psize view device_kind (DcimDevices api)"
    and "lawful_ep psize view vm_kind (VirtualizationVirtualMachines api)"
    and "lawful_ep psize view ip_kind (IpamIPAddresses api)"
    and "lawful_ep psize view prefix_kind (IpamPrefixes api)"
    and "lawful_ep psize view aggregate_kind (IpamAggregates api)"
    using assms by (simp_all add: lawful_def)
  from device_count.count_triple[OF this(1)] vm_count.count_triple[OF this(2)] ip_count.count_triple[OF this(3)]
    pfx_count.count_triple[OF this(4)] agg_count.count_triple[OF this(5)]
  show "triple (\<lambda>w. view w = v) (CountManagedDevices api slug)
      (\<lambda>x w. view w = v \<and> x = word_of_nat (card (managed device_kind slug v))) (\<lambda>_ w. view w = v)"
    and "triple (\<lambda>w. view w = v) (CountManagedVirtualMachines api slug)
      (\<lambda>x w. view w = v \<and> x = word_of_nat (card (managed vm_kind slug v))) (\<lambda>_ w. view w = v)"
    and "triple (\<lambda>w. view w = v) (CountManagedServiceIPs api slug)
      (\<lambda>x w. view w = v \<and> x = word_of_nat (card (managed ip_kind slug v))) (\<lambda>_ w. view w = v)"
    and "triple (\<lambda>w. view w = v) (CountManagedPrefixes api slug)
      (\<lambda>x w. view w = v \<and> x = word_of_nat (card (managed prefix_kind slug v))) (\<lambda>_ w. view w = v)"
    and "triple (\<lambda>w. view w = v) (CountManagedAggregates api slug)
      (\<lambda>x w. view w = v \<and> x = word_of_nat (card (managed aggregate_kind slug v))) (\<lambda>_ w. view w = v)" .
qed

text \<open>How the objects of a type are counted, and which part of the status is the type's.\<close>

definition count_nodes :: "HeraldConfigSpec \<Rightarrow> string \<Rightarrow> 'w netbox_api \<Rightarrow> ('w, 64 word) go" where
  "count_nodes spec slug api = (if nd_Mapping (rc_Nodes (hs_Resources spec)) = NodeMappingVirtualMachine
     then CountManagedVirtualMachines api slug else CountManagedDevices api slug)"

definition count_podcidrs :: "HeraldConfigSpec \<Rightarrow> string \<Rightarrow> 'w netbox_api \<Rightarrow> ('w, 64 word) go" where
  "count_podcidrs spec slug api = (if pc_Representation (rc_PodCIDRs (hs_Resources spec)) = PodCIDRRepresentationAggregate
     then CountManagedAggregates api slug else CountManagedPrefixes api slug)"

definition node_count :: "HeraldConfigSpec \<Rightarrow> string \<Rightarrow> nb_view \<Rightarrow> nat" where
  "node_count spec slug v = (if nd_Mapping (rc_Nodes (hs_Resources spec)) = NodeMappingVirtualMachine
     then card (managed vm_kind slug v) else card (managed device_kind slug v))"

definition podcidr_count :: "HeraldConfigSpec \<Rightarrow> string \<Rightarrow> nb_view \<Rightarrow> nat" where
  "podcidr_count spec slug v = (if pc_Representation (rc_PodCIDRs (hs_Resources spec)) = PodCIDRRepresentationAggregate
     then card (managed aggregate_kind slug v) else card (managed prefix_kind slug v))"

definition nodes_reported :: "('x, 'v) env \<Rightarrow> ('x world_scheme \<Rightarrow> nb_view) \<Rightarrow> HeraldConfigSpec \<Rightarrow> string \<Rightarrow> error option \<Rightarrow>
    'x world_scheme \<Rightarrow> 'x world_scheme \<Rightarrow> bool" where
  "nodes_reported env view spec slug err w w' \<longleftrightarrow> reported env (nd_Enabled (rc_Nodes (hs_Resources spec)))
     (count_nodes spec slug) (node_count spec slug (view w)) (\<lambda>s. st_Nodes_update (\<lambda>_. s)) err w w'"

definition services_reported :: "('x, 'v) env \<Rightarrow> ('x world_scheme \<Rightarrow> nb_view) \<Rightarrow> HeraldConfigSpec \<Rightarrow> string \<Rightarrow> error option \<Rightarrow>
    'x world_scheme \<Rightarrow> 'x world_scheme \<Rightarrow> bool" where
  "services_reported env view spec slug err w w' \<longleftrightarrow> reported env (sv_Enabled (rc_Services (hs_Resources spec)))
     (\<lambda>api. CountManagedServiceIPs api slug) (card (managed ip_kind slug (view w))) (\<lambda>s. st_Services_update (\<lambda>_. s)) err w w'"

definition podcidrs_reported :: "('x, 'v) env \<Rightarrow> ('x world_scheme \<Rightarrow> nb_view) \<Rightarrow> HeraldConfigSpec \<Rightarrow> string \<Rightarrow> error option \<Rightarrow>
    'x world_scheme \<Rightarrow> 'x world_scheme \<Rightarrow> bool" where
  "podcidrs_reported env view spec slug err w w' \<longleftrightarrow> reported env (pc_Enabled (rc_PodCIDRs (hs_Resources spec)))
     (count_podcidrs spec slug) (podcidr_count spec slug (view w)) (\<lambda>s. st_PodCIDRs_update (\<lambda>_. s)) err w w'"

lemma status_reported:
  assumes law: "lawful_world psize view env" and st: "keeps_store env"
  shows "syncNodesStatus env slug spec err w = (Ok u, w') \<Longrightarrow> nodes_reported env view spec slug err w w'"
    and "syncServicesStatus env slug spec err w = (Ok u, w') \<Longrightarrow> services_reported env view spec slug err w w'"
    and "syncPodCIDRStatus env slug spec err w = (Ok u, w') \<Longrightarrow> podcidrs_reported env view spec slug err w w'"
proof -
  note c = count_triples[OF lawful_worldD(2)[OF law]]
  have "triple (\<lambda>w. view w = v) (count_nodes spec slug (Netbox env c))
      (\<lambda>x w. view w = v \<and> x = word_of_nat (node_count spec slug v)) (\<lambda>_ w. view w = v)" for v c
    using c by (simp add: count_nodes_def node_count_def)
  then show "syncNodesStatus env slug spec err w = (Ok u, w') \<Longrightarrow> nodes_reported env view spec slug err w w'"
    unfolding status_syncs_eq count_nodes_def[symmetric] nodes_reported_def by (rule report_sync_run[OF law st])
  show "syncServicesStatus env slug spec err w = (Ok u, w') \<Longrightarrow> services_reported env view spec slug err w w'"
    unfolding status_syncs_eq services_reported_def
    by (rule report_sync_run[OF law st, where n = "\<lambda>v. card (managed ip_kind slug v)"]) (rule c(3))
  have "triple (\<lambda>w. view w = v) (count_podcidrs spec slug (Netbox env c))
      (\<lambda>x w. view w = v \<and> x = word_of_nat (podcidr_count spec slug v)) (\<lambda>_ w. view w = v)" for v c
    using c by (simp add: count_podcidrs_def podcidr_count_def)
  then show "syncPodCIDRStatus env slug spec err w = (Ok u, w') \<Longrightarrow> podcidrs_reported env view spec slug err w w'"
    unfolding status_syncs_eq count_podcidrs_def[symmetric] podcidrs_reported_def by (rule report_sync_run[OF law st])
qed

text \<open>C34: a status sync of Nodes, Services or pod CIDRs that succeeds has written, with its last call,
  the status of its own type and no other part of the HeraldConfig it read: whether the type is
  enabled, the generation read, the error of a failed sync and no time or the time of a successful
  one and no error, and the number of NetBox objects with the managed tag of the kind in use, modulo
  \<open>2 ^ 32\<close>. If counting fails it is 0 instead. Nothing is
  written, and that counts as success, when there is no HeraldConfig or no connection any more.\<close>

theorem statuses_reported:
  assumes law: "lawful_world psize view env" and st: "keeps_store env"
  shows "(\<forall>u w'. syncNodesStatus env slug spec err w = (Ok u, w') \<longrightarrow>
      reported env (nd_Enabled (rc_Nodes (hs_Resources spec))) (count_nodes spec slug) (node_count spec slug (view w))
        (\<lambda>s. st_Nodes_update (\<lambda>_. s)) err w w') \<and>
    (\<forall>u w'. syncServicesStatus env slug spec err w = (Ok u, w') \<longrightarrow>
      reported env (sv_Enabled (rc_Services (hs_Resources spec))) (\<lambda>api. CountManagedServiceIPs api slug)
        (card (managed ip_kind slug (view w))) (\<lambda>s. st_Services_update (\<lambda>_. s)) err w w') \<and>
    (\<forall>u w'. syncPodCIDRStatus env slug spec err w = (Ok u, w') \<longrightarrow>
      reported env (pc_Enabled (rc_PodCIDRs (hs_Resources spec))) (count_podcidrs spec slug) (podcidr_count spec slug (view w))
        (\<lambda>s. st_PodCIDRs_update (\<lambda>_. s)) err w w')"
  using status_reported[OF law st] unfolding nodes_reported_def services_reported_def podcidrs_reported_def by blast

lemma live_status_run: "fst (syncServicesStatus (mem_env 50) demo_slug demo_spec None live_world) = Ok ()"
  by (simp add: live_world_def run_simps)

theorem statuses_reported_witness:
  "reported (mem_env 50) True (\<lambda>api. CountManagedServiceIPs api demo_slug) (card (managed ip_kind demo_slug (mem_view live_world)))
     (\<lambda>s. st_Services_update (\<lambda>_. s)) None live_world (snd (syncServicesStatus (mem_env 50) demo_slug demo_spec None live_world))"
proof -
  have on: "sv_Enabled (rc_Services (hs_Resources demo_spec))" by (simp add: demo_spec_parts)
  show ?thesis
    using statuses_reported[OF lawful_mem_env keeps_store_mem, of 50 demo_slug demo_spec None live_world]
      run_split[OF live_status_run] unfolding eqTrueI[OF on] by blast
qed

section \<open>Objects of what is gone\<close>

lemma tail_reported:
  assumes law: "lawful_world psize view env" and st: "keeps_store env"
  shows "bind (syncNodesStatus env slug spec err) (\<lambda>_. ret res) w = (Ok r, w') \<Longrightarrow>
      r = res \<and> view w' = view w \<and> nodes_reported env view spec slug err w w'"
    and "bind (syncServicesStatus env slug spec err) (\<lambda>_. ret res) w = (Ok r, w') \<Longrightarrow>
      r = res \<and> view w' = view w \<and> services_reported env view spec slug err w w'"
    and "bind (syncPodCIDRStatus env slug spec err) (\<lambda>_. ret res) w = (Ok r, w') \<Longrightarrow>
      r = res \<and> view w' = view w \<and> podcidrs_reported env view spec slug err w w'"
proof -
  show "r = res \<and> view w' = view w \<and> nodes_reported env view spec slug err w w'"
    if run: "bind (syncNodesStatus env slug spec err) (\<lambda>_. ret res) w = (Ok r, w')"
    using run status_tail[OF run status_reads(1)[OF law]] by (auto elim!: bind_OkE ret_OkE intro: status_reported[OF law st])
  show "r = res \<and> view w' = view w \<and> services_reported env view spec slug err w w'"
    if run: "bind (syncServicesStatus env slug spec err) (\<lambda>_. ret res) w = (Ok r, w')"
    using run status_tail[OF run status_reads(2)[OF law]] by (auto elim!: bind_OkE ret_OkE intro: status_reported[OF law st])
  show "r = res \<and> view w' = view w \<and> podcidrs_reported env view spec slug err w w'"
    if run: "bind (syncPodCIDRStatus env slug spec err) (\<lambda>_. ret res) w = (Ok r, w')"
    using run status_tail[OF run status_reads(3)[OF law]] by (auto elim!: bind_OkE ret_OkE intro: status_reported[OF law st])
qed

text \<open>
  What becomes of the managed objects of kind \<open>K\<close> that bear the name \<open>n\<close>: at most such objects go; and,
  if the managed ones fit on a page and there is just one of that name, none is left.
\<close>

definition name_freed :: "nat \<Rightarrow> ('o, 'd writable_scheme) kind \<Rightarrow> string \<Rightarrow> string \<Rightarrow> nb_view \<Rightarrow> nb_view \<Rightarrow> bool" where
  "name_freed psize K slug n v v' \<longleftrightarrow> dropped psize K slug (named_ids K slug n v) v v' \<and>
     (card (managed K slug v) \<le> psize \<and> (\<exists>i. named_ids K slug n v \<subseteq> {i}) \<longrightarrow> named_ids K slug n v' = {})"

lemma dropped_name_freed:
  assumes "dropped psize K slug (named_ids K slug n v) v v'"
  shows "name_freed psize K slug n v v'"
proof -
  from assms obtain I where I: "I \<subseteq> named_ids K slug n v" "k_get K v' = k_get K v |` (- I)"
      "card (managed K slug v) \<le> psize \<longrightarrow> named_ids K slug n v \<noteq> {} \<longrightarrow> I \<noteq> {}" unfolding dropped_def by blast
  have "named_ids K slug n v' = named_ids K slug n v - I"
    by (auto simp: named_ids_def I(2) restrict_map_def split: if_splits)
  then show ?thesis using assms I(1,3) unfolding name_freed_def by auto
qed

lemma delete_names_triple:
  assumes law: "lawful psize view api"
  shows "triple (\<lambda>w. view w = v) (deleteNodeByName api slug n)
    (\<lambda>_ w. \<exists>m. name_freed psize device_kind slug n v m \<and> name_freed psize vm_kind slug n m (view w))
    (\<lambda>_ w. \<exists>m. (m = v \<or> name_freed psize device_kind slug n v m) \<and> (view w = m \<or> name_freed psize vm_kind slug n m (view w)))"
  unfolding deleteNodeByName_def
proof (rule triple_bind[OF triple_post[OF conjunct1[OF delete_by_name_correct[OF law]]]])
  note freed = dropped_name_freed
  let ?dev = "\<lambda>w. name_freed psize device_kind slug n v (view w)"
  show "dropped psize device_kind slug (named_ids device_kind slug n v) v (view w) \<Longrightarrow> ?dev w" for w by (rule freed)
  show "view w = v \<or> dropped psize device_kind slug (named_ids device_kind slug n v) v (view w) \<Longrightarrow>
      \<exists>m. (m = v \<or> name_freed psize device_kind slug n v m) \<and> (view w = m \<or> name_freed psize vm_kind slug n m (view w))" for w
    by (rule exI[of _ "view w"]) (auto dest: freed)
  show "triple ?dev (DeleteVirtualMachineByName api slug n)
    (\<lambda>_ w. \<exists>m. name_freed psize device_kind slug n v m \<and> name_freed psize vm_kind slug n m (view w))
    (\<lambda>_ w. \<exists>m. (m = v \<or> name_freed psize device_kind slug n v m) \<and> (view w = m \<or> name_freed psize vm_kind slug n m (view w)))"
  proof (rule triple_view_in[where view = view])
    fix u
    assume "name_freed psize device_kind slug n v u"
    then show "triple (\<lambda>w. view w = u) (DeleteVirtualMachineByName api slug n)
      (\<lambda>_ w. \<exists>m. name_freed psize device_kind slug n v m \<and> name_freed psize vm_kind slug n m (view w))
      (\<lambda>_ w. \<exists>m. (m = v \<or> name_freed psize device_kind slug n v m) \<and> (view w = m \<or> name_freed psize vm_kind slug n m (view w)))"
      by (intro triple_post[OF conjunct2[OF delete_by_name_correct[OF law]]] exI[of _ u] conjI)
        (auto dest: freed)
  qed
qed

text \<open>A removal ended with the error \<open>err\<close>, or with none.\<close>

definition ended :: "unit outcome \<times> 'w \<Rightarrow> error option \<Rightarrow> 'w \<Rightarrow> bool" where
  "ended run err w' \<longleftrightarrow> run = (case err of None \<Rightarrow> Ok () | Some e \<Rightarrow> Err e, w')"

lemma vanished_service_run:
  assumes law: "lawful_world psize view env" and st: "keeps_store env"
    and spec: "sto_spec (w_store w) = Some spec" and client: "sto_client (w_store w) = Some c"
    and get: "GetService env (rq_Namespace req) (rq_Name req) w = (Err e, w1)" and e: "IsNotFound e"
    and run: "reconcileService env req w = (Ok r, w')"
  shows "r = no_requeue \<and> (\<exists>err w2. ended (DeleteServiceIPs (Netbox env c) (resolveManagedTagSlug spec) (rq_Namespace req) (rq_Name req) w1) err w2 \<and>
     services_reported env view spec (resolveManagedTagSlug spec) err w2 w' \<and> view w' = view w2 \<and>
     (if err = None
      then cleared psize ip_kind (resolveManagedTagSlug spec) (serviceExternalIDPrefix (rq_Namespace req) (rq_Name req)) (view w) (view w2)
      else kept_others ip_kind (resolveManagedTagSlug spec) (serviceExternalIDPrefix (rq_Namespace req) (rq_Name req)) (view w) (view w2)))"
proof -
  note del = DeleteServiceIPs_correct[OF lawful_worldD(2)[OF law], where v = "view w"]
    and v1 = kube_reads(2)[OF law get] and tail = tail_reported(2)[OF law st]
  show ?thesis
    using run
    unfolding reconcileService_def bind_StoreGet spec client prod.case option.case Let_def
      if_err_apply(2)[where m = "GetService _ _ _", OF get] if_P[OF e]
  proof (cases rule: if_err_OkE)
    case (ok u w2)
    from tail[OF ok(2)] triple_OkD[OF del v1 ok(1)] ok(1) show ?thesis
      by (intro conjI exI[of _ None] exI[of _ w2]) (auto simp: ended_def)
  next
    case (err e' w2)
    from tail[OF err(2)] triple_ErrD[OF del v1 err(1)] err(1) show ?thesis
      by (intro conjI exI[of _ "Some e'"] exI[of _ w2]) (auto simp: ended_def)
  qed
qed

lemma vanished_node_run:
  assumes law: "lawful_world psize view env" and st: "keeps_store env"
    and spec: "sto_spec (w_store w) = Some spec" and client: "sto_client (w_store w) = Some c"
    and get: "GetNode env (rq_Name req) w = (Err e, w1)" and e: "IsNotFound e"
    and run: "reconcileNode env req w = (Ok r, w')"
  shows "r = no_requeue \<and> (\<exists>err w2 m. ended (deleteNodeByName (Netbox env c) (resolveManagedTagSlug spec) (rq_Name req) w1) err w2 \<and>
     nodes_reported env view spec (resolveManagedTagSlug spec) err w2 w' \<and> view w' = view w2 \<and>
     (name_freed psize device_kind (resolveManagedTagSlug spec) (rq_Name req) (view w) m \<or> err \<noteq> None \<and> m = view w) \<and>
     (name_freed psize vm_kind (resolveManagedTagSlug spec) (rq_Name req) m (view w2) \<or> err \<noteq> None \<and> view w2 = m))"
proof -
  note del = delete_names_triple[OF lawful_worldD(2)[OF law], where v = "view w"]
    and v1 = kube_reads(1)[OF law get] and tail = tail_reported(1)[OF law st]
  show ?thesis
    using run
    unfolding reconcileNode_def bind_StoreGet spec client prod.case option.case Let_def
      if_err_apply(2)[where m = "GetNode _ _", OF get] if_P[OF e]
  proof (cases rule: if_err_OkE)
    case (ok u w2)
    from triple_OkD[OF del v1 ok(1)] obtain m where "name_freed psize device_kind (resolveManagedTagSlug spec) (rq_Name req) (view w) m"
      "name_freed psize vm_kind (resolveManagedTagSlug spec) (rq_Name req) m (view w2)" by blast
    with tail[OF ok(2)] ok(1) show ?thesis
      by (intro conjI exI[of _ None] exI[of _ w2] exI[of _ m]) (auto simp: ended_def)
  next
    case (err e' w2)
    from triple_ErrD[OF del v1 err(1)] obtain m
      where "m = view w \<or> name_freed psize device_kind (resolveManagedTagSlug spec) (rq_Name req) (view w) m"
        "view w2 = m \<or> name_freed psize vm_kind (resolveManagedTagSlug spec) (rq_Name req) m (view w2)" by blast
    with tail[OF err(2)] err(1) show ?thesis
      by (intro conjI exI[of _ "Some e'"] exI[of _ w2] exI[of _ m]) (auto simp: ended_def)
  qed
qed


lemma vanished_run: "fst (reconcileService (mem_env 50) \<lparr>rq_Namespace = ''ns'', rq_Name = ''db''\<rparr> live_world) = Ok no_requeue"
  by (simp add: live_world_def run_simps no_requeue_def)


end
