(* ===== verification/Failure_Properties.thy ===== *)
theory Failure_Properties
  imports Status_Properties Progress_Properties
begin

text \<open>
  What becomes of a failed sync: the reconcile writes its error to the status of the type and tells
  controller-runtime nothing of it.
\<close>

section \<open>The work of a reconcile\<close>

text \<open>What the reconcile of an object that exists has to do in NetBox.\<close>

definition service_work :: "'w netbox_api \<Rightarrow> HeraldConfigSpec \<Rightarrow> service \<Rightarrow> ('w, unit) go" where
  "service_work api spec svc =
     (let slug = resolveManagedTagSlug spec; services = rc_Services (hs_Resources spec) in
      if sv_Enabled services \<and> svc_Type svc = ServiceTypeLoadBalancer then syncServiceAddresses api slug svc
      else if sv_Enabled services \<or> \<not> sv_RetainOnDisable services then DeleteServiceIPs api slug (svc_Namespace svc) (svc_Name svc)
      else ret ())"

definition node_work :: "'w netbox_api \<Rightarrow> HeraldConfigSpec \<Rightarrow> node \<Rightarrow> ('w, unit) go" where
  "node_work api spec node =
     (let slug = resolveManagedTagSlug spec; nodes = rc_Nodes (hs_Resources spec) in
      if nd_Enabled nodes then bind (EnsureManagedTag api slug) (ensureNode api spec node)
      else if nd_RetainOnDisable nodes then ret () else deleteNodeByExternalID api spec slug (nod_UID node))"

definition prefix_work :: "'w netbox_api \<Rightarrow> HeraldConfigSpec \<Rightarrow> node \<Rightarrow> ('w, unit) go" where
  "prefix_work api spec node =
     (let slug = resolveManagedTagSlug spec; podCIDRs = rc_PodCIDRs (hs_Resources spec) in
      if pc_Enabled podCIDRs \<and> nod_PodCIDRs node \<noteq> [] then syncNodePrefixes api slug node
      else if pc_Enabled podCIDRs \<or> \<not> pc_RetainOnDisable podCIDRs then DeleteNodePodCIDRPrefixes api slug (nod_Name node)
      else ret ())"

section \<open>Where its errors go\<close>

text \<open>
  Kubernetes answers the calls of a status sync, and there is a connection, as long as \<open>C\<close> holds.
\<close>

definition kube_answers :: "('x, 'v) env \<Rightarrow> ('x world_scheme \<Rightarrow> bool) \<Rightarrow> bool" where
  "kube_answers env C \<longleftrightarrow> (\<forall>w. C w \<longrightarrow> sto_client (w_store w) \<noteq> None) \<and> succeeds C (GetHeraldConfig env singletonName) \<and>
     (\<forall>cr. succeeds C (UpdateStatus env cr)) \<and> succeeds C (Now env)"

text \<open>
  The run ends with a status update that carries the error of the work, if it has one; and asks for
  the resync if it has none, and for no further run if it has. It never returns an error itself.
\<close>

definition told :: "('x, 'v) env \<Rightarrow> duration \<Rightarrow> (ResourceSyncStatus \<Rightarrow> ResourceStatuses \<Rightarrow> ResourceStatuses) \<Rightarrow>
    unit outcome \<Rightarrow> result outcome \<times> 'x world_scheme \<Rightarrow> bool" where
  "told env interval put out run \<longleftrightarrow> (\<exists>cr status u x.
     UpdateStatus env (cr\<lparr>hc_Status := (hc_Status cr)\<lparr>hc_Resources := put status (hc_Resources (hc_Status cr))\<rparr>\<rparr>) u = (Ok x, snd run) \<and>
     (case out of
        Ok _ \<Rightarrow> ss_LastError status = Literal [] \<and> fst run = Ok \<lparr>RequeueAfter = interval\<rparr>
      | Err e \<Rightarrow> ss_LastError status = ErrorText e \<and> fst run = Ok no_requeue
      | Panic \<Rightarrow> False))"

lemma succeeds_kept:
  assumes "succeeds C m" and "keeps C m" and "C w"
  obtains x w' where "m w = (Ok x, w')" "C w'"
  using succeeds_run[OF assms(1,3)] keeps_OkD[OF assms(2,3)] by blast

lemma report_sync_told:
  assumes kept: "kube_keeps C env" "\<And>c. keeps C (count (Netbox env c))" and ans: "kube_answers env C" and w: "C w"
  shows "\<exists>cr status u x w'. report_sync env enabled count put err w = (Ok (), w') \<and>
    UpdateStatus env (cr\<lparr>hc_Status := (hc_Status cr)\<lparr>hc_Resources := put status (hc_Resources (hc_Status cr))\<rparr>\<rparr>) u = (Ok x, w') \<and>
    ss_LastError status = (case err of None \<Rightarrow> Literal [] | Some e \<Rightarrow> ErrorText e)"
proof -
  note k = kube_keepsD[OF kept(1)]
  have a: "succeeds C (GetHeraldConfig env singletonName)" "\<And>cr. succeeds C (UpdateStatus env cr)" "succeeds C (Now env)"
    "\<And>w. C w \<Longrightarrow> sto_client (w_store w) \<noteq> None" using ans by (simp_all add: kube_answers_def)
  obtain cr w1 where get: "GetHeraldConfig env singletonName w = (Ok cr, w1)" "C w1"
    by (rule succeeds_kept[OF a(1) k(1) w])
  from a(4)[OF get(2)] obtain c where c: "sto_client (w_store w1) = Some c" by blast
  have same: "keeps C (attempt (count (Netbox env c)))" by (rule keeps_attempt[OF kept(2)])
  have "succeeds C (attempt (count (Netbox env c)))"
    using kept(2)[of c] unfolding succeeds_def keeps_def by (intro triple_attempt) (erule triple_post; simp)
  from this same get(2) obtain n w2 where n: "attempt (count (Netbox env c)) w1 = (Ok n, w2)" "C w2"
    by (rule succeeds_kept)
  have "succeeds C (sync_status env enabled (hc_Generation cr) n err)"
    unfolding sync_status_def Let_def by (cases err) (simp_all add: succeeds_ret succeeds_bind[OF a(3) succeeds_ret])
  then obtain status w3 where s: "sync_status env enabled (hc_Generation cr) n err w2 = (Ok status, w3)" "C w3"
    by (rule succeeds_kept[OF _ sync_status_keeps[OF kept(1)] n(2)])
  have err: "ss_LastError status = (case err of None \<Rightarrow> Literal [] | Some e \<Rightarrow> ErrorText e)"
    using s(1) unfolding sync_status_def Let_def
    by (auto simp: ret_def zero_sync_status_def split: option.splits sum.splits elim!: bind_OkE)
  obtain x w4 where upd: "UpdateStatus env (cr\<lparr>hc_Status := (hc_Status cr)
      \<lparr>hc_Resources := put status (hc_Resources (hc_Status cr))\<rparr>\<rparr>) w3 = (Ok x, w4)"
    by (rule succeeds_kept[OF a(2) k(8) s(2)])
  have "report_sync env enabled count put err w = (Ok (), w4)"
    by (simp add: report_sync_def if_err_apply get(1) bind_StoreGet c bind_apply n(1) s(1) upd ret_apply)
  with upd err show ?thesis by blast
qed

lemma work_told:
  assumes work: "keeps C work" and w: "C w"
    and sts: "\<And>err u. C u \<Longrightarrow> \<exists>cr status u' x w'. sts err u = (Ok (), w') \<and>
      UpdateStatus env (cr\<lparr>hc_Status := (hc_Status cr)\<lparr>hc_Resources := put status (hc_Resources (hc_Status cr))\<rparr>\<rparr>) u' = (Ok x, w') \<and>
      ss_LastError status = (case err of None \<Rightarrow> Literal [] | Some e \<Rightarrow> ErrorText e)"
  shows "told env i put (fst (work w)) (if_err work (\<lambda>e. bind (sts (Some e)) (\<lambda>_. ret no_requeue))
    (\<lambda>_. bind (sts None) (\<lambda>_. ret \<lparr>RequeueAfter = i\<rparr>)) w)"
proof (cases "work w")
  case (Pair out u)
  have run: "out \<noteq> Panic" "C u"
    using keepsD[OF work] w Pair by (cases out; auto simp: triple_def)+
  show ?thesis
  proof (cases out)
    case (Ok y)
    from sts[OF run(2), of None] show ?thesis
      unfolding told_def by (auto simp: if_err_apply Pair Ok bind_apply ret_apply) blast
  next
    case (Err e)
    from sts[OF run(2), of "Some e"] show ?thesis
      unfolding told_def by (auto simp: if_err_apply Pair Err bind_apply ret_apply) blast
  qed (use run in simp)
qed

lemma if_err_twice: "if_err a h (\<lambda>x. if_err (b x) h k) = if_err (bind a b) h k"
  by (auto simp: bind_def if_err_def fail_def fun_eq_iff split: outcome.split prod.split)

lemma counting_keeps:
  assumes "api_keeps C (Netbox env c)"
  shows "keeps C (count_nodes spec slug (Netbox env c))" "keeps C (CountManagedServiceIPs (Netbox env c) slug)"
    "keeps C (count_podcidrs spec slug (Netbox env c))"
  using package_keepsD[OF api_package_keeps[OF assms]] by (simp_all add: count_nodes_def count_podcidrs_def)

lemma work_keeps:
  assumes api: "api_keeps C api"
  shows "keeps C (service_work api spec svc)" "keeps C (node_work api spec node)" "keeps C (prefix_work api spec node)"
    "keeps C (deleteStalePodCIDRAggregates api slug)"
proof -
  note pkg = api_package_keeps[OF api]
  note ops = package_keepsD[OF pkg]
  show "keeps C (service_work api spec svc)" "keeps C (prefix_work api spec node)"
    unfolding service_work_def prefix_work_def Let_def by (auto intro!: keeps_ret ops)
  show "keeps C (node_work api spec node)"
    unfolding node_work_def deleteNodeByExternalID_def Let_def
    by (auto intro!: keeps_ret ops keeps_bind_fact[OF ops(1)] ensureNode_keeps[OF pkg])
  show "keeps C (deleteStalePodCIDRAggregates api slug)"
    unfolding deleteStalePodCIDRAggregates_def by (intro keeps_for_each ops)
qed

lemma service_runs_work:
  assumes "sto_spec (w_store w) = Some spec" and "sto_client (w_store w) = Some c"
    and "GetService env (rq_Namespace req) (rq_Name req) w = (Ok svc, w1)"
  shows "reconcileService env req w = if_err (service_work (Netbox env c) spec svc)
    (\<lambda>e. bind (syncServicesStatus env (resolveManagedTagSlug spec) spec (Some e)) (\<lambda>_. ret no_requeue))
    (\<lambda>_. bind (syncServicesStatus env (resolveManagedTagSlug spec) spec None)
      (\<lambda>_. ret \<lparr>RequeueAfter = resolveResyncInterval spec\<rparr>)) w1"
  by (simp add: reconcileService_def bind_StoreGet assms Let_def if_err_apply(1)[where m = "GetService _ _ _"] service_work_def)

lemma node_runs_work:
  assumes "sto_spec (w_store w) = Some spec" and "sto_client (w_store w) = Some c"
    and "GetNode env (rq_Name req) w = (Ok node, w1)"
  shows "reconcileNode env req w = if_err (node_work (Netbox env c) spec node)
    (\<lambda>e. bind (syncNodesStatus env (resolveManagedTagSlug spec) spec (Some e)) (\<lambda>_. ret no_requeue))
    (\<lambda>_. bind (syncNodesStatus env (resolveManagedTagSlug spec) spec None)
      (\<lambda>_. ret \<lparr>RequeueAfter = resolveResyncInterval spec\<rparr>)) w1"
  by (simp add: reconcileNode_def bind_StoreGet assms Let_def if_err_apply(1)[where m = "GetNode _ _"] node_work_def if_err_twice)

lemma prefixes_run_work:
  assumes "sto_spec (w_store w) = Some spec" and "sto_client (w_store w) = Some c"
    and mode: "pc_Representation (rc_PodCIDRs (hs_Resources spec)) \<noteq> PodCIDRRepresentationAggregate"
  shows "deleteStalePodCIDRAggregates (Netbox env c) (resolveManagedTagSlug spec) w = (Err e, w1) \<Longrightarrow>
      reconcilePodCIDR env req w =
        bind (syncPodCIDRStatus env (resolveManagedTagSlug spec) spec (Some e)) (\<lambda>_. ret no_requeue) w1"
    and "deleteStalePodCIDRAggregates (Netbox env c) (resolveManagedTagSlug spec) w = (Ok (), w1) \<Longrightarrow>
      GetNode env (rq_Name req) w1 = (Ok node, w2) \<Longrightarrow>
      reconcilePodCIDR env req w = if_err (prefix_work (Netbox env c) spec node)
        (\<lambda>e. bind (syncPodCIDRStatus env (resolveManagedTagSlug spec) spec (Some e)) (\<lambda>_. ret no_requeue))
        (\<lambda>_. bind (syncPodCIDRStatus env (resolveManagedTagSlug spec) spec None)
          (\<lambda>_. ret \<lparr>RequeueAfter = resolveResyncInterval spec\<rparr>)) w2"
  by (simp_all add: reconcilePodCIDR_def reconcilePrefixForNode_def bind_StoreGet assms Let_def
      if_err_apply[where m = "deleteStalePodCIDRAggregates _ _"] if_err_apply(1)[where m = "GetNode _ _"] prefix_work_def)

lemma aggregates_run_work:
  assumes "sto_spec (w_store w) = Some spec" and "sto_client (w_store w) = Some c"
    and "pc_Representation (rc_PodCIDRs (hs_Resources spec)) = PodCIDRRepresentationAggregate"
  shows "reconcilePodCIDR env req w = if_err (syncAggregates env (Netbox env c) (resolveManagedTagSlug spec) spec)
    (\<lambda>e. bind (syncPodCIDRStatus env (resolveManagedTagSlug spec) spec (Some e)) (\<lambda>_. ret no_requeue))
    (\<lambda>_. bind (syncPodCIDRStatus env (resolveManagedTagSlug spec) spec None)
      (\<lambda>_. ret \<lparr>RequeueAfter = resolveResyncInterval spec\<rparr>)) w"
  by (simp add: reconcilePodCIDR_def reconcileAggregates_def bind_StoreGet assms Let_def)

text \<open>A sync in NetBox followed by the status sync of its type, for each of the three types.\<close>

lemma sync_told:
  assumes ext: "externals_keep C env" and ans: "kube_answers env C" and m: "keeps C m" and u: "C u"
  shows "told env i (\<lambda>s. st_Nodes_update (\<lambda>_. s)) (fst (m u)) (if_err m
        (\<lambda>e. bind (syncNodesStatus env slug spec (Some e)) (\<lambda>_. ret no_requeue))
        (\<lambda>_. bind (syncNodesStatus env slug spec None) (\<lambda>_. ret \<lparr>RequeueAfter = i\<rparr>)) u)"
    and "told env i (\<lambda>s. st_Services_update (\<lambda>_. s)) (fst (m u)) (if_err m
        (\<lambda>e. bind (syncServicesStatus env slug spec (Some e)) (\<lambda>_. ret no_requeue))
        (\<lambda>_. bind (syncServicesStatus env slug spec None) (\<lambda>_. ret \<lparr>RequeueAfter = i\<rparr>)) u)"
    and "told env i (\<lambda>s. st_PodCIDRs_update (\<lambda>_. s)) (fst (m u)) (if_err m
        (\<lambda>e. bind (syncPodCIDRStatus env slug spec (Some e)) (\<lambda>_. ret no_requeue))
        (\<lambda>_. bind (syncPodCIDRStatus env slug spec None) (\<lambda>_. ret \<lparr>RequeueAfter = i\<rparr>)) u)"
proof -
  have kube: "kube_keeps C env" and api: "\<And>c. api_keeps C (Netbox env c)" using ext by (simp_all add: externals_keep_def)
  note count = counting_keeps[OF api]
  have gen: "told env i put (fst (m u)) (if_err m (\<lambda>e. bind (report_sync env en n put (Some e)) (\<lambda>_. ret no_requeue))
        (\<lambda>_. bind (report_sync env en n put None) (\<lambda>_. ret \<lparr>RequeueAfter = i\<rparr>)) u)"
    if "\<And>c. keeps C (n (Netbox env c))" for n put en
    by (rule work_told[where sts = "report_sync env en n put", OF m u report_sync_told[where count = n, OF kube that ans]])
  show "told env i (\<lambda>s. st_Nodes_update (\<lambda>_. s)) (fst (m u)) (if_err m
        (\<lambda>e. bind (syncNodesStatus env slug spec (Some e)) (\<lambda>_. ret no_requeue))
        (\<lambda>_. bind (syncNodesStatus env slug spec None) (\<lambda>_. ret \<lparr>RequeueAfter = i\<rparr>)) u)"
    "told env i (\<lambda>s. st_Services_update (\<lambda>_. s)) (fst (m u)) (if_err m
        (\<lambda>e. bind (syncServicesStatus env slug spec (Some e)) (\<lambda>_. ret no_requeue))
        (\<lambda>_. bind (syncServicesStatus env slug spec None) (\<lambda>_. ret \<lparr>RequeueAfter = i\<rparr>)) u)"
    "told env i (\<lambda>s. st_PodCIDRs_update (\<lambda>_. s)) (fst (m u)) (if_err m
        (\<lambda>e. bind (syncPodCIDRStatus env slug spec (Some e)) (\<lambda>_. ret no_requeue))
        (\<lambda>_. bind (syncPodCIDRStatus env slug spec None) (\<lambda>_. ret \<lparr>RequeueAfter = i\<rparr>)) u)"
    unfolding status_syncs_eq count_nodes_def[symmetric] count_podcidrs_def[symmetric]
    by (rule gen, rule count)+
qed

lemma stale_told:
  assumes "externals_keep C env" and "kube_answers env C" and "C u"
  shows "told env i (\<lambda>s. st_PodCIDRs_update (\<lambda>_. s)) (Err e)
    (bind (syncPodCIDRStatus env slug spec (Some e)) (\<lambda>_. ret no_requeue) u)"
  using sync_told(3)[OF assms(1,2) keeps_fail assms(3), of i e] by (simp add: if_err_def fail_def)


text \<open>In memory: a Service with an ingress address that is none.\<close>

definition bad_service :: service where
  "bad_service = demo_service\<lparr>svc_Ingress := [''10.0.0'']\<rparr>"

definition bad_world :: memory where
  "bad_world = live_world\<lparr>k_services := [bad_service]\<rparr>"

lemma bad_sync: "fst (syncServiceAddresses (mem_api 50) demo_slug bad_service bad_world) =
    Err (Errorf ''service %s/%s: %w'' [AStr ''ns'', AStr ''web'', AErr (Errorf ''invalid IP address %q'' [AStr ''10.0.0''])])"
proof -
  have "cidrForIP ''10.0.0'' = Inl (Errorf ''invalid IP address %q'' [AStr ''10.0.0''])" by code_simp
  then show ?thesis by (simp add: bad_world_def bad_service_def live_world_def run_simps)
qed

definition configured :: "memory \<Rightarrow> bool" where
  "configured w \<longleftrightarrow> w_store w = w_store live_world \<and> k_config w \<noteq> None"

lemma configured_mem: "externals_keep configured (mem_env 50)" "kube_answers (mem_env 50) configured"
proof -
  have "api_keeps configured (mem_api 50)"
    unfolding configured_def by (rule mem_keeps_rest[where P = "\<lambda>st cr _ _ _. st = w_store live_world \<and> cr \<noteq> None"])
  moreover have "kube_keeps configured (mem_env 50)"
    unfolding kube_keeps_def
    by (intro conjI allI)
      (simp_all add: mem_env_def keeps_existing keeps_ret, simp_all add: keeps_def triple_def mem_update_status_def
        configured_def Let_def split: option.split)
  ultimately show "externals_keep configured (mem_env 50)" by (simp add: externals_keep_def mem_env_def)
  show "kube_answers (mem_env 50) configured"
    by (auto simp: kube_answers_def succeeds_def triple_def mem_env_def existing_def mem_update_status_def configured_def
        live_store Let_def)
qed


end
