(* ===== verification/Watches.thy ===== *)
theory Watches
  imports Reconcilers
begin

text \<open>
  The \<open>SetupWithManager\<close> methods of the five reconcilers: what each controller is called for.
  A controller is declared with controller-runtime's builder, so a declaration is a record. What
  controller-runtime does with it is a parameter, \<open>'x runtime\<close>; \<open>documented\<close> is what its
  documentation says of predicates and handlers, as far as these declarations use them.
\<close>

section \<open>Events\<close>

datatype object_kind = KHeraldConfig | KNode | KService

text \<open>The metadata of a watched object.\<close>

record object_meta =
  om_Kind :: object_kind
  om_Namespace :: string
  om_Name :: string
  om_Generation :: int

datatype event = CreateEvent object_meta | UpdateEvent object_meta object_meta | DeleteEvent object_meta

fun event_object :: "event \<Rightarrow> object_meta" where
  "event_object (CreateEvent x) = x"
| "event_object (UpdateEvent old new) = new"
| "event_object (DeleteEvent x) = x"

section \<open>Declarations\<close>

datatype predicate = GenerationChangedPredicate

record watch =
  wt_Object :: object_kind
  wt_Predicates :: "predicate list"

record 'x controller =
  ct_Name :: string
  ct_For :: watch
  ct_Watches :: "(watch \<times> ('x world_scheme, request list) go) list"
  ct_Reconcile :: "request \<Rightarrow> ('x world_scheme, result) go"

text \<open>A watch on HeraldConfig that ignores changes of its status.\<close>

abbreviation config_spec_changes :: watch where
  "config_spec_changes \<equiv> \<lparr>wt_Object = KHeraldConfig, wt_Predicates = [GenerationChangedPredicate]\<rparr>"

abbreviation every_change :: "object_kind \<Rightarrow> watch" where
  "every_change k \<equiv> \<lparr>wt_Object = k, wt_Predicates = []\<rparr>"

definition setupHeraldConfig :: "('x, 'v) env \<Rightarrow> 'x controller" where
  "setupHeraldConfig env =
     \<lparr>ct_Name = ''heraldconfig'', ct_For = config_spec_changes, ct_Watches = [],
      ct_Reconcile = reconcileHeraldConfig env\<rparr>"

definition setupCluster :: "('x, 'v) env \<Rightarrow> 'x controller" where
  "setupCluster env =
     \<lparr>ct_Name = ''cluster'', ct_For = config_spec_changes, ct_Watches = [],
      ct_Reconcile = reconcileCluster env\<rparr>"

definition setupNode :: "('x, 'v) env \<Rightarrow> 'x controller" where
  "setupNode env =
     \<lparr>ct_Name = ''node'', ct_For = every_change KNode,
      ct_Watches = [(config_spec_changes, enqueueAllNodes env)], ct_Reconcile = reconcileNode env\<rparr>"

definition setupService :: "('x, 'v) env \<Rightarrow> 'x controller" where
  "setupService env =
     \<lparr>ct_Name = ''service'', ct_For = every_change KService,
      ct_Watches = [(config_spec_changes, enqueueAllServices env)], ct_Reconcile = reconcileService env\<rparr>"

definition setupPodCIDR :: "('x, 'v) env \<Rightarrow> 'x controller" where
  "setupPodCIDR env =
     \<lparr>ct_Name = ''podcidr'', ct_For = every_change KNode,
      ct_Watches = [(config_spec_changes, enqueueAllNodesForPodCIDRs env)], ct_Reconcile = reconcilePodCIDR env\<rparr>"

fun SetupWithManager :: "reconciler \<Rightarrow> ('x, 'v) env \<Rightarrow> 'x controller" where
  "SetupWithManager HeraldConfigReconciler = setupHeraldConfig"
| "SetupWithManager ClusterReconciler = setupCluster"
| "SetupWithManager NodeReconciler = setupNode"
| "SetupWithManager ServiceReconciler = setupService"
| "SetupWithManager PodCIDRReconciler = setupPodCIDR"

lemmas setups = setupHeraldConfig_def setupCluster_def setupNode_def setupService_def setupPodCIDR_def

text \<open>Each method completes its builder with the reconciler it belongs to.\<close>

lemma setup_reconcile: "ct_Reconcile (SetupWithManager r env) = reconcile r env"
  by (cases r) (simp_all add: setups)

section \<open>The runtime\<close>

text \<open>
  \<open>Passes\<close> is the decision of a predicate on an event. \<open>Enqueue\<close> is what an event does to the
  queue of a controller: the requests it adds. A list function may be called for it.
\<close>

record 'x runtime =
  Passes :: "predicate \<Rightarrow> event \<Rightarrow> bool"
  Enqueue :: "'x controller \<Rightarrow> event \<Rightarrow> ('x world_scheme, request list) go"

definition admits :: "'x runtime \<Rightarrow> event \<Rightarrow> watch \<Rightarrow> bool" where
  "admits rt ev wt \<longleftrightarrow> wt_Object wt = om_Kind (event_object ev) \<and> (\<forall>p \<in> set (wt_Predicates wt). Passes rt p ev)"

definition request_for :: "object_meta \<Rightarrow> request" where
  "request_for x = \<lparr>rq_Namespace = om_Namespace x, rq_Name = om_Name x\<rparr>"

text \<open>\<open>EnqueueRequestsFromMapFunc\<close> calls its function on the object of an event; for an update it
  does so for the old and the new one.\<close>

fun mapped :: "event \<Rightarrow> ('x world_scheme, request list) go \<Rightarrow> ('x world_scheme, request list) go" where
  "mapped (UpdateEvent old new) f = bind f (\<lambda>qs. bind f (\<lambda>qs'. ret (qs @ qs')))"
| "mapped (CreateEvent x) f = f"
| "mapped (DeleteEvent x) f = f"

text \<open>
  What controller-runtime documents. \<open>GenerationChangedPredicate\<close> drops an update that leaves
  \<open>metadata.generation\<close> as it was and nothing else. An event that passes no source of a
  controller adds nothing to its queue, one that passes the \<open>For\<close> source adds a request for the
  object, and one that passes a \<open>Watches\<close> source adds what the function returns.
\<close>

definition documented :: "'x runtime \<Rightarrow> bool" where
  "documented rt \<longleftrightarrow>
     (\<forall>x y. (Passes rt GenerationChangedPredicate (UpdateEvent x y) \<longleftrightarrow> om_Generation x \<noteq> om_Generation y) \<and>
        Passes rt GenerationChangedPredicate (CreateEvent x) \<and> Passes rt GenerationChangedPredicate (DeleteEvent x)) \<and>
     (\<forall>c ev w. let woken = map snd (filter (\<lambda>(wt, _). admits rt ev wt) (ct_Watches c)) in
        (\<not> admits rt ev (ct_For c) \<longrightarrow> woken = [] \<longrightarrow> Enqueue rt c ev w = (Ok [], w)) \<and>
        (admits rt ev (ct_For c) \<longrightarrow> woken = [] \<longrightarrow>
           Enqueue rt c ev w = (Ok [request_for (event_object ev)], w)) \<and>
        (\<forall>f qs w'. \<not> admits rt ev (ct_For c) \<longrightarrow> woken = [f] \<longrightarrow> mapped ev f w = (Ok qs, w') \<longrightarrow>
           (\<exists>qs'. Enqueue rt c ev w = (Ok qs', w') \<and> set qs' = set qs)))"

lemma documented_passes:
  assumes "documented rt"
  shows "Passes rt GenerationChangedPredicate (UpdateEvent x y) \<longleftrightarrow> om_Generation x \<noteq> om_Generation y"
    and "Passes rt GenerationChangedPredicate (CreateEvent x)"
    and "Passes rt GenerationChangedPredicate (DeleteEvent x)"
  using assms unfolding documented_def by blast+

lemma documented_enqueue:
  assumes "documented rt"
  shows "\<lbrakk>\<not> admits rt ev (ct_For c); filter (\<lambda>(wt, _). admits rt ev wt) (ct_Watches c) = []\<rbrakk> \<Longrightarrow>
      Enqueue rt c ev w = (Ok [], w)"
    and "\<lbrakk>admits rt ev (ct_For c); filter (\<lambda>(wt, _). admits rt ev wt) (ct_Watches c) = []\<rbrakk> \<Longrightarrow>
      Enqueue rt c ev w = (Ok [request_for (event_object ev)], w)"
    and "\<lbrakk>\<not> admits rt ev (ct_For c); filter (\<lambda>(wt, _). admits rt ev wt) (ct_Watches c) = [(wt, f)];
        mapped ev f w = (Ok qs, w')\<rbrakk> \<Longrightarrow>
      \<exists>qs'. Enqueue rt c ev w = (Ok qs', w') \<and> set qs' = set qs"
  using assms unfolding documented_def Let_def by simp_all

text \<open>A runtime that does what is documented.\<close>

definition plain_runtime :: "'x runtime" where
  "plain_runtime =
     (let passes = (\<lambda>p ev. case ev of UpdateEvent x y \<Rightarrow> om_Generation x \<noteq> om_Generation y | _ \<Rightarrow> True);
          source = (\<lambda>ev wt. wt_Object wt = om_Kind (event_object ev) \<and> list_all (\<lambda>p. passes p ev) (wt_Predicates wt)) in
      \<lparr>Passes = passes,
       Enqueue = (\<lambda>c ev. case map snd (filter (\<lambda>(wt, _). source ev wt) (ct_Watches c)) of
           [] \<Rightarrow> ret (if source ev (ct_For c) then [request_for (event_object ev)] else [])
         | f # _ \<Rightarrow> mapped ev f)\<rparr>)"

lemma plain_admits:
  "admits plain_runtime ev wt \<longleftrightarrow> wt_Object wt = om_Kind (event_object ev) \<and>
     list_all (\<lambda>p. case ev of UpdateEvent x y \<Rightarrow> om_Generation x \<noteq> om_Generation y | _ \<Rightarrow> True) (wt_Predicates wt)"
  by (simp add: admits_def plain_runtime_def list_all_iff Let_def)

lemma documented_plain: "documented plain_runtime"
  unfolding documented_def plain_admits
  by (auto simp: plain_runtime_def Let_def ret_apply split: event.split)

end
