(* ===== verification/Watch_Properties.thy ===== *)
theory Watch_Properties
  imports Watches Failure_Properties
begin

text \<open>
  What wakes the reconcilers: the requests an event adds to their queues, and what becomes of a
  change of the HeraldConfig that reaches a resource reconciler before the store does.
\<close>

section \<open>Who is woken\<close>

lemma admits_every_change [simp]: "admits rt ev (every_change k) \<longleftrightarrow> om_Kind (event_object ev) = k"
  by (auto simp: admits_def)

lemma admits_config_spec [simp]:
  "admits rt ev config_spec_changes \<longleftrightarrow>
     om_Kind (event_object ev) = KHeraldConfig \<and> Passes rt GenerationChangedPredicate ev"
  by (auto simp: admits_def)

text \<open>The events that change what a HeraldConfig asks for: it appears, goes, or its generation changes.\<close>

fun spec_event :: "event \<Rightarrow> bool" where
  "spec_event (UpdateEvent old new) = (om_Generation old \<noteq> om_Generation new)"
| "spec_event (CreateEvent x) = True"
| "spec_event (DeleteEvent x) = True"

lemma passes_spec_event: "documented rt \<Longrightarrow> Passes rt GenerationChangedPredicate ev \<longleftrightarrow> spec_event ev"
  by (cases ev) (simp_all add: documented_passes)

definition node_request :: "node \<Rightarrow> request" where
  "node_request n = \<lparr>rq_Namespace = [], rq_Name = nod_Name n\<rparr>"

definition service_request :: "service \<Rightarrow> request" where
  "service_request s = \<lparr>rq_Namespace = svc_Namespace s, rq_Name = svc_Name s\<rparr>"

lemma mapped_listing:
  assumes "f w = (Ok qs, w)"
  shows "\<exists>qs'. mapped ev f w = (Ok qs', w) \<and> set qs' = set qs"
  by (cases ev) (simp_all add: bind_def if_err_def ret_def assms)

lemma woken_by_config:
  assumes rt: "documented rt" and kind: "om_Kind (event_object ev) = KHeraldConfig" and ev: "spec_event ev"
    and c: "ct_For c = every_change k" "k \<noteq> KHeraldConfig" "ct_Watches c = [(config_spec_changes, f)]"
    and f: "f w = (Ok qs, w)"
  shows "\<exists>qs'. Enqueue rt c ev w = (Ok qs', w) \<and> set qs' = set qs"
proof -
  obtain qs1 where m: "mapped ev f w = (Ok qs1, w)" and qs1: "set qs1 = set qs" using mapped_listing[of f w qs ev, OF f] by blast
  have "\<exists>qs'. Enqueue rt c ev w = (Ok qs', w) \<and> set qs' = set qs1"
    by (rule documented_enqueue(3)[OF rt _ _ m]) (use c(2) in \<open>auto simp: c(1,3) kind passes_spec_event[OF rt] ev\<close>)
  then show ?thesis by (simp add: qs1)
qed

lemma list_requests:
  "ListNodes env w = (Ok nodes, w) \<Longrightarrow> enqueueAllNodes env w = (Ok (map node_request nodes), w)"
  "ListNodes env w = (Ok nodes, w) \<Longrightarrow> enqueueAllNodesForPodCIDRs env w = (Ok (map node_request nodes), w)"
  "ListServices env w = (Ok services, w) \<Longrightarrow> enqueueAllServices env w = (Ok (map service_request services), w)"
  by (simp_all add: enqueueAllNodes_def enqueueAllNodesForPodCIDRs_def enqueueAllServices_def if_err_def ret_def
    node_request_def[abs_def] service_request_def[abs_def])

text \<open>An update that leaves the generation alone passes no source.\<close>

lemma own_writes_wake_nobody:
  assumes rt: "documented rt" and kind: "om_Kind new = KHeraldConfig" and gen: "om_Generation old = om_Generation new"
  shows "Enqueue rt (SetupWithManager r env) (UpdateEvent old new) w = (Ok [], w)"
  by (rule documented_enqueue(1)[OF rt]; cases r)
    (simp_all add: setups kind passes_spec_event[OF rt] gen)

text \<open>C18: when a HeraldConfig is created, deleted or changed in generation, the HeraldConfig and cluster
  reconcilers are asked to run for it, the Node and pod CIDR reconcilers for every Node and the
  Service reconciler for every Service, and none for anything else. An update that leaves the
  generation as it was, as every update of the status does, wakes no reconciler: what the
  reconcilers write themselves never triggers them.\<close>

theorem config_change_wakes:
  assumes rt: "documented rt" and kind: "om_Kind (event_object ev) = KHeraldConfig"
    and nodes: "ListNodes env w = (Ok nodes, w)" and services: "ListServices env w = (Ok services, w)"
  shows "\<exists>qs. Enqueue rt (SetupWithManager r env) ev w = (Ok qs, w) \<and>
    set qs = (if spec_event ev then (case r of HeraldConfigReconciler \<Rightarrow> {request_for (event_object ev)}
      | ClusterReconciler \<Rightarrow> {request_for (event_object ev)}
      | NodeReconciler \<Rightarrow> node_request ` set nodes
      | ServiceReconciler \<Rightarrow> service_request ` set services
      | PodCIDRReconciler \<Rightarrow> node_request ` set nodes) else {})"
proof (cases "spec_event ev")
  case False
  then have "Enqueue rt (SetupWithManager r env) ev w = (Ok [], w)"
    using kind by (cases ev) (simp_all add: own_writes_wake_nobody[OF rt])
  with False show ?thesis by simp
next
  case ev: True
  have by_map: "\<exists>qs'. Enqueue rt c ev w = (Ok qs', w) \<and> set qs' = set qs"
    if "ct_For c = every_change k" "k \<noteq> KHeraldConfig" "ct_Watches c = [(config_spec_changes, f)]" "f w = (Ok qs, w)"
    for c k f qs
    by (rule woken_by_config[where f = f, OF rt kind ev that])
  have for_config: "Enqueue rt c ev w = (Ok [request_for (event_object ev)], w)"
    if "ct_For c = config_spec_changes" "ct_Watches c = []" for c
    by (rule documented_enqueue(2)[OF rt]) (simp_all add: that kind passes_spec_event[OF rt] ev)
  show ?thesis
  proof (cases r)
    case HeraldConfigReconciler
    then show ?thesis by (simp add: for_config setups ev)
  next
    case ClusterReconciler
    then show ?thesis by (simp add: for_config setups ev)
  next
    case NodeReconciler
    then show ?thesis
      using by_map[of "setupNode env" KNode "enqueueAllNodes env", OF _ _ _ list_requests(1)[OF nodes]] by (simp add: setupNode_def ev)
  next
    case ServiceReconciler
    then show ?thesis
      using by_map[of "setupService env" KService "enqueueAllServices env", OF _ _ _ list_requests(3)[OF services]] by (simp add: setupService_def ev)
  next
    case PodCIDRReconciler
    then show ?thesis
      using by_map[of "setupPodCIDR env" KNode "enqueueAllNodesForPodCIDRs env", OF _ _ _ list_requests(2)[OF nodes]] by (simp add: setupPodCIDR_def ev)
  qed
qed

theorem config_change_wakes_witness:
  "\<exists>qs. Enqueue plain_runtime (SetupWithManager PodCIDRReconciler (mem_env 50))
      (UpdateEvent \<lparr>om_Kind = KHeraldConfig, om_Namespace = [], om_Name = ''default'', om_Generation = 1\<rparr>
        \<lparr>om_Kind = KHeraldConfig, om_Namespace = [], om_Name = ''default'', om_Generation = 2\<rparr>) live_world = (Ok qs, live_world) \<and>
    set qs = {\<lparr>rq_Namespace = [], rq_Name = ''node-1''\<rparr>}"
proof -
  have "ListNodes (mem_env 50) live_world = (Ok [demo_node], live_world)"
    and "ListServices (mem_env 50) live_world = (Ok [demo_service], live_world)"
    by (simp_all add: mem_env_def live_world_def)
  from config_change_wakes[OF documented_plain _ this, of "UpdateEvent
      \<lparr>om_Kind = KHeraldConfig, om_Namespace = [], om_Name = ''default'', om_Generation = 1\<rparr>
      \<lparr>om_Kind = KHeraldConfig, om_Namespace = [], om_Name = ''default'', om_Generation = 2\<rparr>" PodCIDRReconciler]
  show ?thesis by (simp add: node_request_def demo_node_def)
qed

section \<open>A change that arrives too early\<close>

text \<open>
  A change of the HeraldConfig wakes the resource reconcilers at the moment it wakes the
  HeraldConfig reconciler, which publishes it only after its calls to NetBox. A Service or Node that
  is reconciled before that is synced by the spec of the store. \<open>K\<close> says that Kubernetes has the
  changed HeraldConfig.
\<close>

definition sees :: "('x, 'v) env \<Rightarrow> ('x world_scheme \<Rightarrow> bool) \<Rightarrow> HeraldConfigSpec \<Rightarrow> 64 word \<Rightarrow> bool" where
  "sees env K new g \<longleftrightarrow> externals_keep K env \<and>
     triple K (GetHeraldConfig env singletonName) (\<lambda>cr _. hc_Spec cr = new \<and> hc_Generation cr = g) (\<lambda>e _. \<not> IsNotFound e)"

text \<open>The last call of the run wrote the status of a successful sync into the changed HeraldConfig.\<close>

definition status_of_success :: "('x, 'v) env \<Rightarrow> bool \<Rightarrow> (ResourceSyncStatus \<Rightarrow> ResourceStatuses \<Rightarrow> ResourceStatuses) \<Rightarrow>
    HeraldConfigSpec \<Rightarrow> 64 word \<Rightarrow> 'x world_scheme \<Rightarrow> bool" where
  "status_of_success env enabled put new g w' \<longleftrightarrow> (\<exists>cr status u x. hc_Spec cr = new \<and> hc_Generation cr = g \<and>
     ss_Enabled status = enabled \<and> ss_ObservedGeneration status = g \<and>
     ss_LastError status = Literal [] \<and> ss_LastSyncTime status \<noteq> None \<and>
     UpdateStatus env (cr\<lparr>hc_Status := (hc_Status cr)\<lparr>hc_Resources := put status (hc_Resources (hc_Status cr))\<rparr>\<rparr>) u = (Ok x, w'))"

lemma early_status:
  assumes sees: "sees env K new g" and client: "sto_client (w_store w) = Some c" and w: "K w"
    and "reported env enabled count n put None w w'"
  shows "status_of_success env enabled put new g w'"
proof -
  from assms(4) obtain got w1 where get: "GetHeraldConfig env singletonName w = (got, w1)"
    and rep: "case (got, sto_client (w_store w)) of
        (Ok cr, Some c) \<Rightarrow> \<exists>status u x. tells enabled cr (fst (count (Netbox env c) w1)) n None status \<and>
          UpdateStatus env (cr\<lparr>hc_Status := (hc_Status cr)
            \<lparr>hc_Resources := put status (hc_Resources (hc_Status cr))\<rparr>\<rparr>) u = (Ok x, w')
      | (Ok cr, None) \<Rightarrow> w' = w1 | (Err e, _) \<Rightarrow> IsNotFound e \<and> w' = w1 | (Panic, _) \<Rightarrow> False"
    unfolding reported_def by blast
  have see: "triple K (GetHeraldConfig env singletonName) (\<lambda>cr _. hc_Spec cr = new \<and> hc_Generation cr = g) (\<lambda>e _. \<not> IsNotFound e)"
    using sees by (simp add: sees_def)
  show ?thesis
  proof (cases got)
    case (Ok cr)
    with see w get have "hc_Spec cr = new \<and> hc_Generation cr = g" by (auto simp: triple_def)
    with rep Ok client show ?thesis unfolding status_of_success_def tells_def by auto
  next
    case (Err e)
    with see w get rep client show ?thesis by (auto simp: triple_def)
  qed (use rep in simp)
qed

lemma early_run:
  assumes sees: "sees env K new g" and client: "sto_client s = Some c"
    and work: "keeps (\<lambda>w. K w \<and> w_store w = s) work" and w: "K w" "w_store w = s"
    and run: "if_err work (\<lambda>e. bind (sts (Some e)) (\<lambda>_. ret no_requeue)) (\<lambda>_. bind (sts None) (\<lambda>_. ret \<lparr>RequeueAfter = i\<rparr>)) w = (Ok r, w')"
    and again: "RequeueAfter r \<noteq> 0"
    and rep: "\<And>u u'. sts None u = (Ok (), u') \<Longrightarrow> reported env enabled count (n u) put None u u'"
  shows "status_of_success env enabled put new g w'"
  using run
proof (cases rule: if_err_OkE)
  case (err e w1)
  from err(2) again show ?thesis by (elim bind_OkE ret_OkE) (simp add: no_requeue_def)
next
  case (ok x w1)
  have "K w1 \<and> w_store w1 = s" by (rule keeps_OkD[OF work _ ok(1)]) (simp add: w)
  moreover from ok(2) have "sts None w1 = (Ok (), w')" by (auto elim!: bind_OkE ret_OkE)
  ultimately show ?thesis using early_status[OF sees _ _ rep] client by blast
qed


text \<open>
  In memory: the HeraldConfig no longer enables Services and Nodes, the store does; the Service
  is recorded all the same.
\<close>

definition quiet_spec :: HeraldConfigSpec where
  "quiet_spec = demo_spec\<lparr>hs_Resources := (hs_Resources demo_spec)
     \<lparr>rc_Services := \<lparr>sv_Enabled = False, sv_RetainOnDisable = False\<rparr>\<rparr>\<rparr>"

definition changed_world :: memory where
  "changed_world = live_world\<lparr>k_config := Some (demo_config\<lparr>hc_Generation := 2, hc_Spec := quiet_spec\<rparr>)\<rparr>"

definition changed :: "memory \<Rightarrow> bool" where
  "changed w \<longleftrightarrow> (\<exists>cr. k_config w = Some cr \<and> hc_Spec cr = quiet_spec \<and> hc_Generation cr = 2)"

lemma sees_changed: "sees (mem_env 50) changed quiet_spec 2"
proof -
  have "api_keeps changed (mem_api 50)"
    unfolding changed_def
    by (rule mem_keeps_rest[where P = "\<lambda>_ cr _ _ _. \<exists>c. cr = Some c \<and> hc_Spec c = quiet_spec \<and> hc_Generation c = 2"])
  moreover have "kube_keeps changed (mem_env 50)"
    unfolding kube_keeps_def
    by (intro conjI allI)
      (simp_all add: mem_env_def keeps_existing keeps_ret, simp_all add: keeps_def triple_def mem_update_status_def
        changed_def Let_def split: option.split)
  ultimately show ?thesis
    by (auto simp: sees_def externals_keep_def triple_def mem_env_def existing_def changed_def split: option.splits)
qed

lemma changed_run: "fst (reconcileService (mem_env 50) \<lparr>rq_Namespace = ''ns'', rq_Name = ''web''\<rparr> changed_world) =
    Ok \<lparr>RequeueAfter = 60000000000\<rparr>"
  by (simp add: changed_world_def demo_config_def live_world_def run_simps)


end
