(* ===== verification/Operator_Main.thy ===== *)
theory Operator_Main
  imports Watches Manager
begin

text \<open>
  \<open>cmd/main.go\<close>: the flags, the options of the two HTTP servers and of the manager, and the
  wiring of the five reconcilers to one store. Reading the flags is Go's \<open>flag\<close> package. The
  manager, the environment variables and the Kubernetes configuration are the parameter
  \<open>process\<close>; \<open>os.Exit\<close> and the end of \<open>main\<close> are an exit code.
\<close>

section \<open>Flags\<close>

record main_flags =
  metricsAddr :: string
  probeAddr :: string
  enableLeaderElection :: bool
  secureMetrics :: bool
  webhookCertPath :: string
  webhookCertName :: string
  webhookCertKey :: string
  metricsCertPath :: string
  metricsCertName :: string
  metricsCertKey :: string
  enableHTTP2 :: bool

definition default_flags :: main_flags where
  "default_flags =
     \<lparr>metricsAddr = ''0'', probeAddr = '':8081'', enableLeaderElection = False, secureMetrics = True,
      webhookCertPath = [], webhookCertName = ''tls.crt'', webhookCertKey = ''tls.key'',
      metricsCertPath = [], metricsCertName = ''tls.crt'', metricsCertKey = ''tls.key'', enableHTTP2 = False\<rparr>"

text \<open>A declared flag: a string or a bool variable of \<open>main\<close>, or a flag a library has declared.\<close>

datatype flag_var =
    StringVar "string \<Rightarrow> main_flags \<Rightarrow> main_flags"
  | BoolVar "bool \<Rightarrow> main_flags \<Rightarrow> main_flags"
  | LibraryVar bool "string \<Rightarrow> bool"

definition main_vars :: "(string \<times> flag_var) list" where
  "main_vars =
     [(''metrics-bind-address'', StringVar (\<lambda>s. metricsAddr_update (\<lambda>_. s))),
      (''health-probe-bind-address'', StringVar (\<lambda>s. probeAddr_update (\<lambda>_. s))),
      (''leader-elect'', BoolVar (\<lambda>b. enableLeaderElection_update (\<lambda>_. b))),
      (''metrics-secure'', BoolVar (\<lambda>b. secureMetrics_update (\<lambda>_. b))),
      (''webhook-cert-path'', StringVar (\<lambda>s. webhookCertPath_update (\<lambda>_. s))),
      (''webhook-cert-name'', StringVar (\<lambda>s. webhookCertName_update (\<lambda>_. s))),
      (''webhook-cert-key'', StringVar (\<lambda>s. webhookCertKey_update (\<lambda>_. s))),
      (''metrics-cert-path'', StringVar (\<lambda>s. metricsCertPath_update (\<lambda>_. s))),
      (''metrics-cert-name'', StringVar (\<lambda>s. metricsCertName_update (\<lambda>_. s))),
      (''metrics-cert-key'', StringVar (\<lambda>s. metricsCertKey_update (\<lambda>_. s))),
      (''enable-http2'', BoolVar (\<lambda>b. enableHTTP2_update (\<lambda>_. b)))]"

text \<open>
  \<open>flag.Parse\<close>. Flags of libraries (zap, the kubeconfig flag) are the parameter \<open>lib\<close>: whether
  the flag is a bool flag and whether it accepts a value. \<open>strconv.ParseBool\<close> reads the bools.
\<close>

type_synonym library_flags = "string \<Rightarrow> (bool \<times> (string \<Rightarrow> bool)) option"

definition lookup_flag :: "library_flags \<Rightarrow> string \<Rightarrow> flag_var option" where
  "lookup_flag lib n = (case map_of main_vars n of
     Some v \<Rightarrow> Some v
   | None \<Rightarrow> map_option (\<lambda>(is_bool, accepts). LibraryVar is_bool accepts) (lib n))"

definition ParseBool :: "string \<Rightarrow> bool option" where
  "ParseBool s =
     (if s \<in> {''1'', ''t'', ''T'', ''TRUE'', ''true'', ''True''} then Some True
      else if s \<in> {''0'', ''f'', ''F'', ''FALSE'', ''false'', ''False''} then Some False else None)"

fun is_bool_flag :: "flag_var \<Rightarrow> bool" where
  "is_bool_flag (StringVar _) = False"
| "is_bool_flag (BoolVar _) = True"
| "is_bool_flag (LibraryVar b _) = b"

fun set_flag :: "flag_var \<Rightarrow> string \<Rightarrow> main_flags \<Rightarrow> main_flags option" where
  "set_flag (StringVar f) s = (\<lambda>fl. Some (f s fl))"
| "set_flag (BoolVar f) s = (\<lambda>fl. map_option (\<lambda>b. f b fl) (ParseBool s))"
| "set_flag (LibraryVar _ accepts) s = (\<lambda>fl. if accepts s then Some fl else None)"

text \<open>The name of an argument that is a flag, with the dashes gone; None ends the flags.\<close>

definition flag_text :: "string \<Rightarrow> string option" where
  "flag_text s =
     (if length s < 2 \<or> hd s \<noteq> CHR ''-'' \<or> s = ''--'' then None
      else Some (if s ! 1 = CHR ''-'' then drop 2 s else tl s))"

text \<open>A flag at its first \<open>=\<close>.\<close>

definition split_flag :: "string \<Rightarrow> string \<times> string option" where
  "split_flag s =
     (takeWhile (\<lambda>c. c \<noteq> CHR ''='') s,
      case dropWhile (\<lambda>c. c \<noteq> CHR ''='') s of [] \<Rightarrow> None | _ # v \<Rightarrow> Some v)"

text \<open>\<open>FlagSet.Parse\<close> with \<open>ExitOnError\<close>: the flags, or the exit code (0 for help, else 2).\<close>

fun flag_Parse :: "library_flags \<Rightarrow> main_flags \<Rightarrow> string list \<Rightarrow> int + main_flags" where
  "flag_Parse lib fl [] = Inr fl"
| "flag_Parse lib fl (s # args) = (case flag_text s of
     None \<Rightarrow> Inr fl
   | Some t \<Rightarrow>
       if t = [] \<or> hd t = CHR ''-'' \<or> hd t = CHR ''='' then Inl 2
       else let (name, value) = split_flag t in
         case lookup_flag lib name of
           None \<Rightarrow> Inl (if name = ''help'' \<or> name = ''h'' then 0 else 2)
         | Some var \<Rightarrow>
             case value of
               Some v \<Rightarrow> (case set_flag var v fl of None \<Rightarrow> Inl 2 | Some fl' \<Rightarrow> flag_Parse lib fl' args)
             | None \<Rightarrow>
                 if is_bool_flag var
                 then case set_flag var ''true'' fl of None \<Rightarrow> Inl 2 | Some fl' \<Rightarrow> flag_Parse lib fl' args
                 else case args of
                     [] \<Rightarrow> Inl 2
                   | v # args' \<Rightarrow> (case set_flag var v fl of None \<Rightarrow> Inl 2 | Some fl' \<Rightarrow> flag_Parse lib fl' args'))"

section \<open>Options\<close>

record tls_settings =
  NextProtos :: "string list"

record server_options =
  so_TLSOpts :: "(tls_settings \<Rightarrow> tls_settings) list"
  so_CertDir :: string
  so_CertName :: string
  so_KeyName :: string

datatype filter_provider = WithAuthenticationAndAuthorization

record metrics_options = server_options +
  mo_BindAddress :: string
  mo_SecureServing :: bool
  mo_FilterProvider :: "filter_provider option"

record manager_options =
  go_Metrics :: metrics_options
  go_WebhookServer :: server_options
  go_HealthProbeBindAddress :: string
  go_LeaderElection :: bool
  go_LeaderElectionID :: string

definition disableHTTP2 :: "tls_settings \<Rightarrow> tls_settings" where
  "disableHTTP2 c = c\<lparr>NextProtos := [''http/1.1'']\<rparr>"

definition tlsOpts :: "main_flags \<Rightarrow> (tls_settings \<Rightarrow> tls_settings) list" where
  "tlsOpts fl = (if \<not> enableHTTP2 fl then [disableHTTP2] else [])"

definition webhookServerOptions :: "main_flags \<Rightarrow> server_options" where
  "webhookServerOptions fl =
     (let o1 = \<lparr>so_TLSOpts = tlsOpts fl, so_CertDir = [], so_CertName = [], so_KeyName = []\<rparr> in
      if webhookCertPath fl \<noteq> []
      then o1\<lparr>so_CertDir := webhookCertPath fl, so_CertName := webhookCertName fl, so_KeyName := webhookCertKey fl\<rparr>
      else o1)"

definition metricsServerOptions :: "main_flags \<Rightarrow> metrics_options" where
  "metricsServerOptions fl =
     (let o1 = \<lparr>so_TLSOpts = tlsOpts fl, so_CertDir = [], so_CertName = [], so_KeyName = [],
            mo_BindAddress = metricsAddr fl, mo_SecureServing = secureMetrics fl, mo_FilterProvider = None\<rparr>;
          o2 = (if secureMetrics fl then o1\<lparr>mo_FilterProvider := Some WithAuthenticationAndAuthorization\<rparr> else o1) in
      if metricsCertPath fl \<noteq> []
      then o2\<lparr>so_CertDir := metricsCertPath fl, so_CertName := metricsCertName fl, so_KeyName := metricsCertKey fl\<rparr>
      else o2)"

definition managerOptions :: "main_flags \<Rightarrow> manager_options" where
  "managerOptions fl =
     \<lparr>go_Metrics = metricsServerOptions fl, go_WebhookServer = webhookServerOptions fl,
      go_HealthProbeBindAddress = probeAddr fl, go_LeaderElection = enableLeaderElection fl,
      go_LeaderElectionID = ''559b5e69.netbox-herald.io''\<rparr>"

section \<open>Starting the operator\<close>

text \<open>
  \<open>ManagerEnv\<close> is what the reconcilers get from the manager: its client, and the libraries.
  \<open>Complete\<close> is the end of a controller's builder. \<open>GetConfigOrDie\<close> exits with 1 by itself.
\<close>

record ('x, 'v, 'c, 'm) process =
  LibraryFlags :: library_flags
  Getenv :: "string \<Rightarrow> string"
  GetConfigOrDie :: "('x world_scheme, 'c) go"
  NewManager :: "'c \<Rightarrow> manager_options \<Rightarrow> ('x world_scheme, 'm) go"
  ManagerEnv :: "'m \<Rightarrow> ('x, 'v) env"
  Complete :: "'m \<Rightarrow> 'x controller \<Rightarrow> ('x world_scheme, unit) go"
  AddHealthzCheck :: "'m \<Rightarrow> string \<Rightarrow> ('x world_scheme, unit) go"
  AddReadyzCheck :: "'m \<Rightarrow> string \<Rightarrow> ('x world_scheme, unit) go"
  Start :: "'m \<Rightarrow> ('x world_scheme, unit) go"

definition operatorNamespace :: "('x, 'v, 'c, 'm) process \<Rightarrow> string" where
  "operatorNamespace pr = (let ns = Getenv pr ''POD_NAMESPACE'' in if ns = [] then ''default'' else ns)"

definition main :: "('x, 'v, 'c, 'm) process \<Rightarrow> string list \<Rightarrow> ('x world_scheme, int) go" where
  "main pr args = (case flag_Parse (LibraryFlags pr) default_flags args of
     Inl code \<Rightarrow> ret code
   | Inr fl \<Rightarrow>
     if_err (GetConfigOrDie pr) (\<lambda>_. ret 1) (\<lambda>cfg.
     if_err (NewManager pr cfg (managerOptions fl)) (\<lambda>_. ret 1) (\<lambda>mgr.
     let env = (ManagerEnv pr mgr)\<lparr>OperatorNamespace := operatorNamespace pr\<rparr> in
     bind (StoreSet (sto_spec NewStore) (sto_client NewStore)) (\<lambda>_.
     if_err (Complete pr mgr (SetupWithManager HeraldConfigReconciler env)) (\<lambda>_. ret 1) (\<lambda>_.
     if_err (Complete pr mgr (SetupWithManager ClusterReconciler env)) (\<lambda>_. ret 1) (\<lambda>_.
     if_err (Complete pr mgr (SetupWithManager NodeReconciler env)) (\<lambda>_. ret 1) (\<lambda>_.
     if_err (Complete pr mgr (SetupWithManager ServiceReconciler env)) (\<lambda>_. ret 1) (\<lambda>_.
     if_err (Complete pr mgr (SetupWithManager PodCIDRReconciler env)) (\<lambda>_. ret 1) (\<lambda>_.
     if_err (AddHealthzCheck pr mgr ''healthz'') (\<lambda>_. ret 1) (\<lambda>_.
     if_err (AddReadyzCheck pr mgr ''readyz'') (\<lambda>_. ret 1) (\<lambda>_.
     if_err (Start pr mgr) (\<lambda>_. ret 1) (\<lambda>_. ret 0))))))))))))"

end
