(* ===== verification/Main_Properties.thy ===== *)
theory Main_Properties
  imports Operator_Main Kubernetes_Memory
begin

text \<open>
  The operator's start: reading the command line, the hardening of the servers, the order of the
  start-up and the exit codes, and the state the manager runs in.
\<close>

section \<open>The command line\<close>

lemma split_flag_assign: "CHR ''='' \<notin> set n \<Longrightarrow> split_flag (n @ CHR ''='' # v) = (n, Some v)"
  by (simp add: split_flag_def takeWhile_append dropWhile_append takeWhile_eq_all_conv[THEN iffD2])

lemma flag_text_dashes: "n \<noteq> [] \<Longrightarrow> flag_text (CHR ''-'' # CHR ''-'' # n) = Some n"
  by (simp add: flag_text_def)

lemma lookup_main: "map_of main_vars n = Some var \<Longrightarrow> lookup_flag lib n = Some var"
  by (simp add: lookup_flag_def)

lemma parse_assign:
  assumes "map_of main_vars n = Some var" and "n \<noteq> []" and "CHR ''='' \<notin> set n" and "hd n \<noteq> CHR ''-''"
    and "set_flag var v fl = Some fl'"
  shows "flag_Parse lib fl ((''--'' @ n @ CHR ''='' # v) # args) = flag_Parse lib fl' args"
proof -
  have "hd n \<noteq> CHR ''=''" using assms(2,3) by (cases n) auto
  then show ?thesis
    using assms by (simp add: flag_text_dashes split_flag_assign lookup_main)
qed

definition bool_text :: "bool \<Rightarrow> string" where
  "bool_text b = (if b then ''true'' else ''false'')"

lemma parse_bool_text: "ParseBool (bool_text b) = Some b"
  by (simp add: ParseBool_def bool_text_def)

text \<open>A command line that gives every flag of \<open>main\<close> its value.\<close>

definition flag_args :: "main_flags \<Rightarrow> string list" where
  "flag_args fl =
     [''--metrics-bind-address='' @ metricsAddr fl, ''--health-probe-bind-address='' @ probeAddr fl,
      ''--leader-elect='' @ bool_text (enableLeaderElection fl), ''--metrics-secure='' @ bool_text (secureMetrics fl),
      ''--webhook-cert-path='' @ webhookCertPath fl, ''--webhook-cert-name='' @ webhookCertName fl,
      ''--webhook-cert-key='' @ webhookCertKey fl, ''--metrics-cert-path='' @ metricsCertPath fl,
      ''--metrics-cert-name='' @ metricsCertName fl, ''--metrics-cert-key='' @ metricsCertKey fl,
      ''--enable-http2='' @ bool_text (enableHTTP2 fl)]"

lemma parse_string_arg:
  assumes "map_of main_vars n = Some (StringVar f)" and "n \<noteq> []" and "CHR ''='' \<notin> set n" and "hd n \<noteq> CHR ''-''"
  shows "flag_Parse lib fl ((''--'' @ n @ CHR ''='' # v) # args) = flag_Parse lib (f v fl) args"
  by (rule parse_assign[OF assms]) simp

lemma parse_bool_arg:
  assumes "map_of main_vars n = Some (BoolVar f)" and "n \<noteq> []" and "CHR ''='' \<notin> set n" and "hd n \<noteq> CHR ''-''"
  shows "flag_Parse lib fl ((''--'' @ n @ CHR ''='' # bool_text b) # args) = flag_Parse lib (f b fl) args"
  by (rule parse_assign[OF assms]) (simp add: parse_bool_text)

lemmas parse_args =
  parse_string_arg[where n = "''metrics-bind-address''"] parse_string_arg[where n = "''health-probe-bind-address''"]
  parse_bool_arg[where n = "''leader-elect''"] parse_bool_arg[where n = "''metrics-secure''"]
  parse_string_arg[where n = "''webhook-cert-path''"] parse_string_arg[where n = "''webhook-cert-name''"]
  parse_string_arg[where n = "''webhook-cert-key''"] parse_string_arg[where n = "''metrics-cert-path''"]
  parse_string_arg[where n = "''metrics-cert-name''"] parse_string_arg[where n = "''metrics-cert-key''"]
  parse_bool_arg[where n = "''enable-http2''"]

text \<open>C22: every setting of the operator can be given on the command line: the arguments that assign each
  flag its value are read back as that setting, whatever the defaults, the values and the flags
  of the libraries are.\<close>

theorem flags_roundtrip: "flag_Parse lib fl0 (flag_args fl) = Inr fl"
  unfolding flag_args_def
  using parse_args by (simp add: main_vars_def)

text \<open>The flags a command line names, values that look like flags included.\<close>

definition names_flag :: "string list \<Rightarrow> string \<Rightarrow> bool" where
  "names_flag args n \<longleftrightarrow> (\<exists>s \<in> set args. \<exists>t. flag_text s = Some t \<and> fst (split_flag t) = n)"

lemma parse_invariant:
  assumes "flag_Parse lib fl args = Inr fl'" and "I fl"
    and "\<And>n var v a b. \<lbrakk>names_flag args n; lookup_flag lib n = Some var; set_flag var v a = Some b; I a\<rbrakk> \<Longrightarrow> I b"
  shows "I fl'"
  using assms
proof (induction args arbitrary: fl rule: length_induct)
  case (1 args)
  show ?case
  proof (cases args)
    case Nil
    then show ?thesis using 1(2,3) by simp
  next
    case (Cons s rest)
    show ?thesis
    proof (cases "flag_text s")
      case None
      then show ?thesis using 1(2,3) Cons by simp
    next
      case (Some t)
      obtain n val where nv: "split_flag t = (n, val)" by fastforce
      have named: "names_flag args n" using Some nv by (auto simp: names_flag_def Cons)
      have step: "I fl'" if "flag_Parse lib fl2 args2 = Inr fl'" "set_flag var v fl = Some fl2" "lookup_flag lib n = Some var"
        "length args2 < length args" "set args2 \<subseteq> set args" for fl2 args2 var v
      proof -
        have "I fl2" by (rule 1(4)[OF named _ _ 1(3)]) (use that in auto)
        moreover have "names_flag args2 m \<Longrightarrow> names_flag args m" for m using that(5) by (auto simp: names_flag_def)
        ultimately show ?thesis using 1(1,4) that(1,4) by blast
      qed
      show ?thesis
        using 1(2) Cons Some nv
        by (auto split: if_splits option.splits list.splits intro: step)
    qed
  qed
qed

lemma main_vars_keep:
  assumes "lookup_flag lib n = Some var" and "set_flag var v a = Some b"
  shows "n \<noteq> ''enable-http2'' \<Longrightarrow> enableHTTP2 b = enableHTTP2 a"
    and "n \<noteq> ''metrics-secure'' \<Longrightarrow> secureMetrics b = secureMetrics a"
    and "n \<noteq> ''leader-elect'' \<Longrightarrow> enableLeaderElection b = enableLeaderElection a"
  using assms unfolding lookup_flag_def main_vars_def
  by (auto split: if_splits option.splits)

text \<open>C21: an operator whose command line does not name \<open>enable-http2\<close> serves metrics and webhooks over
  HTTP/1.1 only, and one whose command line does not name \<open>metrics-secure\<close> serves metrics over
  HTTPS behind authentication and authorization.\<close>

theorem servers_hardened:
  assumes "flag_Parse lib default_flags args = Inr fl"
  shows "(\<not> names_flag args ''enable-http2'' \<longrightarrow>
      (\<forall>c. NextProtos (fold id (so_TLSOpts (go_Metrics (managerOptions fl))) c) = [''http/1.1''] \<and>
           NextProtos (fold id (so_TLSOpts (go_WebhookServer (managerOptions fl))) c) = [''http/1.1''])) \<and>
    (\<not> names_flag args ''metrics-secure'' \<longrightarrow>
      mo_SecureServing (go_Metrics (managerOptions fl)) \<and>
      mo_FilterProvider (go_Metrics (managerOptions fl)) = Some WithAuthenticationAndAuthorization)"
proof -
  have "\<not> enableHTTP2 fl" if "\<not> names_flag args ''enable-http2''"
    by (rule parse_invariant[OF assms]) (simp add: default_flags_def, metis main_vars_keep(1) that)
  moreover have "secureMetrics fl" if "\<not> names_flag args ''metrics-secure''"
    by (rule parse_invariant[OF assms]) (simp add: default_flags_def, metis main_vars_keep(2) that)
  ultimately show ?thesis
    by (auto simp: managerOptions_def metricsServerOptions_def webhookServerOptions_def tlsOpts_def disableHTTP2_def Let_def)
qed

text \<open>The arguments of the shipped deployment (\<open>config/manager\<close> with \<open>config/default\<close>).\<close>

definition shipped_args :: "string list" where
  "shipped_args = [''--metrics-bind-address=:8443'', ''--leader-elect'', ''--health-probe-bind-address=:8081'']"

lemma shipped_flags:
  "flag_Parse (\<lambda>_. None) default_flags shipped_args =
     Inr (default_flags\<lparr>metricsAddr := '':8443'', enableLeaderElection := True\<rparr>)"
  by (simp add: shipped_args_def flag_text_def split_flag_def lookup_flag_def main_vars_def default_flags_def ParseBool_def)

theorem servers_hardened_witness:
  "NextProtos (fold id (so_TLSOpts (go_Metrics (managerOptions (default_flags\<lparr>metricsAddr := '':8443'', enableLeaderElection := True\<rparr>))))
     \<lparr>NextProtos = [''h2'']\<rparr>) = [''http/1.1'']"
proof -
  have "\<not> names_flag shipped_args ''enable-http2''"
    by (simp add: names_flag_def shipped_args_def flag_text_def split_flag_def)
  with servers_hardened[OF shipped_flags] show ?thesis by blast
qed

section \<open>Exit codes of the command line\<close>

text \<open>A command line that is refused ends the process with 2, or with 0 if it asks for help.\<close>

lemma parse_exit_cases:
  assumes "flag_Parse lib fl args = Inl code" and "P 2"
    and "\<And>n. \<lbrakk>names_flag args n; n = ''help'' \<or> n = ''h''\<rbrakk> \<Longrightarrow> P 0"
  shows "P code"
  using assms
proof (induction args arbitrary: fl rule: length_induct)
  case (1 args)
  show ?case
  proof (cases args)
    case Nil
    then show ?thesis using 1(2) by simp
  next
    case (Cons s rest)
    show ?thesis
    proof (cases "flag_text s")
      case None
      then show ?thesis using 1(2) Cons by simp
    next
      case (Some t)
      obtain n val where nv: "split_flag t = (n, val)" by fastforce
      have asked: "P 0" if "n = ''help'' \<or> n = ''h''"
        by (rule 1(4)[OF _ that]) (use Some nv in \<open>auto simp: names_flag_def Cons\<close>)
      have step: "P code" if "flag_Parse lib fl2 args2 = Inl code" "length args2 < length args" "set args2 \<subseteq> set args" for fl2 args2
      proof -
        have "names_flag args2 m \<Longrightarrow> names_flag args m" for m using that(3) by (auto simp: names_flag_def)
        then show ?thesis using 1(1,3,4) that(1,2) by blast
      qed
      show ?thesis
        using 1(2,3) Cons Some nv asked
        by (auto split: if_splits option.splits list.splits intro: step)
    qed
  qed
qed

lemma parse_exit:
  assumes "flag_Parse lib fl args = Inl code"
  shows "code = 2 \<or> code = 0 \<and> (names_flag args ''help'' \<or> names_flag args ''h'')"
  by (rule parse_exit_cases[OF assms]) auto

section \<open>The order of the start\<close>

text \<open>
  The steps of a start as an observer of the process sees them: \<open>'t\<close> is what he can tell of a
  controller. The manager's run comes with the store it begins with.
\<close>

datatype 't milestone =
    ConfigRead
  | ManagerMade manager_options
  | Registered 't
  | HealthzAdded string
  | ReadyzAdded string
  | ManagerRun store

definition start_order :: "('x controller \<Rightarrow> 't) \<Rightarrow> ('x, 'v, 'c, 'm) process \<Rightarrow> main_flags \<Rightarrow> 'm \<Rightarrow> 't milestone list" where
  "start_order sees pr fl mgr =
     (let ctl = (\<lambda>r. Registered (sees (SetupWithManager r ((ManagerEnv pr mgr)\<lparr>OperatorNamespace := operatorNamespace pr\<rparr>)))) in
      [ConfigRead, ManagerMade (managerOptions fl),
       ctl HeraldConfigReconciler, ctl ClusterReconciler, ctl NodeReconciler, ctl ServiceReconciler, ctl PodCIDRReconciler,
       HealthzAdded ''healthz'', ReadyzAdded ''readyz'', ManagerRun NewStore])"

text \<open>
  The observer's log is a part of the world outside the store. Every call of the process appends
  its own milestone and whether it succeeded; none panics, and only the manager's run touches the
  store.
\<close>

definition logs :: "('x world_scheme \<Rightarrow> ('t milestone \<times> bool) list) \<Rightarrow> ('x world_scheme \<Rightarrow> 't milestone) \<Rightarrow>
    ('x world_scheme, 'a) go \<Rightarrow> bool" where
  "logs log ms m \<longleftrightarrow> (\<forall>w. case m w of
     (Ok _, w') \<Rightarrow> log w' = log w @ [(ms w, True)]
   | (Err _, w') \<Rightarrow> log w' = log w @ [(ms w, False)]
   | (Panic, _) \<Rightarrow> False)"

definition observed :: "('x world_scheme \<Rightarrow> ('t milestone \<times> bool) list) \<Rightarrow> ('x controller \<Rightarrow> 't) \<Rightarrow> ('x, 'v, 'c, 'm) process \<Rightarrow> bool" where
  "observed log sees pr \<longleftrightarrow>
     (\<forall>w s. log (w\<lparr>w_store := s\<rparr>) = log w) \<and>
     logs log (\<lambda>_. ConfigRead) (GetConfigOrDie pr) \<and>
     (\<forall>cfg opts. logs log (\<lambda>_. ManagerMade opts) (NewManager pr cfg opts)) \<and>
     (\<forall>mgr.
        (\<forall>c. logs log (\<lambda>_. Registered (sees c)) (Complete pr mgr c) \<and> (\<forall>s. keeps (\<lambda>w. w_store w = s) (Complete pr mgr c))) \<and>
        (\<forall>n. logs log (\<lambda>_. HealthzAdded n) (AddHealthzCheck pr mgr n) \<and> (\<forall>s. keeps (\<lambda>w. w_store w = s) (AddHealthzCheck pr mgr n))) \<and>
        (\<forall>n. logs log (\<lambda>_. ReadyzAdded n) (AddReadyzCheck pr mgr n) \<and> (\<forall>s. keeps (\<lambda>w. w_store w = s) (AddReadyzCheck pr mgr n))) \<and>
        logs log (\<lambda>w. ManagerRun (w_store w)) (Start pr mgr))"

text \<open>All of a plan has succeeded and the exit code is 0, or it was cut at its first failure and the code is 1.\<close>

definition followed :: "('x world_scheme \<Rightarrow> ('t milestone \<times> bool) list) \<Rightarrow> 't milestone list \<Rightarrow> 'x world_scheme \<Rightarrow>
    int outcome \<times> 'x world_scheme \<Rightarrow> bool" where
  "followed log plan w run \<longleftrightarrow>
     fst run = Ok 0 \<and> log (snd run) = log w @ map (\<lambda>e. (e, True)) plan \<or>
     (\<exists>n < length plan. fst run = Ok 1 \<and>
        log (snd run) = log w @ map (\<lambda>e. (e, True)) (take n plan) @ [(plan ! n, False)])"

lemma followed_last:
  assumes "logs log (\<lambda>w. ms w) m"
  shows "followed log [ms w] w (if_err m (\<lambda>_. ret 1) (\<lambda>_. ret 0) w)"
  using assms[unfolded logs_def, rule_format, of w]
  by (cases "m w") (auto simp: followed_def if_err_def ret_def split: outcome.splits)

lemma followed_step:
  assumes "logs log (\<lambda>_. e) m" and "\<And>x w1. m w = (Ok x, w1) \<Longrightarrow> followed log plan w1 (k x w1)"
  shows "followed log (e # plan) w (if_err m (\<lambda>_. ret 1) k w)"
proof (cases "m w")
  case (Pair out w1)
  note log = assms(1)[unfolded logs_def, rule_format, of w, unfolded Pair prod.case]
  show ?thesis
  proof (cases out)
    case (Ok x)
    have l: "log w1 = log w @ [(e, True)]" using log Ok by simp
    from assms(2)[of x w1] Pair Ok have "followed log plan w1 (k x w1)" by simp
    then show ?thesis
      unfolding followed_def if_err_def Pair Ok prod.case outcome.case l
      by (auto intro: exI[of _ "Suc _"])
  next
    case (Err e')
    then show ?thesis
      using log by (auto simp: followed_def if_err_def Pair ret_def intro!: exI[of _ 0])
  qed (use log in simp)
qed

lemma followed_head:
  assumes "logs log (\<lambda>_. e) m" and "\<And>x w1. m w = (Ok x, w1) \<Longrightarrow> \<exists>y. followed log (plan y) w1 (k x w1)"
  shows "\<exists>y. followed log (e # plan y) w (if_err m (\<lambda>_. ret 1) k w)"
proof (cases "\<exists>x w1. m w = (Ok x, w1)")
  case True
  then obtain x w1 where m: "m w = (Ok x, w1)" by blast
  then obtain y where "followed log (plan y) w1 (k x w1)" using assms(2) by blast
  with m have "followed log (e # plan y) w (if_err m (\<lambda>_. ret 1) k w)"
    by (intro followed_step[OF assms(1)]) auto
  then show ?thesis by blast
next
  case False
  then have "followed log (e # plan y) w (if_err m (\<lambda>_. ret 1) k w)" for y
    by (intro followed_step[OF assms(1)]) blast
  then show ?thesis by blast
qed

lemma followed_StoreSet:
  assumes "\<And>w s. log (w\<lparr>w_store := s\<rparr>) = log w" and "followed log plan (w\<lparr>w_store := \<lparr>sto_spec = sp, sto_client = c\<rparr>\<rparr>)
    (k (w\<lparr>w_store := \<lparr>sto_spec = sp, sto_client = c\<rparr>\<rparr>))"
  shows "followed log plan w (bind (StoreSet sp c) (\<lambda>_. k) w)"
  using assms(2) by (simp add: bind_apply StoreSet_def followed_def assms(1))

text \<open>C20: main starts the operator in one order and stops at the first failure. If the
  command line is refused, nothing happens but the exit, with code 2, or 0 when help is asked for.
  Otherwise let every call of the process append to a log what it was for and whether it succeeded,
  let none panic and none but the manager's run touch the store. The log then gets, in this order
  and each at most once: the Kubernetes configuration read, the manager made with the options of the
  flags, the controllers of all five reconcilers registered, all with the manager's client and one
  operator namespace, the checks \<open>healthz\<close> and \<open>readyz\<close> added, and the
  manager run with an empty store. Exit code 0 means that all of it succeeded; otherwise the code is
  1, the last entry is a failure and nothing later was tried: the manager never runs without all
  five controllers and both checks.\<close>

theorem main_start_order:
  assumes obs: "observed log sees pr"
  shows "case flag_Parse (LibraryFlags pr) default_flags args of
      Inl code \<Rightarrow> main pr args w = (Ok code, w) \<and>
        (code = 2 \<or> code = 0 \<and> (names_flag args ''help'' \<or> names_flag args ''h''))
    | Inr fl \<Rightarrow> \<exists>mgr. followed log (start_order sees pr fl mgr) w (main pr args w)"
proof (cases "flag_Parse (LibraryFlags pr) default_flags args")
  case (Inl code)
  with parse_exit[OF Inl] show ?thesis by (simp add: main_def ret_def)
next
  case (Inr fl)
  have same: "\<And>w s. log (w\<lparr>w_store := s\<rparr>) = log w" using obs by (simp add: observed_def)
  have head: "logs log (\<lambda>_. ConfigRead) (GetConfigOrDie pr)" "logs log (\<lambda>_. ManagerMade opts) (NewManager pr cfg opts)" for cfg opts
    using obs by (simp_all add: observed_def)
  have step: "logs log (\<lambda>_. Registered (sees c)) (Complete pr mgr c)" "logs log (\<lambda>_. HealthzAdded n) (AddHealthzCheck pr mgr n)"
      "logs log (\<lambda>_. ReadyzAdded n) (AddReadyzCheck pr mgr n)" "logs log (\<lambda>w. ManagerRun (w_store w)) (Start pr mgr)" for mgr c n
    using obs by (simp_all add: observed_def)
  have keep: "keeps (\<lambda>w. w_store w = s) (Complete pr mgr c)" "keeps (\<lambda>w. w_store w = s) (AddHealthzCheck pr mgr n)"
      "keeps (\<lambda>w. w_store w = s) (AddReadyzCheck pr mgr n)" for s mgr c n
    using obs by (simp_all add: observed_def)
  have kept: "Complete pr mgr c u = (Ok x, u') \<Longrightarrow> w_store u = s \<Longrightarrow> w_store u' = s"
    "AddHealthzCheck pr mgr n u = (Ok x, u') \<Longrightarrow> w_store u = s \<Longrightarrow> w_store u' = s"
    "AddReadyzCheck pr mgr n u = (Ok x, u') \<Longrightarrow> w_store u = s \<Longrightarrow> w_store u' = s" for mgr c n u u' s x
    using keeps_OkD[OF keep(1)] keeps_OkD[OF keep(2)] keeps_OkD[OF keep(3)] by blast+
  have last: "followed log [ManagerRun NewStore] u (if_err (Start pr mgr) (\<lambda>_. ret 1) (\<lambda>_. ret 0) u)"
    if "w_store u = NewStore" for mgr u
    using followed_last[OF step(4), of u mgr] that by simp
  have "\<exists>mgr. followed log (start_order sees pr fl mgr) w (main pr args w)"
    unfolding main_def Inr sum.case start_order_def Let_def
    apply (rule followed_head[OF head(1)])
    apply (rule followed_head[OF head(2)])
    apply (rule exI)
    apply (rule followed_StoreSet[OF same])
    apply (rule followed_step[OF step(1)], drule kept(1)[where s = NewStore], simp add: NewStore_def)+
    apply (rule followed_step[OF step(2)], drule kept(2)[where s = NewStore], simp)
    apply (rule followed_step[OF step(3)], drule kept(3)[where s = NewStore], simp)
    by (rule last)
  with Inr show ?thesis by simp
qed

text \<open>A process with a log, whose \<open>readyz\<close> check cannot be added.\<close>

record traced = world +
  tr_log :: "(string milestone \<times> bool) list"

definition tell :: "(traced \<Rightarrow> string milestone) \<Rightarrow> error option \<Rightarrow> (traced, unit) go" where
  "tell ms e = (\<lambda>w. (case e of None \<Rightarrow> Ok () | Some e \<Rightarrow> Err e, w\<lparr>tr_log := tr_log w @ [(ms w, e = None)]\<rparr>))"

definition traced_process :: "(unit traced_ext, 'v) env \<Rightarrow> (unit traced_ext, 'v, unit, unit) process" where
  "traced_process env =
     \<lparr>LibraryFlags = (\<lambda>_. None), Getenv = (\<lambda>_. []), GetConfigOrDie = tell (\<lambda>_. ConfigRead) None,
      NewManager = (\<lambda>_ opts. tell (\<lambda>_. ManagerMade opts) None), ManagerEnv = (\<lambda>_. env),
      Complete = (\<lambda>_ c. tell (\<lambda>_. Registered (ct_Name c)) None),
      AddHealthzCheck = (\<lambda>_ n. tell (\<lambda>_. HealthzAdded n) None),
      AddReadyzCheck = (\<lambda>_ n. tell (\<lambda>_. ReadyzAdded n) (Some (Errorf ''already started'' []))),
      Start = (\<lambda>_. tell (\<lambda>w. ManagerRun (w_store w)) None)\<rparr>"

lemma logs_tell: "logs tr_log ms (tell ms e)"
  by (cases e) (simp_all add: logs_def tell_def)

lemma keeps_tell: "keeps (\<lambda>w. w_store w = s) (tell ms e)"
  by (cases e) (simp_all add: keeps_def triple_def tell_def)

lemma observed_traced: "observed tr_log ct_Name (traced_process env)"
  by (simp add: observed_def traced_process_def logs_tell keeps_tell)

lemma traced_run: "fst (main (traced_process env) shipped_args w) = Ok 1"
  by (simp add: main_def traced_process_def shipped_flags tell_def if_err_def bind_def StoreSet_def ret_def Let_def)

theorem main_start_order_witness:
  "\<forall>env. case main (traced_process env) shipped_args \<lparr>w_store = NewStore, tr_log = []\<rparr> of
     (out, w') \<Rightarrow> out = Ok 1 \<and> \<not> snd (last (tr_log w'))"
proof
  fix env :: "(unit traced_ext, 'v) env"
  let ?w = "\<lparr>w_store = NewStore, tr_log = []\<rparr> :: traced"
  have "flag_Parse (LibraryFlags (traced_process env)) default_flags shipped_args =
      Inr (default_flags\<lparr>metricsAddr := '':8443'', enableLeaderElection := True\<rparr>)"
    using shipped_flags by (simp add: traced_process_def)
  with main_start_order[OF observed_traced, of env shipped_args ?w] traced_run[of env ?w]
  show "case main (traced_process env) shipped_args ?w of (out, w') \<Rightarrow> out = Ok 1 \<and> \<not> snd (last (tr_log w'))"
    by (auto simp: followed_def split: prod.split)
qed

text \<open>
  What is relied on of the manager: registering controllers and checks does not touch the store,
  and its run is made of reconciles of the completed controllers and of changes elsewhere.
\<close>

definition runs_manager :: "('x, 'v, 'c, 'm) process \<Rightarrow> bool" where
  "runs_manager pr \<longleftrightarrow>
     (\<forall>mgr s. (\<forall>c. keeps (\<lambda>w. w_store w = s) (Complete pr mgr c)) \<and> (\<forall>n. keeps (\<lambda>w. w_store w = s) (AddHealthzCheck pr mgr n)) \<and>
        (\<forall>n. keeps (\<lambda>w. w_store w = s) (AddReadyzCheck pr mgr n))) \<and>
     (\<forall>mgr w out w'. Start pr mgr w = (out, w') \<longrightarrow>
        (manager_step ((ManagerEnv pr mgr)\<lparr>OperatorNamespace := operatorNamespace pr\<rparr>))\<^sup>*\<^sup>* w w')"

lemma reachable_steps: "(manager_step env)\<^sup>*\<^sup>* w w' \<Longrightarrow> reachable env w \<Longrightarrow> reachable env w'"
  by (induction rule: rtranclp_induct) (blast intro: later)+

lemma exit_0E:
  assumes "if_err m (\<lambda>_. ret 1) k w = (Ok (0 :: int), w')"
  obtains x w1 where "m w = (Ok x, w1)" "k x w1 = (Ok 0, w')"
  using assms by (auto simp: if_err_def ret_def split: outcome.splits prod.splits)

text \<open>When \<open>main\<close> ends normally with its flags read, some manager has been started with a
  non-empty operator namespace, and the world it leaves is one the five reconcilers reach from
  an empty store.\<close>

theorem main_reaches:
  assumes pr: "runs_manager pr" and fl: "flag_Parse (LibraryFlags pr) default_flags args = Inr fl"
    and run: "main pr args w = (Ok 0, w')"
  shows "\<exists>mgr env. env = (ManagerEnv pr mgr)\<lparr>OperatorNamespace := operatorNamespace pr\<rparr> \<and>
    OperatorNamespace env \<noteq> [] \<and> reachable env w'"
proof -
  let ?env = "\<lambda>mgr. (ManagerEnv pr mgr)\<lparr>OperatorNamespace := operatorNamespace pr\<rparr>"
  have keep: "keeps (\<lambda>w. w_store w = s) (Complete pr mgr c)" "keeps (\<lambda>w. w_store w = s) (AddHealthzCheck pr mgr n)"
      "keeps (\<lambda>w. w_store w = s) (AddReadyzCheck pr mgr n)" for s mgr c n
    using pr by (simp_all add: runs_manager_def)
  have kept: "Complete pr mgr c u = (Ok x, u') \<Longrightarrow> w_store u = NewStore \<Longrightarrow> w_store u' = NewStore"
    "AddHealthzCheck pr mgr n u = (Ok x, u') \<Longrightarrow> w_store u = NewStore \<Longrightarrow> w_store u' = NewStore"
    "AddReadyzCheck pr mgr n u = (Ok x, u') \<Longrightarrow> w_store u = NewStore \<Longrightarrow> w_store u' = NewStore" for mgr c n u u' x
    using keeps_OkD[OF keep(1)] keeps_OkD[OF keep(2)] keeps_OkD[OF keep(3)] by blast+
  from run obtain mgr w4 where w4: "w_store w4 = NewStore" and go: "Start pr mgr w4 = (Ok (), w')"
    unfolding main_def fl sum.case Let_def
    apply (elim exit_0E bind_OkE)
    subgoal premises p for cfg u1 mgr u2
      by (rule p(1)[OF kept(3)[OF p(11) kept(2)[OF p(10) kept(1)[OF p(9) kept(1)[OF p(8) kept(1)[OF p(7)
            kept(1)[OF p(6) kept(1)[OF p(5)]]]]]]]])
        (use p(4,12,13) in \<open>auto simp: StoreSet_def NewStore_def ret_def\<close>)
    done
  from w4 have "reachable (?env mgr) w4" by (rule start)
  with go pr have "reachable (?env mgr) w'" unfolding runs_manager_def using reachable_steps by blast
  moreover have "OperatorNamespace (?env mgr) \<noteq> []" by (simp add: operatorNamespace_def Let_def)
  ultimately show ?thesis by blast
qed

text \<open>A process whose manager runs one reconcile of the HeraldConfig.\<close>

definition demo_process :: "(unit memory_ext, string, unit, unit) process" where
  "demo_process =
     \<lparr>LibraryFlags = (\<lambda>_. None), Getenv = (\<lambda>n. if n = ''POD_NAMESPACE'' then ''netbox-herald-system'' else []),
      GetConfigOrDie = ret (), NewManager = (\<lambda>_ _. ret ()), ManagerEnv = (\<lambda>_. mem_env 50),
      Complete = (\<lambda>_ _. ret ()), AddHealthzCheck = (\<lambda>_ _. ret ()), AddReadyzCheck = (\<lambda>_ _. ret ()),
      Start = (\<lambda>_ w. (Ok (), snd (reconcile HeraldConfigReconciler (mem_env 50)
        \<lparr>rq_Namespace = [], rq_Name = singletonName\<rparr> w)))\<rparr>"

lemma demo_env: "(mem_env 50)\<lparr>OperatorNamespace := operatorNamespace demo_process\<rparr> = mem_env 50"
  by (simp add: demo_process_def operatorNamespace_def mem_env_def)

lemma demo_runs_manager: "runs_manager demo_process"
proof -
  have "(manager_step (mem_env 50))\<^sup>*\<^sup>* w (snd (reconcile HeraldConfigReconciler (mem_env 50) req w))" for req w
    by (rule r_into_rtranclp) (rule reconciled[OF prod.collapse[symmetric]])
  then show ?thesis
    unfolding runs_manager_def
    using demo_env by (auto simp: demo_process_def keeps_ret)
qed

lemma demo_main: "fst (main demo_process shipped_args w) = Ok 0"
proof -
  have "LibraryFlags demo_process = (\<lambda>_. None)" by (simp add: demo_process_def)
  then show ?thesis
    by (simp add: main_def shipped_flags Let_def StoreSet_def demo_process_def bind_def if_err_def ret_def)
qed

theorem main_reaches_witness:
  "\<forall>w. reachable (mem_env 50) (snd (main demo_process shipped_args w))"
proof
  fix w
  have "flag_Parse (LibraryFlags demo_process) default_flags shipped_args =
      Inr (default_flags\<lparr>metricsAddr := '':8443'', enableLeaderElection := True\<rparr>)"
    using shipped_flags by (simp add: demo_process_def)
  moreover have "main demo_process shipped_args w = (Ok 0, snd (main demo_process shipped_args w))"
    using demo_main[of w] by (cases "main demo_process shipped_args w") simp
  ultimately have "\<exists>mgr env. env = (ManagerEnv demo_process mgr)\<lparr>OperatorNamespace := operatorNamespace demo_process\<rparr> \<and>
      OperatorNamespace env \<noteq> [] \<and> reachable env (snd (main demo_process shipped_args w))"
    by (rule main_reaches[OF demo_runs_manager])
  moreover have "ManagerEnv demo_process mgr = mem_env 50" for mgr by (simp add: demo_process_def)
  ultimately show "reachable (mem_env 50) (snd (main demo_process shipped_args w))" using demo_env by auto
qed

end
