(* ===== verification/Orphan_Properties.thy ===== *)
theory Orphan_Properties
  imports Owner_Properties Status_Properties
begin

text \<open>
  What becomes of the objects of a Service whose deletion no reconcile has been told of: reconciles
  of other Services, however many, leave them in NetBox.
\<close>

lemma keeps_by_view:
  assumes m: "\<And>u. triple (\<lambda>w. view w = u) m (\<lambda>_ w. R u (view w)) (\<lambda>_ w. R u (view w))"
    and J: "\<And>u u'. J u \<Longrightarrow> R u u' \<Longrightarrow> J u'"
  shows "keeps (\<lambda>w. J (view w)) m"
  unfolding keeps_def by (rule triple_view_in) (rule triple_post[OF m]; rule J)

lemma reads_by_view: "(\<And>u. keeps (\<lambda>w. view w = u) m) \<Longrightarrow> keeps (\<lambda>w. J (view w)) m"
  by (rule keeps_by_view[where R = "\<lambda>u u'. u' = u"]) (simp_all add: keeps_def)

text \<open>The IP addresses with external IDs of the form \<open>pre...\<close> are those of \<open>S\<close>.\<close>

definition has_addresses :: "string \<Rightarrow> string \<Rightarrow> (string \<Rightarrow> int set) \<Rightarrow> nb_view \<Rightarrow> bool" where
  "has_addresses slug pre S v \<longleftrightarrow> (\<forall>x. prefix pre x \<longrightarrow> ids_for ip_kind slug x v = S x)"

lemma has_addresses_frame:
  assumes "has_addresses slug pre S v" and "\<And>x. prefix pre x \<Longrightarrow> \<not> prefix pre' x"
  shows "sync_frame ip_kind slug pre' v v' \<Longrightarrow> has_addresses slug pre S v'"
    and "kept_others ip_kind slug pre' v v' \<Longrightarrow> has_addresses slug pre S v'"
  using assms by (simp_all add: has_addresses_def sync_frame_def kept_others_def)

lemma other_service_keeps:
  assumes law: "lawful psize view api" and apart: "\<And>x. prefix pre x \<Longrightarrow> \<not> prefix (serviceExternalIDPrefix ns n) x"
  shows "keeps (\<lambda>w. has_addresses slug pre S (view w)) (DeleteServiceIPs api slug ns n)"
    and "svc_Namespace svc = ns \<Longrightarrow> svc_Name svc = n \<Longrightarrow>
      keeps (\<lambda>w. has_addresses slug pre S (view w)) (syncServiceAddresses api slug svc)"
proof -
  show "keeps (\<lambda>w. has_addresses slug pre S (view w)) (DeleteServiceIPs api slug ns n)"
    by (rule keeps_by_view[where R = "kept_others ip_kind slug (serviceExternalIDPrefix ns n)"],
        rule triple_post[OF DeleteServiceIPs_correct[OF law]])
      (auto simp: cleared_def intro: has_addresses_frame(2)[OF _ apart])
  assume eq: "svc_Namespace svc = ns" "svc_Name svc = n"
  show "keeps (\<lambda>w. has_addresses slug pre S (view w)) (syncServiceAddresses api slug svc)"
    by (rule keeps_by_view[where R = "sync_frame ip_kind slug (serviceExternalIDPrefix ns n)"],
        rule triple_post[OF service_sync.sync_triple[OF law]])
      (auto simp: synced_def eq intro: has_addresses_frame(1)[OF _ apart])
qed

text \<open>What Kubernetes documents of a read: the object has the name that was asked for.\<close>

definition reads_by_name :: "('x, 'v) env \<Rightarrow> bool" where
  "reads_by_name env \<longleftrightarrow> (\<forall>ns n w svc w'. GetService env ns n w = (Ok svc, w') \<longrightarrow> svc_Namespace svc = ns \<and> svc_Name svc = n)"

lemma GetService_named:
  assumes "kube_keeps I env" and "reads_by_name env"
  shows "triple I (GetService env ns n) (\<lambda>svc w. I w \<and> svc_Namespace svc = ns \<and> svc_Name svc = n) (\<lambda>_. I)"
proof -
  have "triple I (GetService env ns n) (\<lambda>svc w. (\<exists>u. I u \<and> fst (GetService env ns n u) = Ok svc) \<and> I w) (\<lambda>_. I)"
    by (rule triple_result[OF keepsD[OF kube_keepsD(5)[OF assms(1)]]])
  then show ?thesis
  proof (rule triple_post)
    fix svc w
    assume "(\<exists>u. I u \<and> fst (GetService env ns n u) = Ok svc) \<and> I w"
    then show "I w \<and> svc_Namespace svc = ns \<and> svc_Name svc = n"
      using assms(2) unfolding reads_by_name_def by (metis run_split)
  qed
qed

lemma reconcileService_keeps_named:
  assumes kube: "kube_keeps I env" and named: "reads_by_name env"
    and del: "\<And>spec c ns n. S spec \<and> ns = rq_Namespace req \<and> n = rq_Name req \<Longrightarrow>
      keeps I (DeleteServiceIPs (Netbox env c) (resolveManagedTagSlug spec) ns n)"
    and sync: "\<And>spec c svc. S spec \<and> svc_Namespace svc = rq_Namespace req \<and> svc_Name svc = rq_Name req \<Longrightarrow>
      keeps I (syncServiceAddresses (Netbox env c) (resolveManagedTagSlug spec) svc)"
    and count: "\<And>spec c. S spec \<Longrightarrow> keeps I (CountManagedServiceIPs (Netbox env c) (resolveManagedTagSlug spec))"
  shows "triple (\<lambda>w. I w \<and> store_spec S w) (reconcileService env req) (\<lambda>_. I) (\<lambda>_. I)"
  unfolding reconcileService_def Let_def prod.case
  by (rule StoreGet_then)
    (auto intro!: keeps_rules kube keeps_if_err_fact[OF GetService_named[OF kube named]] del sync
      syncServicesStatus_keeps[OF kube count])

text \<open>C17: what a missed deletion leaves behind stays. The managed IP addresses of a Service
  that no longer exists keep their NetBox IDs, external ID by external ID, under any number of
  reconciles of other Services, whatever these return, as long as no name has a slash: only a
  request for the vanished Service itself, which neither a resync nor a change of the HeraldConfig
  makes, could remove them.\<close>

theorem missed_deletion_stays:
  assumes law: "lawful_world psize view env" and st: "keeps_store env" and named: "reads_by_name env"
    and slug: "\<And>spec. sto_spec (w_store w) = Some spec \<Longrightarrow> resolveManagedTagSlug spec = slug"
    and slashes: "CHR ''/'' \<notin> set ns" "CHR ''/'' \<notin> set n"
      "\<forall>q \<in> set qs. CHR ''/'' \<notin> set (rq_Namespace q) \<and> CHR ''/'' \<notin> set (rq_Name q)"
    and others: "\<lparr>rq_Namespace = ns, rq_Name = n\<rparr> \<notin> set qs"
    and run: "for_each qs (\<lambda>q. bind (attempt (reconcileService env q)) (\<lambda>_. ret ())) w = (out, w')"
    and x: "prefix (serviceExternalIDPrefix ns n) x"
  shows "ids_for ip_kind slug x (view w') = ids_for ip_kind slug x (view w)"
proof -
  let ?J = "has_addresses slug (serviceExternalIDPrefix ns n) (\<lambda>x. ids_for ip_kind slug x (view w))"
  let ?I = "\<lambda>u. w_store u = w_store w \<and> ?J (view u)"
  note api = lawful_worldD(2)[OF law]
  have ext: "kube_keeps (\<lambda>u. w_store u = w_store w) env" "\<And>c. api_keeps (\<lambda>u. w_store u = w_store w) (Netbox env c)"
    using st by (simp_all add: keeps_store_def externals_keep_def)
  note store = package_keepsD[OF api_package_keeps[OF ext(2)]]
  have kube: "kube_keeps (\<lambda>u. ?J (view u)) env"
    unfolding kube_keeps_def
    by (intro conjI allI kube_transports[OF lawful_worldD(1)[OF law]])
      (rule reads_by_view, rule kube_keepsD[OF lawful_worldD(1)[OF law]])+
  have one: "keeps ?I (reconcileService env q)" if "q \<in> set qs" for q
  proof -
    have apart: "\<not> prefix (serviceExternalIDPrefix (rq_Namespace q) (rq_Name q)) y" if "prefix (serviceExternalIDPrefix ns n) y" for y
    proof
      assume "prefix (serviceExternalIDPrefix (rq_Namespace q) (rq_Name q)) y"
      from service_apart[OF slashes(1,2) _ _ that this] slashes(3) \<open>q \<in> set qs\<close> have "rq_Namespace q = ns \<and> rq_Name q = n" by auto
      then have "q = \<lparr>rq_Namespace = ns, rq_Name = n\<rparr>" by simp
      with others \<open>q \<in> set qs\<close> show False by simp
    qed
    have count: "keeps (\<lambda>u. J (view u)) (CountManagedServiceIPs (Netbox env c) t)" for J c t
      by (rule reads_by_view) (rule keeps_triple[OF count_triples(3)[OF api]], simp)
    have "triple (\<lambda>u. ?I u \<and> store_spec (\<lambda>spec. resolveManagedTagSlug spec = slug) u) (reconcileService env q) (\<lambda>_. ?I) (\<lambda>_. ?I)"
      by (rule reconcileService_keeps_named[OF kube_keeps_conj[OF ext(1) kube] named])
        (auto intro!: keeps_conj store other_service_keeps[OF api apart] count)
    then show ?thesis unfolding keeps_def by (rule triple_weaken) (use slug in \<open>auto simp: store_spec_def\<close>)
  qed
  have "keeps ?I (for_each qs (\<lambda>q. bind (attempt (reconcileService env q)) (\<lambda>_. ret ())))"
    by (intro keeps_rules one)
  then have "triple ?I (for_each qs (\<lambda>q. bind (attempt (reconcileService env q)) (\<lambda>_. ret ()))) (\<lambda>_. ?I) (\<lambda>_. ?I)"
    by (rule keepsD)
  moreover have "?I w" by (simp add: has_addresses_def)
  ultimately have "?I w'" using run by (cases out) (auto simp: triple_def)
  with x show ?thesis by (simp add: has_addresses_def)
qed

lemma mem_reads_by_name: "reads_by_name (mem_env psize)"
  by (auto simp: reads_by_name_def mem_env_def existing_def find_Some_iff split: option.splits)

theorem missed_deletion_stays_witness:
  "ids_for ip_kind demo_slug ''ns/db/10.0.0.8''
     (mem_view (snd (for_each [\<lparr>rq_Namespace = ''ns'', rq_Name = ''web''\<rparr>]
        (\<lambda>q. bind (attempt (reconcileService (mem_env 50) q)) (\<lambda>_. ret ())) live_world))) =
   ids_for ip_kind demo_slug ''ns/db/10.0.0.8'' (mem_view live_world)"
proof (rule missed_deletion_stays[OF lawful_mem_env keeps_store_mem mem_reads_by_name _ _ _ _ _ prod.collapse[symmetric]])
  show "prefix (serviceExternalIDPrefix ''ns'' ''db'') ''ns/db/10.0.0.8''" by (simp add: serviceExternalIDPrefix_def)
qed (simp_all add: live_store demo_slug_resolved)

end
