(* ===== verification/NetBox_Steps.thy ===== *)
theory NetBox_Steps
  imports Reconcilers
begin

text \<open>
  What the operator does to NetBox, as a step relation: a reconcile is a sequence of creations,
  updates and deletions of managed objects of the six kinds, of the managed tag and of the
  custom field. The locale \<open>view_invariant\<close> lifts whatever these steps preserve to every run of
  every reconciler, successful or not.
\<close>

section \<open>The steps\<close>

text \<open>Managed objects of one kind are gone.\<close>

definition drops_managed :: "('o, 'd writable_scheme) kind \<Rightarrow> string \<Rightarrow> nb_view \<Rightarrow> nb_view \<Rightarrow> bool" where
  "drops_managed K slug v v' \<longleftrightarrow> (\<exists>I \<subseteq> managed K slug v. v' = drop_ids K I v)"

inductive herald_step :: "nat \<Rightarrow> string \<Rightarrow> nb_view \<Rightarrow> nb_view \<Rightarrow> bool"
  for psize :: nat and slug :: string where
  tag: "tag_ensured s v v' \<Longrightarrow> herald_step psize slug v v'"
| field: "field_ensured v v' \<Longrightarrow> herald_step psize slug v v'"
| put_cluster: "ensured psize cluster_kind slug x R i v v' \<Longrightarrow> herald_step psize slug v v'"
| put_device: "ensured psize device_kind slug x R i v v' \<Longrightarrow> herald_step psize slug v v'"
| put_vm: "ensured psize vm_kind slug x R i v v' \<Longrightarrow> herald_step psize slug v v'"
| put_ip: "ensured psize ip_kind slug x R i v v' \<Longrightarrow> herald_step psize slug v v'"
| put_prefix: "ensured psize prefix_kind slug x R i v v' \<Longrightarrow> herald_step psize slug v v'"
| put_aggregate: "ensured psize aggregate_kind slug x R i v v' \<Longrightarrow> herald_step psize slug v v'"
| drop_cluster: "drops_managed cluster_kind slug v v' \<Longrightarrow> herald_step psize slug v v'"
| drop_device: "drops_managed device_kind slug v v' \<Longrightarrow> herald_step psize slug v v'"
| drop_vm: "drops_managed vm_kind slug v v' \<Longrightarrow> herald_step psize slug v v'"
| drop_ip: "drops_managed ip_kind slug v v' \<Longrightarrow> herald_step psize slug v v'"
| drop_prefix: "drops_managed prefix_kind slug v v' \<Longrightarrow> herald_step psize slug v v'"
| drop_aggregate: "drops_managed aggregate_kind slug v v' \<Longrightarrow> herald_step psize slug v v'"

text \<open>The contracts of the package's functions are such steps.\<close>

lemma removed_drops: "kind_ok K \<Longrightarrow> removed psize K slug x v v' \<Longrightarrow> drops_managed K slug v v'"
  unfolding removed_def drops_managed_def using ids_for_managed[of K slug x v] drop_ids_empty[of K v]
  by (metis empty_subsetI insert_subset subsetD)

lemma removed_named_drops: "kind_ok K \<Longrightarrow> removed_named psize K slug n v v' \<Longrightarrow> drops_managed K slug v v'"
  unfolding removed_named_def drops_managed_def using named_ids_managed[of K slug n v] drop_ids_empty[of K v]
  by (metis empty_subsetI insert_subset subsetD)

lemma pruned_drops: "partly_pruned K slug pre D v v' \<Longrightarrow> drops_managed K slug v v'"
  unfolding partly_pruned_def drops_managed_def using stale_managed[of K slug pre D v] by (blast intro: order_trans)

lemma lawful_eps:
  assumes "lawful psize view api"
  shows "lawful_ep psize view cluster_kind (VirtualizationClusters api)"
    and "lawful_ep psize view device_kind (DcimDevices api)"
    and "lawful_ep psize view vm_kind (VirtualizationVirtualMachines api)"
    and "lawful_ep psize view ip_kind (IpamIPAddresses api)"
    and "lawful_ep psize view prefix_kind (IpamPrefixes api)"
    and "lawful_ep psize view aggregate_kind (IpamAggregates api)"
    and "lawful_tags view api" and "lawful_fields view api" and "keeps (\<lambda>w. view w = u) (StatusList api)"
  using assms by (simp_all add: lawful_def)

section \<open>What the steps preserve\<close>

text \<open>
  A property \<open>J\<close> of NetBox that every step preserves; \<open>sees v\<close> is a page size that the NetBox in
  the state \<open>v\<close> serves.
\<close>

locale view_invariant =
  fixes J :: "nb_view \<Rightarrow> bool"
    and slug :: string
    and sees :: "nb_view \<Rightarrow> nat"
  assumes step: "J v \<Longrightarrow> herald_step (sees v) slug v v' \<Longrightarrow> J v'"
begin

lemma keeps_at_views:
  assumes "\<And>v. triple (\<lambda>w. view w = v) m (\<lambda>_ w. view w = v \<or> herald_step (sees v) slug v (view w))
      (\<lambda>_ w. view w = v \<or> herald_step (sees v) slug v (view w))"
  shows "keeps (\<lambda>w. J (view w)) m"
  unfolding keeps_def
proof (rule tripleI)
  fix w x w'
  assume w: "J (view w)" and m: "m w = (Ok x, w')"
  show "J (view w')" using triple_OkD[OF assms refl m] step[OF w] w by metis
next
  fix w e w'
  assume w: "J (view w)" and m: "m w = (Err e, w')"
  show "J (view w')" using triple_ErrD[OF assms refl m] step[OF w] w by metis
next
  fix w w'
  assume "m w = (Panic, w')"
  then show False by (rule triple_PanicD[OF assms refl])
qed

lemma reads: "(\<And>u. keeps (\<lambda>w. view w = u) m) \<Longrightarrow> keeps (\<lambda>w. J (view w)) m"
  by (rule keeps_at_views) (rule triple_post[OF keepsD], auto)

lemma EnsureManagedTag:
  assumes "lawful_tags view api"
  shows "triple (\<lambda>w. J (view w)) (EnsureManagedTag api s) (\<lambda>t w. J (view w) \<and> tg_Slug t = Some s) (\<lambda>_ w. J (view w))"
proof (rule tripleI)
  note post = EnsureManagedTag_triple[OF assms]
  fix w
  assume w: "J (view w)"
  note tagged = step[OF w herald_step.tag]
  show "J (view w') \<and> tg_Slug t = Some s" if "EnsureManagedTag api s w = (Ok t, w')" for t w'
    using triple_OkD[OF post refl that] tagged by blast
  show "J (view w')" if "EnsureManagedTag api s w = (Err e, w')" for e w'
    using triple_ErrD[OF post refl that] tagged by blast
  show False if "EnsureManagedTag api s w = (Panic, w')" for w'
    using that by (rule triple_PanicD[OF post refl])
qed

lemmas post = keeps_at_views[OF triple_post]

lemma ensures:
  assumes law: "\<And>v. lawful (sees v) view api"
  shows "tg_Slug (cs_ManagedTag cspec) = Some slug \<Longrightarrow> keeps (\<lambda>w. J (view w)) (EnsureCluster api cspec)"
    and "tg_Slug (ds_ManagedTag dspec) = Some slug \<Longrightarrow> keeps (\<lambda>w. J (view w)) (EnsureDevice api dspec)"
    and "tg_Slug (vs_ManagedTag vspec) = Some slug \<Longrightarrow> keeps (\<lambda>w. J (view w)) (EnsureVirtualMachine api vspec)"
    and "tg_Slug (is_ManagedTag ispec) = Some slug \<Longrightarrow> keeps (\<lambda>w. J (view w)) (EnsureServiceIP api ispec)"
    and "tg_Slug (ps_ManagedTag pspec) = Some slug \<Longrightarrow> keeps (\<lambda>w. J (view w)) (EnsurePodCIDRPrefix api pspec)"
    and "tg_Slug (as_ManagedTag aspec) = Some slug \<Longrightarrow> keeps (\<lambda>w. J (view w)) (EnsurePodCIDRAggregate api aspec)"
  by (rule post[OF EnsureCluster_triple[OF law]], auto intro: herald_step.intros)
    (rule post[OF EnsureDevice_triple[OF law]], auto intro: herald_step.intros,
     rule post[OF EnsureVirtualMachine_triple[OF law]], auto intro: herald_step.intros,
     rule post[OF EnsureServiceIP_triple[OF law]], auto intro: herald_step.intros,
     rule post[OF EnsurePodCIDRPrefix_triple[OF law]], auto intro: herald_step.intros,
     rule post[OF EnsurePodCIDRAggregate_triple[OF law]], auto intro: herald_step.intros)

lemma deletes:
  assumes law: "\<And>v. lawful (sees v) view api"
  shows "keeps (\<lambda>w. J (view w)) (DeleteCluster api slug x)"
    and "keeps (\<lambda>w. J (view w)) (DeleteDeviceByExternalID api slug x)"
    and "keeps (\<lambda>w. J (view w)) (DeleteDeviceByName api slug x)"
    and "keeps (\<lambda>w. J (view w)) (DeleteVirtualMachineByExternalID api slug x)"
    and "keeps (\<lambda>w. J (view w)) (DeleteVirtualMachineByName api slug x)"
    and "keeps (\<lambda>w. J (view w)) (DeletePodCIDRAggregate api slug x)"
    and "keeps (\<lambda>w. J (view w)) (DeleteNodePodCIDRPrefixes api slug x)"
    and "keeps (\<lambda>w. J (view w)) (DeleteServiceIPs api slug ns x)"
proof -
  note eps = lawful_eps[OF law]
  note drops = herald_step.intros removed_drops[OF kind_ok_kinds(1)] removed_drops[OF kind_ok_kinds(2)]
    removed_drops[OF kind_ok_kinds(3)] removed_drops[OF kind_ok_kinds(6)] removed_named_drops[OF kind_ok_kinds(2)]
    removed_named_drops[OF kind_ok_kinds(3)] pruned_drops pruned_drops[OF pruned_partly]
  show "keeps (\<lambda>w. J (view w)) (DeleteCluster api slug x)"
    by (rule post[OF cluster_delete.delete_ext_triple[OF eps(1)]]) (auto intro: drops)
  show "keeps (\<lambda>w. J (view w)) (DeleteDeviceByExternalID api slug x)"
    by (rule post[OF device_delete.delete_ext_triple[OF eps(2)]]) (auto intro: drops)
  show "keeps (\<lambda>w. J (view w)) (DeleteDeviceByName api slug x)"
    by (rule post[OF device_name.delete_name_triple[OF eps(2)]]) (auto intro: drops)
  show "keeps (\<lambda>w. J (view w)) (DeleteVirtualMachineByExternalID api slug x)"
    by (rule post[OF vm_delete.delete_ext_triple[OF eps(3)]]) (auto intro: drops)
  show "keeps (\<lambda>w. J (view w)) (DeleteVirtualMachineByName api slug x)"
    by (rule post[OF vm_name.delete_name_triple[OF eps(3)]]) (auto intro: drops)
  show "keeps (\<lambda>w. J (view w)) (DeletePodCIDRAggregate api slug x)"
    by (rule post[OF agg_delete.delete_ext_triple[OF eps(6)]]) (auto intro: drops)
  show "keeps (\<lambda>w. J (view w)) (DeleteNodePodCIDRPrefixes api slug x)"
    by (rule post[OF pfx_owner.delete_owned_triple[OF eps(5)]]) (auto intro: drops)
  have "keeps (\<lambda>w. J (view w)) (case (ns, x) of (ns, n) \<Rightarrow> DeleteServiceIPs api slug ns n)"
    by (rule post[OF ip_owner.delete_owned_triple[OF eps(4)]]) (auto intro: drops)
  then show "keeps (\<lambda>w. J (view w)) (DeleteServiceIPs api slug ns x)" by simp
qed

lemma syncs:
  assumes law: "\<And>v. lawful (sees v) view api"
  shows "keeps (\<lambda>w. J (view w)) (syncServiceAddresses api slug svc)"
    and "keeps (\<lambda>w. J (view w)) (syncNodePrefixes api slug node)"
proof -
  note eps = lawful_eps[OF law] and tagged = EnsureManagedTag[OF lawful_eps(7)[OF law]]
  show "keeps (\<lambda>w. J (view w)) (syncServiceAddresses api slug svc)"
    unfolding service_sync.sync_eq
  proof (rule keeps_bind_fact[OF tagged], rule keeps_bind)
    show "keeps (\<lambda>w. J (view w)) (ensure_addresses api tag svc (svc_Ingress svc))" if "tg_Slug tag = Some slug" for tag
      by (rule ensure_addresses_keeps) (simp add: ensures(4)[OF law] that)
  qed (rule post[OF service_sync.prune_triple[OF eps(4)]], auto intro: herald_step.intros pruned_drops pruned_drops[OF pruned_partly])
  show "keeps (\<lambda>w. J (view w)) (syncNodePrefixes api slug node)"
    unfolding prefix_sync.sync_eq
  proof (rule keeps_bind_fact[OF tagged], rule keeps_bind)
    show "keeps (\<lambda>w. J (view w)) (ensure_prefixes api tag node (nod_PodCIDRs node))" if "tg_Slug tag = Some slug" for tag
      by (rule ensure_prefixes_keeps) (simp add: ensures(5)[OF law] that)
  qed (rule post[OF prefix_sync.prune_triple[OF eps(5)]], auto intro: herald_step.intros pruned_drops pruned_drops[OF pruned_partly])
qed

lemma counts:
  assumes law: "\<And>v. lawful (sees v) view api"
  shows "keeps (\<lambda>w. J (view w)) (CountManagedDevices api slug)"
    and "keeps (\<lambda>w. J (view w)) (CountManagedVirtualMachines api slug)"
    and "keeps (\<lambda>w. J (view w)) (CountManagedServiceIPs api slug)"
    and "keeps (\<lambda>w. J (view w)) (CountManagedPrefixes api slug)"
    and "keeps (\<lambda>w. J (view w)) (CountManagedAggregates api slug)"
proof -
  note eps = lawful_eps[OF law]
  show "keeps (\<lambda>w. J (view w)) (CountManagedDevices api slug)"
    by (rule post[OF device_count.count_triple[OF eps(2)]]) auto
  show "keeps (\<lambda>w. J (view w)) (CountManagedVirtualMachines api slug)"
    by (rule post[OF vm_count.count_triple[OF eps(3)]]) auto
  show "keeps (\<lambda>w. J (view w)) (CountManagedServiceIPs api slug)"
    by (rule post[OF ip_count.count_triple[OF eps(4)]]) auto
  show "keeps (\<lambda>w. J (view w)) (CountManagedPrefixes api slug)"
    by (rule post[OF pfx_count.count_triple[OF eps(5)]]) auto
  show "keeps (\<lambda>w. J (view w)) (CountManagedAggregates api slug)"
    by (rule post[OF agg_count.count_triple[OF eps(6)]]) auto
qed

lemma package:
  assumes law: "\<And>v. lawful (sees v) view api"
  shows "package_keeps (\<lambda>w. J (view w)) (\<lambda>t. tg_Slug t = Some slug) slug api"
  unfolding package_keeps_def
  using EnsureManagedTag[OF lawful_eps(7)[OF law]] ensures[OF law] deletes[OF law] syncs[OF law] counts[OF law] by blast

lemma kube:
  assumes "\<And>v. kube_keeps (\<lambda>w. view w = v) env"
  shows "kube_keeps (\<lambda>w. J (view w)) env"
  unfolding kube_keeps_def by (intro conjI allI reads kube_keepsD[OF assms] kube_transports[OF assms])

text \<open>Every run of every reconciler, under a published spec with this managed tag.\<close>

lemma reconcile_triple:
  assumes world: "\<And>v. lawful_world (sees v) view env"
  shows "triple (\<lambda>w. J (view w) \<and> store_spec (\<lambda>spec. resolveManagedTagSlug spec = slug) w)
    (reconcile r env req) (\<lambda>_ w. J (view w)) (\<lambda>_ w. J (view w))"
proof -
  let ?I = "\<lambda>w. J (view w)"
  have kube: "kube_keeps ?I env" and law: "lawful (sees v) view (Netbox env c)"
    and st: "view (w\<lparr>w_store := s\<rparr>) = view w" for c w s v
    using world kube unfolding lawful_world_def by blast+
  have pkg: "package_keeps ?I (\<lambda>t. tg_Slug t = Some slug) (resolveManagedTagSlug spec) (Netbox env c)"
    if "resolveManagedTagSlug spec = slug" for spec c
    using package[OF law] that by simp
  have "keeps ?I (reconcileHeraldConfig env req)"
  proof (rule reconcileHeraldConfig_keeps[OF kube])
    show "store_stable ?I" by (simp add: store_stable_def st)
    fix c
    note eps = lawful_eps[OF law[of _ c]]
    show "keeps ?I (CheckVersion (Libs env) (Netbox env c))"
      by (intro CheckVersion_reads reads eps)
    show "keeps ?I (EnsureManagedTag (Netbox env c) s)" for s
      by (rule post[OF EnsureManagedTag_triple[OF eps(7)]]) (auto intro: herald_step.intros)
    show "keeps ?I (EnsureExternalIDCustomField (Netbox env c))"
      by (rule post[OF EnsureExternalIDCustomField_triple[OF eps(8)]]) (auto intro: herald_step.intros)
  qed
  then show ?thesis
    using reconcileCluster_keeps[OF kube pkg] reconcileNode_keeps[OF kube pkg] reconcileService_keeps[OF kube pkg]
      reconcilePodCIDR_keeps[OF kube pkg]
    by (cases r) (simp_all add: keeps_when)
qed

lemma reconcile_run:
  assumes world: "\<And>v. lawful_world (sees v) view env"
    and spec: "\<And>spec. sto_spec (w_store w) = Some spec \<Longrightarrow> resolveManagedTagSlug spec = slug"
    and J: "J (view w)" and run: "reconcile r env req w = (out, w')"
  shows "J (view w')"
proof -
  have pre: "J (view w) \<and> store_spec (\<lambda>spec. resolveManagedTagSlug spec = slug) w"
    using spec J by (simp add: store_spec_def)
  note t = reconcile_triple[OF world, of r req]
  show ?thesis
    using triple_OkD[OF t pre] triple_ErrD[OF t pre] triple_PanicD[OF t pre] run by (cases out) blast+
qed

end

section \<open>The invariants\<close>

text \<open>At most one managed object of each kind per external ID.\<close>

definition no_duplicates :: "string \<Rightarrow> nb_view \<Rightarrow> bool" where
  "no_duplicates slug v \<longleftrightarrow> unique_ids cluster_kind slug v \<and> unique_ids device_kind slug v \<and> unique_ids vm_kind slug v \<and>
     unique_ids ip_kind slug v \<and> unique_ids prefix_kind slug v \<and> unique_ids aggregate_kind slug v"

text \<open>Every managed object says which Kubernetes object it stands for.\<close>

definition has_ids :: "('o, 'd writable_scheme) kind \<Rightarrow> string \<Rightarrow> nb_view \<Rightarrow> bool" where
  "has_ids K slug v \<longleftrightarrow> (\<forall>i \<in> managed K slug v. \<exists>x. i \<in> ids_for K slug x v)"

definition identified :: "string \<Rightarrow> nb_view \<Rightarrow> bool" where
  "identified slug v \<longleftrightarrow> has_ids cluster_kind slug v \<and> has_ids device_kind slug v \<and> has_ids vm_kind slug v \<and>
     has_ids ip_kind slug v \<and> has_ids prefix_kind slug v \<and> has_ids aggregate_kind slug v"

text \<open>A page that holds the managed objects of any kind.\<close>

definition most_managed :: "string \<Rightarrow> nb_view \<Rightarrow> nat" where
  "most_managed slug v = card (managed cluster_kind slug v) + card (managed device_kind slug v) + card (managed vm_kind slug v) +
     card (managed ip_kind slug v) + card (managed prefix_kind slug v) + card (managed aggregate_kind slug v)"

lemma most_managed_fits:
  "card (managed cluster_kind slug v) \<le> most_managed slug v" "card (managed device_kind slug v) \<le> most_managed slug v"
  "card (managed vm_kind slug v) \<le> most_managed slug v" "card (managed ip_kind slug v) \<le> most_managed slug v"
  "card (managed prefix_kind slug v) \<le> most_managed slug v" "card (managed aggregate_kind slug v) \<le> most_managed slug v"
  by (simp_all add: most_managed_def)

lemma unique_same: "k_get K v' = k_get K v \<Longrightarrow> unique_ids K slug v \<Longrightarrow> unique_ids K slug v'"
  using same_table(3) by metis

lemma has_ids_same: "k_get K v' = k_get K v \<Longrightarrow> has_ids K slug v \<Longrightarrow> has_ids K slug v'"
  by (simp add: has_ids_def managed_def ids_for_def)

lemma ensured_has_ids:
  assumes "kind_ok K" and "ensured psize K slug x R i v v'" and "has_ids K slug v"
  shows "has_ids K slug v'"
  using assms(3) unfolding has_ids_def ensured_managed[OF assms(1,2)] by (auto simp: ensured_ids_for[OF assms(1,2)])

lemma drops_unique: "kind_ok K \<Longrightarrow> drops_managed K slug v v' \<Longrightarrow> unique_ids K slug v \<Longrightarrow> unique_ids K slug v'"
  using drop_ids_unique[of K slug v] by (auto simp: drops_managed_def)

lemma drops_has_ids: "kind_ok K \<Longrightarrow> drops_managed K slug v v' \<Longrightarrow> has_ids K slug v \<Longrightarrow> has_ids K slug v'"
  by (auto simp: drops_managed_def has_ids_def drop_ids_managed drop_ids_ids_for)

lemma only_drops: "drops_managed K slug v v' \<Longrightarrow> only K v v'"
  by (auto simp: drops_managed_def intro: only_drop)

lemma other_kinds:
  "tag_ensured s v v' \<Longrightarrow> k_get cluster_kind v' = k_get cluster_kind v \<and> k_get device_kind v' = k_get device_kind v \<and>
     k_get vm_kind v' = k_get vm_kind v \<and> k_get ip_kind v' = k_get ip_kind v \<and>
     k_get prefix_kind v' = k_get prefix_kind v \<and> k_get aggregate_kind v' = k_get aggregate_kind v"
  "field_ensured v v' \<Longrightarrow> k_get cluster_kind v' = k_get cluster_kind v \<and> k_get device_kind v' = k_get device_kind v \<and>
     k_get vm_kind v' = k_get vm_kind v \<and> k_get ip_kind v' = k_get ip_kind v \<and>
     k_get prefix_kind v' = k_get prefix_kind v \<and> k_get aggregate_kind v' = k_get aggregate_kind v"
  by (auto simp: tag_ensured_def field_ensured_def kind_defs)

lemmas elsewhere = other_kinds
  other_tables(1)[OF only_ensured] other_tables(2)[OF only_ensured] other_tables(3)[OF only_ensured]
  other_tables(4)[OF only_ensured] other_tables(5)[OF only_ensured] other_tables(6)[OF only_ensured]
  other_tables(1)[OF only_drops] other_tables(2)[OF only_drops] other_tables(3)[OF only_drops]
  other_tables(4)[OF only_drops] other_tables(5)[OF only_drops] other_tables(6)[OF only_drops]

interpretation unduplicated: view_invariant "no_duplicates slug" slug "most_managed slug" for slug
proof
  fix v v'
  assume unique: "no_duplicates slug v" and "herald_step (most_managed slug v) slug v v'"
  note put = ensured_unique(1)[OF _ _ _ most_managed_fits(1)] ensured_unique(1)[OF _ _ _ most_managed_fits(2)]
    ensured_unique(1)[OF _ _ _ most_managed_fits(3)] ensured_unique(1)[OF _ _ _ most_managed_fits(4)]
    ensured_unique(1)[OF _ _ _ most_managed_fits(5)] ensured_unique(1)[OF _ _ _ most_managed_fits(6)]
  from \<open>herald_step (most_managed slug v) slug v v'\<close> show "no_duplicates slug v'"
    by cases (use unique in \<open>auto simp: no_duplicates_def dest: elsewhere intro: unique_same put drops_unique\<close>)
qed

interpretation identified: view_invariant "identified slug" slug "\<lambda>_. psize" for slug psize
proof
  fix v v'
  assume named: "identified slug v" and "herald_step psize slug v v'"
  from \<open>herald_step psize slug v v'\<close> show "identified slug v'"
    by cases (use named in \<open>auto simp: identified_def dest: elsewhere intro: has_ids_same ensured_has_ids drops_has_ids\<close>)
qed


section \<open>The frame\<close>

text \<open>
  \<open>safe slug v v'\<close>: between \<open>v\<close> and \<open>v'\<close> no object without the managed tag changed or went,
  the reference objects are the same, and no tag or custom field changed or went.
\<close>

definition safe :: "string \<Rightarrow> nb_view \<Rightarrow> nb_view \<Rightarrow> bool" where
  "safe slug v v' \<longleftrightarrow>
     untouched cluster_kind slug v v' \<and> untouched device_kind slug v v' \<and> untouched vm_kind slug v v' \<and>
     untouched ip_kind slug v v' \<and> untouched prefix_kind slug v v' \<and> untouched aggregate_kind slug v v' \<and>
     v_refs v' = v_refs v \<and> v_tags v \<subseteq>\<^sub>m v_tags v' \<and> v_fields v \<subseteq>\<^sub>m v_fields v'"

lemma safe_refl [simp]: "safe slug v v"
  by (simp add: safe_def)

lemma safe_trans: "safe slug v v' \<Longrightarrow> safe slug v' v'' \<Longrightarrow> safe slug v v''"
  unfolding safe_def by (auto intro: untouched_trans map_le_trans)

lemma safe_setup:
  "tag_ensured slug' v v' \<Longrightarrow> safe slug v v'"
  "field_ensured v v' \<Longrightarrow> safe slug v v'"
  by (auto simp: tag_ensured_def field_ensured_def safe_def untouched_def kind_defs map_le_def)

lemma safe_only:
  "only cluster_kind v v' \<Longrightarrow> untouched cluster_kind slug v v' \<Longrightarrow> safe slug v v'"
  "only device_kind v v' \<Longrightarrow> untouched device_kind slug v v' \<Longrightarrow> safe slug v v'"
  "only vm_kind v v' \<Longrightarrow> untouched vm_kind slug v v' \<Longrightarrow> safe slug v v'"
  "only ip_kind v v' \<Longrightarrow> untouched ip_kind slug v v' \<Longrightarrow> safe slug v v'"
  "only prefix_kind v v' \<Longrightarrow> untouched prefix_kind slug v v' \<Longrightarrow> safe slug v v'"
  "only aggregate_kind v v' \<Longrightarrow> untouched aggregate_kind slug v v' \<Longrightarrow> safe slug v v'"
  by (auto simp: only_def safe_def untouched_def kind_defs)

lemma drops_untouched: "kind_ok K \<Longrightarrow> drops_managed K slug v v' \<Longrightarrow> untouched K slug v v'"
  by (auto simp: drops_managed_def intro: drop_ids_untouched)

lemma herald_step_safe: "herald_step psize slug v v' \<Longrightarrow> safe slug v v'"
  by (cases rule: herald_step.cases)
    (auto intro: safe_setup safe_only only_ensured only_drops ensured_untouched drops_untouched kind_ok_kinds)

interpretation frame: view_invariant "safe slug v\<^sub>0" slug "\<lambda>_. psize" for slug v\<^sub>0 psize
  by unfold_locales (rule safe_trans[OF _ herald_step_safe])

end
