(* ===== verification/NetBox_Unpaged.thy ===== *)
theory NetBox_Unpaged
  imports Kubernetes_Memory
begin

text \<open>
  The NetBox in memory with paging switched off: a list call without a limit returns everything.
  It serves pages of any size (\<open>lawful psize\<close> for every \<open>psize\<close>), which the properties on
  duplicates ask for.
\<close>

definition whole_list :: "('o, 'd writable_scheme) kind \<Rightarrow> (int \<Rightarrow> 'd writable_scheme \<Rightarrow> 'p) \<Rightarrow>
    ('w \<Rightarrow> 'd writable_scheme table) \<Rightarrow> list_params \<Rightarrow> ('w, 'p page) go" where
  "whole_list K display get p = (\<lambda>w. (Ok (mem_list (length (get w)) K display (get w) p), w))"

lemma rows_length: "length (rows k t) \<le> length t"
  by (induction k t rule: rows.induct) simp_all

lemma tbl_card: "card (dom (tbl t)) \<le> length t"
proof -
  have "card (dom (tbl t)) \<le> length (rows 1 t)"
    unfolding tbl_def by (metis card_length dom_map_of_conv_image_fst length_map list.set_map)
  then show ?thesis using rows_length[of 1 t] by simp
qed

context memory_table
begin

lemma candidates_length: "card (candidates K p (view w)) \<le> length (get w)"
proof -
  have "candidates K p (view w) \<subseteq> dom (tbl (get w))" by (auto simp: candidates_def view_get)
  then have "card (candidates K p (view w)) \<le> card (dom (tbl (get w)))" by (rule card_mono[OF finite_tbl])
  then show ?thesis using tbl_card[of "get w"] by simp
qed

lemma whole_listing: "listing psize K p (view w) (mem_list (length (get w)) K display (get w) p)"
proof -
  have "card (candidates K p (view w)) \<le> page_size (length (get w)) p"
    if "card (candidates K p (view w)) \<le> page_size psize p"
    using that candidates_length[of p w] by (auto simp: page_size_def split: option.splits)
  then show ?thesis using listing[of "length (get w)" p w] unfolding listing_def by blast
qed

lemma lawful_whole_ep:
  "lawful_ep psize view K ((mem_ep 0 K display get upd)\<lparr>ep_list := whole_list K display get\<rparr>)"
proof -
  have "triple (\<lambda>w. view w = v) (whole_list K display get p) (\<lambda>pg w. view w = v \<and> listing psize K p v pg)
      (\<lambda>_ w. view w = v)" for p v
    using whole_listing by (auto simp: triple_def whole_list_def)
  then show ?thesis using lawful_mem_ep[of 0] by (simp add: lawful_ep_def)
qed

end

definition whole_api :: "memory netbox_api" where
  "whole_api = (mem_api 0)
     \<lparr>VirtualizationClusters := (mem_ep 0 cluster_kind (display_named wc_Name) m_clusters m_clusters_update)
        \<lparr>ep_list := whole_list cluster_kind (display_named wc_Name) m_clusters\<rparr>,
      DcimDevices := (mem_ep 0 device_kind (display_named wd_Name) m_devices m_devices_update)
        \<lparr>ep_list := whole_list device_kind (display_named wd_Name) m_devices\<rparr>,
      VirtualizationVirtualMachines := (mem_ep 0 vm_kind (display_named wv_Name) m_vms m_vms_update)
        \<lparr>ep_list := whole_list vm_kind (display_named wv_Name) m_vms\<rparr>,
      IpamIPAddresses := (mem_ep 0 ip_kind display_object m_ips m_ips_update)
        \<lparr>ep_list := whole_list ip_kind display_object m_ips\<rparr>,
      IpamPrefixes := (mem_ep 0 prefix_kind display_object m_prefixes m_prefixes_update)
        \<lparr>ep_list := whole_list prefix_kind display_object m_prefixes\<rparr>,
      IpamAggregates := (mem_ep 0 aggregate_kind display_object m_aggregates m_aggregates_update)
        \<lparr>ep_list := whole_list aggregate_kind display_object m_aggregates\<rparr>\<rparr>"

lemma lawful_whole_api: "lawful psize mem_view whole_api"
proof -
  have rest: "lawful 0 mem_view (mem_api 0)" by (rule lawful_mem_api)
  have "lawful_tags mem_view whole_api" "lawful_fields mem_view whole_api"
    using rest by (simp_all add: lawful_def lawful_tags_def lawful_fields_def whole_api_def)
  with rest show ?thesis
    unfolding lawful_def
    by (simp add: whole_api_def mem_cluster.lawful_whole_ep mem_device.lawful_whole_ep mem_vm.lawful_whole_ep
        mem_ip.lawful_whole_ep mem_prefix.lawful_whole_ep mem_aggregate.lawful_whole_ep)
qed

definition whole_env :: mem_env where
  "whole_env = (mem_env 0)\<lparr>Netbox := \<lambda>_. whole_api\<rparr>"

lemma lawful_whole_env: "lawful_world psize mem_view whole_env"
proof -
  have "lawful_world 0 mem_view (mem_env 0)" by (rule lawful_mem_env)
  then show ?thesis
    by (simp add: lawful_world_def whole_env_def kube_keeps_def lawful_whole_api)
qed

lemma whole_ep_keeps:
  assumes "ep_keeps I ep"
  shows "ep_keeps I (ep\<lparr>ep_list := whole_list K display get\<rparr>)"
proof -
  have "keeps I (whole_list K display get p)" for p by (simp add: keeps_def triple_def whole_list_def)
  with assms show ?thesis by (simp add: ep_keeps_def)
qed

lemma whole_env_keeps_store: "externals_keep (\<lambda>w. P (w_store w)) whole_env"
proof -
  have "api_keeps (\<lambda>w. P (w_store w)) whole_api"
    using api_keeps_store[of P 0] unfolding api_keeps_def
    by (simp add: whole_api_def) (simp add: mem_api_def whole_ep_keeps)
  then show ?thesis
    using externals_keep_store[of P 0] by (simp add: externals_keep_def kube_keeps_def whole_env_def)
qed

end
