(* ===== verification/Invariant_Properties.thy ===== *)
theory Invariant_Properties
  imports Orphan_Properties NetBox_Steps NetBox_Unpaged
begin

text \<open>
  What any number of reconciles keeps of NetBox, whatever they return: no two managed objects of a
  kind with one external ID, and no managed object without an external ID. Both follow from the
  steps of \<open>NetBox_Steps\<close>.
\<close>

section \<open>Reconciles in turn\<close>

text \<open>What the manager does with a reconcile: it runs it, and goes on whatever it returns.\<close>

definition in_turn :: "('x, 'v) env \<Rightarrow> (reconciler \<times> request) list \<Rightarrow> ('x world_scheme, unit) go" where
  "in_turn env qs = for_each qs (\<lambda>(r, q). bind (attempt (reconcile r env q)) (\<lambda>_. ret ()))"

text \<open>The four resource reconcilers only read the store.\<close>

lemma reconcile_keeps_store:
  assumes st: "keeps_store env" and r: "r \<noteq> HeraldConfigReconciler"
  shows "keeps (\<lambda>w. w_store w = s) (reconcile r env q)"
proof -
  have kube: "kube_keeps (\<lambda>w. w_store w = s) env" and api: "api_keeps (\<lambda>w. w_store w = s) (Netbox env c)" for c
    using st by (simp_all add: keeps_store_def externals_keep_def)
  have all: "keeps (\<lambda>w. w_store w = s) m"
    if "triple (\<lambda>w. w_store w = s \<and> store_spec (\<lambda>_. True) w) m (\<lambda>_ w. w_store w = s) (\<lambda>_ w. w_store w = s)"
    for m :: "('a world_scheme, result) go"
    using that by (simp add: keeps_def store_spec_def)
  note pkg = api_package_keeps[OF api]
  from r show ?thesis
    by (cases r) (simp_all add: all[OF reconcileCluster_keeps[OF kube pkg]] all[OF reconcileNode_keeps[OF kube pkg]]
      all[OF reconcileService_keeps[OF kube pkg]] all[OF reconcilePodCIDR_keeps[OF kube pkg]])
qed

context view_invariant
begin

lemma in_turn_run:
  assumes world: "\<And>v. lawful_world (sees v) view env" and st: "keeps_store env"
    and spec: "\<And>spec. sto_spec (w_store w) = Some spec \<Longrightarrow> resolveManagedTagSlug spec = slug"
    and qs: "\<forall>(r, q) \<in> set qs. r \<noteq> HeraldConfigReconciler" and J: "J (view w)" and run: "in_turn env qs w = (out, w')"
  shows "J (view w')"
proof -
  let ?I = "\<lambda>u. w_store u = w_store w \<and> J (view u)"
  have "keeps ?I (reconcile r env q)" if "r \<noteq> HeraldConfigReconciler" for r q
    unfolding keeps_def
    by (rule triple_weaken[OF triple_conj[OF keepsD[OF reconcile_keeps_store[OF st that]] reconcile_triple[OF world]]])
      (use spec in \<open>auto simp: store_spec_def\<close>)
  then have "keeps ?I (in_turn env qs)"
    unfolding in_turn_def using qs by (intro keeps_for_each) (auto intro!: keeps_bind keeps_attempt keeps_ret)
  then have "triple ?I (in_turn env qs) (\<lambda>_. ?I) (\<lambda>_. ?I)" by (rule keepsD)
  then show ?thesis using J run by (cases out) (auto simp: triple_def)
qed

end

text \<open>C3: external IDs stay unique. If NetBox returns lists whole and no two managed objects of a
  kind have the same external ID, then that is so again after any number of reconciles of the
  resource reconcilers under one published configuration, in any order and whatever they return:
  a create or update that fails after NetBox has carried it out does not lead to a second object.\<close>

theorem external_ids_stay_unique:
  assumes whole: "\<And>psize. lawful_world psize view env" and st: "keeps_store env"
    and slug: "\<And>spec. sto_spec (w_store w) = Some spec \<Longrightarrow> resolveManagedTagSlug spec = slug"
    and qs: "\<forall>(r, q) \<in> set qs. r \<noteq> HeraldConfigReconciler"
    and unique: "no_duplicates slug (view w)" and run: "in_turn env qs w = (out, w')"
  shows "no_duplicates slug (view w')"
  by (rule unduplicated.in_turn_run[OF whole st slug qs unique run])

lemma keeps_store_whole: "keeps_store whole_env"
  using whole_env_keeps_store[where P = "\<lambda>s. s = t" for t] by (simp add: keeps_store_def)

lemma live_unduplicated: "no_duplicates demo_slug (mem_view live_world)"
  by (auto simp: no_duplicates_def unique_ids_def ids_for_iff mem_view_def live_world_def ext_of_def run_simps split: if_splits)

theorem external_ids_stay_unique_witness:
  "no_duplicates demo_slug (mem_view (snd (in_turn whole_env
     [(ServiceReconciler, \<lparr>rq_Namespace = ''ns'', rq_Name = ''web''\<rparr>),
      (NodeReconciler, \<lparr>rq_Namespace = [], rq_Name = ''node-1''\<rparr>)] live_world)))"
  by (rule external_ids_stay_unique[OF lawful_whole_env keeps_store_whole _ _ live_unduplicated prod.collapse[symmetric]])
    (simp_all add: live_store demo_slug_resolved)

text \<open>C4: every managed object is identified. If each managed object has an external ID, then that
  is so again after any number of reconciles of the resource reconcilers under one published
  configuration, whatever they return and however NetBox pages its lists: the operator never
  leaves an object behind that it could not find again by its Kubernetes object.\<close>

theorem managed_objects_identified:
  assumes law: "lawful_world psize view env" and st: "keeps_store env"
    and slug: "\<And>spec. sto_spec (w_store w) = Some spec \<Longrightarrow> resolveManagedTagSlug spec = slug"
    and qs: "\<forall>(r, q) \<in> set qs. r \<noteq> HeraldConfigReconciler"
    and named: "identified slug (view w)" and run: "in_turn env qs w = (out, w')"
  shows "identified slug (view w')"
  by (rule identified.in_turn_run[OF law st slug qs named run])

lemma live_identified: "identified demo_slug (mem_view live_world)"
  by (auto simp: identified_def has_ids_def managed_def ids_for_iff mem_view_def live_world_def ext_of_def run_simps split: if_splits)

theorem managed_objects_identified_witness:
  "identified demo_slug (mem_view (snd (in_turn (mem_env 50)
     [(ServiceReconciler, \<lparr>rq_Namespace = ''ns'', rq_Name = ''web''\<rparr>),
      (ClusterReconciler, \<lparr>rq_Namespace = [], rq_Name = ''default''\<rparr>)] live_world)))"
  by (rule managed_objects_identified[OF lawful_mem_env keeps_store_mem _ _ live_identified prod.collapse[symmetric]])
    (simp_all add: live_store demo_slug_resolved)

end
