(* ===== verification/Go_Memory.thy ===== *)
theory Go_Memory
  imports Herald_Prelude
begin

text \<open>
  Go's memory, as far as copying a value with pointers in it needs it: a heap of typed cells that
  only grows, the value a piece of memory stands for, and what it means to copy it deeply. Used
  for the generated \<open>DeepCopy\<close> methods only; the reconcilers work on values.
\<close>

section \<open>Heaps\<close>

type_synonym addr = nat

record 'o heap =
  cells :: "addr \<rightharpoonup> 'o"
  next_addr :: addr

definition heap_ok :: "'o heap \<Rightarrow> bool" where
  "heap_ok h \<longleftrightarrow> dom (cells h) \<subseteq> {..<next_addr h}"

definition alloc :: "'o \<Rightarrow> 'o heap \<Rightarrow> addr \<times> 'o heap" where
  "alloc x h = (next_addr h, \<lparr>cells = (cells h)(next_addr h \<mapsto> x), next_addr = Suc (next_addr h)\<rparr>)"

text \<open>Every cell of \<open>h\<close> is in \<open>h'\<close> as it was.\<close>

definition extends :: "'o heap \<Rightarrow> 'o heap \<Rightarrow> bool" where
  "extends h h' \<longleftrightarrow> next_addr h \<le> next_addr h' \<and> (\<forall>a < next_addr h. cells h' a = cells h a)"

lemma extends_refl [simp]: "extends h h"
  by (simp add: extends_def)

lemma extends_trans: "extends h h' \<Longrightarrow> extends h' h'' \<Longrightarrow> extends h h''"
  by (auto simp: extends_def)

lemma alloc_extends: "alloc x h = (a, h') \<Longrightarrow> extends h h'"
  by (auto simp: alloc_def extends_def)

lemma alloc_ok: "alloc x h = (a, h') \<Longrightarrow> heap_ok h \<Longrightarrow> heap_ok h'"
  by (fastforce simp: alloc_def heap_ok_def less_Suc_eq split: if_splits)

section \<open>Layouts\<close>

text \<open>
  How a type sits in memory: the value a piece of memory stands for, the addresses reachable from
  it, and whether all of these are allocated and hold cells of the right type.
\<close>

record ('o, 'x, 'v) layout =
  ly_val :: "'o heap \<Rightarrow> 'x \<Rightarrow> 'v"
  ly_refs :: "'o heap \<Rightarrow> 'x \<Rightarrow> addr set"
  ly_ok :: "'o heap \<Rightarrow> 'x \<Rightarrow> bool"

text \<open>All of a value is in the cells it reaches.\<close>

definition self_contained :: "('o, 'x, 'v) layout \<Rightarrow> bool" where
  "self_contained L \<longleftrightarrow> (\<forall>h x. ly_ok L h x \<longrightarrow> ly_refs L h x \<subseteq> dom (cells h) \<and>
     (\<forall>h'. (\<forall>a \<in> ly_refs L h x. cells h' a = cells h a) \<longrightarrow>
        ly_ok L h' x \<and> ly_val L h' x = ly_val L h x \<and> ly_refs L h' x = ly_refs L h x))"

text \<open>A copy stands for the same value and is in new cells only; nothing old is written.\<close>

definition copied :: "('o, 'x, 'v) layout \<Rightarrow> 'o heap \<Rightarrow> 'x \<Rightarrow> 'x \<Rightarrow> 'o heap \<Rightarrow> bool" where
  "copied L h x x' h' \<longleftrightarrow> heap_ok h' \<and> extends h h' \<and> ly_ok L h' x' \<and> ly_val L h' x' = ly_val L h x \<and>
     ly_refs L h' x' \<inter> {..<next_addr h} = {}"

definition deep_copies :: "('o, 'x, 'v) layout \<Rightarrow> ('x \<Rightarrow> 'o heap \<Rightarrow> 'x \<times> 'o heap) \<Rightarrow> bool" where
  "deep_copies L into \<longleftrightarrow> self_contained L \<and>
     (\<forall>h x x' h'. heap_ok h \<longrightarrow> ly_ok L h x \<longrightarrow> into x h = (x', h') \<longrightarrow> copied L h x x' h')"

lemma deep_copiesD:
  assumes "deep_copies L into"
  shows "self_contained L"
    and "\<lbrakk>heap_ok h; ly_ok L h x; into x h = (x', h')\<rbrakk> \<Longrightarrow> copied L h x x' h'"
  using assms unfolding deep_copies_def by blast+

lemma self_containedD:
  assumes "self_contained L" and "ly_ok L h x"
  shows "ly_refs L h x \<subseteq> dom (cells h)"
    and "(\<And>a. a \<in> ly_refs L h x \<Longrightarrow> cells h' a = cells h a) \<Longrightarrow>
      ly_ok L h' x \<and> ly_val L h' x = ly_val L h x \<and> ly_refs L h' x = ly_refs L h x"
  using assms unfolding self_contained_def by blast+

lemma self_containedI:
  fixes L :: "('o, 'x, 'v) layout"
  assumes "\<And>h x. ly_ok L h x \<Longrightarrow> ly_refs L h x \<subseteq> dom (cells h)"
    and "\<And>h x h'. ly_ok L h x \<Longrightarrow> (\<And>a. a \<in> ly_refs L h x \<Longrightarrow> cells h' a = cells h a) \<Longrightarrow>
      ly_ok L h' x \<and> ly_val L h' x = ly_val L h x \<and> ly_refs L h' x = ly_refs L h x"
  shows "self_contained L"
  using assms unfolding self_contained_def by blast

text \<open>Extending a heap changes nothing that was in it.\<close>

lemma self_contained_extends:
  assumes "self_contained L" and "ly_ok L h x" and "heap_ok h" and "extends h h'"
  shows "ly_ok L h' x \<and> ly_val L h' x = ly_val L h x \<and> ly_refs L h' x = ly_refs L h x"
proof (rule self_containedD(2)[OF assms(1,2)])
  fix a
  assume "a \<in> ly_refs L h x"
  then have "a < next_addr h" using self_containedD(1)[OF assms(1,2)] assms(3) by (auto simp: heap_ok_def)
  then show "cells h' a = cells h a" using assms(4) by (simp add: extends_def)
qed

lemma copied_later:
  assumes "self_contained L" and "copied L h x x' h'" and "extends h' h''" and "heap_ok h''"
  shows "copied L h x x' h''"
  using self_contained_extends[OF assms(1) _ _ assms(3), of x'] assms(2-4) extends_trans
  unfolding copied_def by metis

section \<open>Layouts of Go types\<close>

text \<open>A type without pointers: \<open>*out = *in\<close>.\<close>

definition flat :: "('o, 'x, 'x) layout" where
  "flat = \<lparr>ly_val = (\<lambda>h x. x), ly_refs = (\<lambda>h x. {}), ly_ok = (\<lambda>h x. True)\<rparr>"

definition shallow :: "'x \<Rightarrow> 'o heap \<Rightarrow> 'x \<times> 'o heap" where
  "shallow x h = (x, h)"

lemma flat_copies: "deep_copies flat shallow"
  by (simp add: deep_copies_def self_contained_def copied_def flat_def shallow_def)

text \<open>Two parts of a struct, copied one after the other.\<close>

definition both :: "('o, 'x, 'v) layout \<Rightarrow> ('o, 'y, 'u) layout \<Rightarrow> ('o, 'x \<times> 'y, 'v \<times> 'u) layout" where
  "both K L = \<lparr>ly_val = (\<lambda>h (x, y). (ly_val K h x, ly_val L h y)), ly_refs = (\<lambda>h (x, y). ly_refs K h x \<union> ly_refs L h y),
     ly_ok = (\<lambda>h (x, y). ly_ok K h x \<and> ly_ok L h y)\<rparr>"

definition copy_both :: "('x \<Rightarrow> 'o heap \<Rightarrow> 'x \<times> 'o heap) \<Rightarrow> ('y \<Rightarrow> 'o heap \<Rightarrow> 'y \<times> 'o heap) \<Rightarrow>
    'x \<times> 'y \<Rightarrow> 'o heap \<Rightarrow> ('x \<times> 'y) \<times> 'o heap" where
  "copy_both f g p h = (let (x, h1) = f (fst p) h; (y, h2) = g (snd p) h1 in ((x, y), h2))"

lemma both_self_contained:
  assumes K: "self_contained K" and L: "self_contained L"
  shows "self_contained (both K L)"
proof (rule self_containedI)
  fix h p
  assume "ly_ok (both K L) h p"
  then show "ly_refs (both K L) h p \<subseteq> dom (cells h)"
    using self_containedD(1)[OF K, of h "fst p"] self_containedD(1)[OF L, of h "snd p"] by (simp add: both_def split_beta)
next
  fix h p and h' :: "_ heap"
  assume ok: "ly_ok (both K L) h p" and same: "\<And>a. a \<in> ly_refs (both K L) h p \<Longrightarrow> cells h' a = cells h a"
  have "ly_ok K h' (fst p) \<and> ly_val K h' (fst p) = ly_val K h (fst p) \<and> ly_refs K h' (fst p) = ly_refs K h (fst p)"
    by (rule self_containedD(2)[OF K]) (use ok same in \<open>simp_all add: both_def split_beta\<close>)
  moreover have "ly_ok L h' (snd p) \<and> ly_val L h' (snd p) = ly_val L h (snd p) \<and> ly_refs L h' (snd p) = ly_refs L h (snd p)"
    by (rule self_containedD(2)[OF L]) (use ok same in \<open>simp_all add: both_def split_beta\<close>)
  ultimately show "ly_ok (both K L) h' p \<and> ly_val (both K L) h' p = ly_val (both K L) h p \<and>
      ly_refs (both K L) h' p = ly_refs (both K L) h p"
    by (simp add: both_def split_beta)
qed

text \<open>The second copy runs on the heap the first one leaves, and leaves the first one's result alone.\<close>

lemma copied_both:
  assumes K: "self_contained K" and g: "deep_copies L g" and h: "heap_ok h" and oky: "ly_ok L h y"
    and cx: "copied K h x x' h1" and y: "g y h1 = (y', h2)"
  shows "copied (both K L) h (x, y) (x', y') h2"
proof -
  have h1: "heap_ok h1" and e1: "extends h h1" using cx by (simp_all add: copied_def)
  note later = self_contained_extends[OF deep_copiesD(1)[OF g] oky h e1]
  have cy: "copied L h1 y y' h2" by (rule deep_copiesD(2)[OF g h1 conjunct1[OF later] y])
  then have h2: "heap_ok h2" and e2: "extends h1 h2" by (simp_all add: copied_def)
  have "copied K h x x' h2" by (rule copied_later[OF K cx e2 h2])
  moreover have "{..<next_addr h} \<subseteq> {..<next_addr h1}" using e1 by (simp add: extends_def)
  ultimately show ?thesis using cy later by (auto simp: copied_def both_def)
qed

lemma both_copies:
  assumes f: "deep_copies K f" and g: "deep_copies L g"
  shows "deep_copies (both K L) (copy_both f g)"
  unfolding deep_copies_def
proof (intro conjI allI impI)
  show "self_contained (both K L)" by (rule both_self_contained[OF deep_copiesD(1)[OF f] deep_copiesD(1)[OF g]])
  fix h p p' h2
  assume h: "heap_ok h" and ok: "ly_ok (both K L) h p" and run: "copy_both f g p h = (p', h2)"
  obtain x y where p: "p = (x, y)" by fastforce
  have okx: "ly_ok K h x" and oky: "ly_ok L h y" using ok by (simp_all add: both_def p)
  obtain x' h1 where x: "f x h = (x', h1)" by fastforce
  obtain y' where y: "g y h1 = (y', h2)" and p': "p' = (x', y')"
    using run by (auto simp: copy_both_def p x split: prod.splits)
  show "copied (both K L) h p p' h2"
    unfolding p p' by (rule copied_both[OF deep_copiesD(1)[OF f] g h oky deep_copiesD(2)[OF f h okx x] y])
qed

text \<open>A struct some of whose fields, \<open>sel\<close>, are copied deeply over a shallow copy of it.\<close>

definition struct :: "('s \<Rightarrow> 'x) \<Rightarrow> ('s \<Rightarrow> 'v \<Rightarrow> 'u) \<Rightarrow> ('o, 'x, 'v) layout \<Rightarrow> ('o, 's, 'u) layout" where
  "struct sel mk L = \<lparr>ly_val = (\<lambda>h s. mk s (ly_val L h (sel s))), ly_refs = (\<lambda>h s. ly_refs L h (sel s)),
     ly_ok = (\<lambda>h s. ly_ok L h (sel s))\<rparr>"

lemma struct_self_contained:
  assumes L: "self_contained L"
  shows "self_contained (struct sel mk L)"
proof (rule self_containedI)
  fix h s
  assume "ly_ok (struct sel mk L) h s"
  then show "ly_refs (struct sel mk L) h s \<subseteq> dom (cells h)"
    using self_containedD(1)[OF L, of h "sel s"] by (simp add: struct_def)
next
  fix h s and h' :: "_ heap"
  assume ok: "ly_ok (struct sel mk L) h s" and same: "\<And>a. a \<in> ly_refs (struct sel mk L) h s \<Longrightarrow> cells h' a = cells h a"
  have "ly_ok L h' (sel s) \<and> ly_val L h' (sel s) = ly_val L h (sel s) \<and> ly_refs L h' (sel s) = ly_refs L h (sel s)"
    by (rule self_containedD(2)[OF L]) (use ok same in \<open>simp_all add: struct_def\<close>)
  then show "ly_ok (struct sel mk L) h' s \<and> ly_val (struct sel mk L) h' s = ly_val (struct sel mk L) h s \<and>
      ly_refs (struct sel mk L) h' s = ly_refs (struct sel mk L) h s"
    by (simp add: struct_def)
qed

lemma struct_copies:
  assumes L: "deep_copies L f" and into: "\<And>s h. into s h = (let (x, h') = f (sel s) h in (upd x s, h'))"
    and sel: "\<And>x s. sel (upd x s) = x" and mk: "\<And>x s v. mk (upd x s) v = mk s v"
  shows "deep_copies (struct sel mk L) into"
  unfolding deep_copies_def
proof (intro conjI allI impI)
  show "self_contained (struct sel mk L)" by (rule struct_self_contained[OF deep_copiesD(1)[OF L]])
  fix h s s' h'
  assume h: "heap_ok h" and ok: "ly_ok (struct sel mk L) h s" and run: "into s h = (s', h')"
  obtain x where x: "f (sel s) h = (x, h')" and s': "s' = upd x s"
    using run unfolding into by (cases "f (sel s) h") simp
  have "copied L h (sel s) x h'" by (rule deep_copiesD(2)[OF L h _ x]) (use ok in \<open>simp add: struct_def\<close>)
  then show "copied (struct sel mk L) h s s' h'" by (simp add: copied_def struct_def sel mk s')
qed

text \<open>
  A pointer: nil, or the address of a cell of the type \<open>unwrap\<close> recognises. Copying it allocates a
  cell for the copy. Which address that is cannot be observed, so it is allocated last.
\<close>

definition pointee :: "('o \<Rightarrow> 'x option) \<Rightarrow> 'o heap \<Rightarrow> addr \<Rightarrow> 'x" where
  "pointee unwrap h a = the (unwrap (the (cells h a)))"

definition pointer :: "('o \<Rightarrow> 'x option) \<Rightarrow> ('o, 'x, 'v) layout \<Rightarrow> ('o, addr option, 'v option) layout" where
  "pointer unwrap L =
     \<lparr>ly_val = (\<lambda>h. map_option (\<lambda>a. ly_val L h (pointee unwrap h a))),
      ly_refs = (\<lambda>h p. case p of None \<Rightarrow> {} | Some a \<Rightarrow> insert a (ly_refs L h (pointee unwrap h a))),
      ly_ok = (\<lambda>h p. case p of None \<Rightarrow> True
         | Some a \<Rightarrow> (\<exists>cell x. cells h a = Some cell \<and> unwrap cell = Some x \<and> ly_ok L h x))\<rparr>"

definition copy_pointer :: "('x \<Rightarrow> 'o) \<Rightarrow> ('o \<Rightarrow> 'x option) \<Rightarrow> ('x \<Rightarrow> 'o heap \<Rightarrow> 'x \<times> 'o heap) \<Rightarrow>
    addr option \<Rightarrow> 'o heap \<Rightarrow> addr option \<times> 'o heap" where
  "copy_pointer wrap unwrap into p h = (case p of
     None \<Rightarrow> (None, h)
   | Some a \<Rightarrow> let (out, h1) = into (pointee unwrap h a) h; (b, h2) = alloc (wrap out) h1 in (Some b, h2))"

lemma pointee_eq: "cells h a = Some cell \<Longrightarrow> unwrap cell = Some x \<Longrightarrow> pointee unwrap h a = x"
  by (simp add: pointee_def)

lemma pointer_self_contained:
  assumes L: "self_contained L"
  shows "self_contained (pointer unwrap L)"
proof (rule self_containedI)
  fix h p
  assume ok: "ly_ok (pointer unwrap L) h p"
  then show "ly_refs (pointer unwrap L) h p \<subseteq> dom (cells h)"
    by (auto simp: pointer_def pointee_def split: option.splits dest!: self_containedD(1)[OF L, THEN subsetD, rotated])
next
  fix h p and h' :: "_ heap"
  assume ok: "ly_ok (pointer unwrap L) h p" and same: "\<And>a. a \<in> ly_refs (pointer unwrap L) h p \<Longrightarrow> cells h' a = cells h a"
  show "ly_ok (pointer unwrap L) h' p \<and> ly_val (pointer unwrap L) h' p = ly_val (pointer unwrap L) h p \<and>
      ly_refs (pointer unwrap L) h' p = ly_refs (pointer unwrap L) h p"
  proof (cases p)
    case None
    then show ?thesis by (simp add: pointer_def)
  next
    case (Some a)
    then obtain cell x where a: "cells h a = Some cell" and x: "unwrap cell = Some x" and okx: "ly_ok L h x"
      using ok by (auto simp: pointer_def)
    note eq = pointee_eq[where unwrap = unwrap, OF _ x]
    have refs: "ly_refs (pointer unwrap L) h p = insert a (ly_refs L h x)" by (simp add: pointer_def Some eq[OF a])
    have a': "cells h' a = Some cell" using same a by (simp add: refs)
    have "ly_ok L h' x \<and> ly_val L h' x = ly_val L h x \<and> ly_refs L h' x = ly_refs L h x"
      by (rule self_containedD(2)[OF L okx]) (use same in \<open>simp add: refs\<close>)
    then show ?thesis by (simp add: pointer_def Some eq[OF a] eq[OF a'] a' x)
  qed
qed

lemma pointer_copies:
  assumes L: "deep_copies L into" and wrap: "\<And>x. unwrap (wrap x) = Some x"
  shows "deep_copies (pointer unwrap L) (copy_pointer wrap unwrap into)"
  unfolding deep_copies_def
proof (intro conjI allI impI)
  show "self_contained (pointer unwrap L)" by (rule pointer_self_contained[OF deep_copiesD(1)[OF L]])
  fix h p p' h2
  assume h: "heap_ok h" and ok: "ly_ok (pointer unwrap L) h p" and run: "copy_pointer wrap unwrap into p h = (p', h2)"
  show "copied (pointer unwrap L) h p p' h2"
  proof (cases p)
    case None
    with run h show ?thesis by (auto simp: copy_pointer_def copied_def pointer_def)
  next
    case (Some a)
    then obtain cell x where a: "cells h a = Some cell" and x: "unwrap cell = Some x" and okx: "ly_ok L h x"
      using ok by (auto simp: pointer_def)
    have eq: "pointee unwrap h a = x" by (rule pointee_eq[where unwrap = unwrap, OF a x])
    obtain out h1 where into: "into x h = (out, h1)" by fastforce
    have c: "copied L h x out h1" by (rule deep_copiesD(2)[OF L h okx into])
    then have h1: "heap_ok h1" by (simp add: copied_def)
    obtain b where b: "alloc (wrap out) h1 = (b, h2)" and p': "p' = Some b"
      using run by (auto simp: copy_pointer_def Some eq into split: prod.splits)
    note e = alloc_extends[OF b] and h2 = alloc_ok[OF b h1]
    have c2: "copied L h x out h2" by (rule copied_later[OF deep_copiesD(1)[OF L] c e h2])
    have cell: "cells h2 b = Some (wrap out)" and fresh: "b = next_addr h1" using b by (auto simp: alloc_def)
    have out: "pointee unwrap h2 b = out" by (rule pointee_eq[where unwrap = unwrap, OF cell wrap])
    have "next_addr h \<le> b" using c fresh by (simp add: copied_def extends_def)
    with c2 show ?thesis by (auto simp: copied_def pointer_def p' Some eq out cell wrap)
  qed
qed

text \<open>The elements of an array, copied in order.\<close>

definition elements :: "('o, 'x, 'v) layout \<Rightarrow> ('o, 'x list, 'v list) layout" where
  "elements L = \<lparr>ly_val = (\<lambda>h. map (ly_val L h)), ly_refs = (\<lambda>h xs. \<Union>x \<in> set xs. ly_refs L h x),
     ly_ok = (\<lambda>h. list_all (ly_ok L h))\<rparr>"

fun copy_elements :: "('x \<Rightarrow> 'o heap \<Rightarrow> 'x \<times> 'o heap) \<Rightarrow> 'x list \<Rightarrow> 'o heap \<Rightarrow> 'x list \<times> 'o heap" where
  "copy_elements f [] h = ([], h)"
| "copy_elements f (x # xs) h = (let (y, h1) = f x h; (ys, h2) = copy_elements f xs h1 in (y # ys, h2))"

lemma copy_elements_length: "length (fst (copy_elements f xs h)) = length xs"
  by (induction xs arbitrary: h) (simp_all add: split_beta Let_def)

lemma elements_self_contained:
  assumes L: "self_contained L"
  shows "self_contained (elements L)"
proof (rule self_containedI)
  fix h xs
  assume "ly_ok (elements L) h xs"
  then show "ly_refs (elements L) h xs \<subseteq> dom (cells h)"
    using self_containedD(1)[OF L] by (force simp: elements_def list_all_iff)
next
  fix h xs and h' :: "_ heap"
  assume ok: "ly_ok (elements L) h xs" and same: "\<And>a. a \<in> ly_refs (elements L) h xs \<Longrightarrow> cells h' a = cells h a"
  have "ly_ok L h' x \<and> ly_val L h' x = ly_val L h x \<and> ly_refs L h' x = ly_refs L h x" if "x \<in> set xs" for x
    by (rule self_containedD(2)[OF L]) (use ok same that in \<open>auto simp: elements_def list_all_iff\<close>)
  then show "ly_ok (elements L) h' xs \<and> ly_val (elements L) h' xs = ly_val (elements L) h xs \<and>
      ly_refs (elements L) h' xs = ly_refs (elements L) h xs"
    by (simp add: elements_def list_all_iff)
qed

lemma elements_copies:
  assumes f: "deep_copies L f"
  shows "deep_copies (elements L) (copy_elements f)"
proof -
  note self = elements_self_contained[OF deep_copiesD(1)[OF f]]
  have "copied (elements L) h xs xs' h'"
    if "heap_ok h" "ly_ok (elements L) h xs" "copy_elements f xs h = (xs', h')" for h xs xs' h'
    using that
  proof (induction xs arbitrary: h xs')
    case Nil
    then show ?case by (simp add: copied_def elements_def)
  next
    case (Cons x xs)
    have okx: "ly_ok L h x" and ok: "ly_ok (elements L) h xs" using Cons.prems(2) by (simp_all add: elements_def)
    obtain y h1 where y: "f x h = (y, h1)" by fastforce
    obtain ys where ys: "copy_elements f xs h1 = (ys, h')" and xs': "xs' = y # ys"
      using Cons.prems(3) by (auto simp: y split: prod.splits)
    have c: "copied L h x y h1" by (rule deep_copiesD(2)[OF f Cons.prems(1) okx y])
    then have h1: "heap_ok h1" and e1: "extends h h1" by (simp_all add: copied_def)
    note later = self_contained_extends[OF self ok Cons.prems(1) e1]
    have cs: "copied (elements L) h1 xs ys h'" by (rule Cons.IH[OF h1 conjunct1[OF later] ys])
    then have h': "heap_ok h'" and e2: "extends h1 h'" by (simp_all add: copied_def)
    have "copied L h x y h'" by (rule copied_later[OF deep_copiesD(1)[OF f] c e2 h'])
    moreover have "{..<next_addr h} \<subseteq> {..<next_addr h1}" using e1 by (simp add: extends_def)
    ultimately show ?case using cs later by (auto simp: copied_def elements_def xs')
  qed
  then show ?thesis unfolding deep_copies_def using self by blast
qed

text \<open>A slice: nil, or the first \<open>n\<close> elements of a backing array. The copy's array has no more.\<close>

definition prefix_of :: "nat \<Rightarrow> ('o, 'x, 'v) layout \<Rightarrow> ('o, 'x list, 'v list) layout" where
  "prefix_of n L = struct (take n) (\<lambda>_ vs. vs) (elements L)"

definition slice :: "('o \<Rightarrow> 'x list option) \<Rightarrow> ('o, 'x, 'v) layout \<Rightarrow> ('o, (addr \<times> nat) option, 'v list option) layout" where
  "slice unwrap L =
     \<lparr>ly_val = (\<lambda>h s. case s of None \<Rightarrow> None | Some (a, n) \<Rightarrow> ly_val (pointer unwrap (prefix_of n L)) h (Some a)),
      ly_refs = (\<lambda>h s. case s of None \<Rightarrow> {} | Some (a, n) \<Rightarrow> ly_refs (pointer unwrap (prefix_of n L)) h (Some a)),
      ly_ok = (\<lambda>h s. case s of None \<Rightarrow> True | Some (a, n) \<Rightarrow> ly_ok (pointer unwrap (prefix_of n L)) h (Some a))\<rparr>"

definition copy_slice :: "('x list \<Rightarrow> 'o) \<Rightarrow> ('o \<Rightarrow> 'x list option) \<Rightarrow> ('x \<Rightarrow> 'o heap \<Rightarrow> 'x \<times> 'o heap) \<Rightarrow>
    (addr \<times> nat) option \<Rightarrow> 'o heap \<Rightarrow> (addr \<times> nat) option \<times> 'o heap" where
  "copy_slice wrap unwrap f s h = (case s of
     None \<Rightarrow> (None, h)
   | Some (a, n) \<Rightarrow>
       let (p, h') = copy_pointer wrap unwrap (\<lambda>xs. copy_elements f (take n xs)) (Some a) h in
       (map_option (\<lambda>b. (b, n)) p, h'))"

lemma prefix_copies:
  assumes "deep_copies L f"
  shows "deep_copies (prefix_of n L) (\<lambda>xs. copy_elements f (take n xs))"
  unfolding deep_copies_def
proof (intro conjI allI impI)
  show "self_contained (prefix_of n L)"
    unfolding prefix_of_def by (rule struct_self_contained[OF elements_self_contained[OF deep_copiesD(1)[OF assms]]])
  fix h xs xs' h'
  assume h: "heap_ok h" and ok: "ly_ok (prefix_of n L) h xs" and run: "copy_elements f (take n xs) h = (xs', h')"
  have "copied (elements L) h (take n xs) xs' h'"
    by (rule deep_copiesD(2)[OF elements_copies[OF assms] h _ run]) (use ok in \<open>simp add: prefix_of_def struct_def\<close>)
  moreover have "take n xs' = xs'" using copy_elements_length[of f "take n xs" h] by (simp add: run)
  ultimately show "copied (prefix_of n L) h xs xs' h'" by (simp add: copied_def prefix_of_def struct_def)
qed

lemma slice_copies:
  assumes L: "deep_copies L f" and wrap: "\<And>x. unwrap (wrap x) = Some x"
  shows "deep_copies (slice unwrap L) (copy_slice wrap unwrap f)"
  unfolding deep_copies_def
proof (intro conjI allI impI)
  note ptr = pointer_copies[where unwrap = unwrap and wrap = wrap, OF prefix_copies[OF L] wrap]
  show "self_contained (slice unwrap L)"
  proof (rule self_containedI)
    fix h s
    assume "ly_ok (slice unwrap L) h s"
    then show "ly_refs (slice unwrap L) h s \<subseteq> dom (cells h)"
      using self_containedD(1)[OF deep_copiesD(1)[OF ptr], where h = h and x = "map_option fst s"]
      by (cases s) (simp_all add: slice_def split_beta)
  next
    fix h s and h' :: "_ heap"
    assume ok: "ly_ok (slice unwrap L) h s" and same: "\<And>a. a \<in> ly_refs (slice unwrap L) h s \<Longrightarrow> cells h' a = cells h a"
    show "ly_ok (slice unwrap L) h' s \<and> ly_val (slice unwrap L) h' s = ly_val (slice unwrap L) h s \<and>
        ly_refs (slice unwrap L) h' s = ly_refs (slice unwrap L) h s"
    proof (cases s)
      case None
      then show ?thesis by (simp add: slice_def)
    next
      case (Some an)
      then obtain a n where s: "s = Some (a, n)" by (cases an) simp
      have "ly_ok (pointer unwrap (prefix_of n L)) h' (Some a) \<and>
          ly_val (pointer unwrap (prefix_of n L)) h' (Some a) = ly_val (pointer unwrap (prefix_of n L)) h (Some a) \<and>
          ly_refs (pointer unwrap (prefix_of n L)) h' (Some a) = ly_refs (pointer unwrap (prefix_of n L)) h (Some a)"
        by (rule self_containedD(2)[OF deep_copiesD(1)[OF ptr]]) (use ok same in \<open>simp_all add: slice_def s\<close>)
      then show ?thesis by (simp add: slice_def s)
    qed
  qed
  fix h s s' h'
  assume h: "heap_ok h" and ok: "ly_ok (slice unwrap L) h s" and run: "copy_slice wrap unwrap f s h = (s', h')"
  show "copied (slice unwrap L) h s s' h'"
  proof (cases s)
    case None
    with run h show ?thesis by (auto simp: copy_slice_def copied_def slice_def)
  next
    case (Some an)
    then obtain a n where s: "s = Some (a, n)" by (cases an) simp
    obtain p where p: "copy_pointer wrap unwrap (\<lambda>xs. copy_elements f (take n xs)) (Some a) h = (p, h')"
      and s': "s' = map_option (\<lambda>b. (b, n)) p"
      using run by (auto simp: copy_slice_def s split: prod.splits)
    have "copied (pointer unwrap (prefix_of n L)) h (Some a) p h'"
      by (rule deep_copiesD(2)[OF ptr h _ p]) (use ok in \<open>simp add: slice_def s\<close>)
    moreover obtain b where "p = Some b" using p by (auto simp: copy_pointer_def split: prod.splits)
    ultimately show ?thesis by (simp add: copied_def slice_def s s')
  qed
qed

end
