(* ===== verification/Deep_Copy.thy ===== *)
theory Deep_Copy
  imports Go_Memory HeraldConfig_Types
begin

text \<open>
  \<open>api/v1alpha1/zz_generated.deepcopy.go\<close>: the deep copies of the HeraldConfig types. A type with a
  pointer, map or slice in it has a record \<open>T_mem\<close> of its memory, with an address where Go has the
  pointer; the value it stands for is the record \<open>T\<close> of \<open>HeraldConfig_Types\<close>. Object and list
  metadata, times and conditions are copied by apimachinery, which is the parameter \<open>foreign\<close>.
\<close>

section \<open>The types in memory\<close>

record TLSConfig_mem =
  tm_InsecureSkipVerify :: bool
  tm_CABundleSecretRef :: "addr option"

record NetBoxConfig_mem =
  nm_URL :: string
  nm_TokenSecretRef :: SecretKeyRef
  nm_TLS :: TLSConfig_mem
  nm_RequestTimeoutSeconds :: "32 word"
  nm_VersionCheck :: VersionCheckConfig
  nm_ManagedTag :: ManagedTagConfig

text \<open>A map is a reference: nil, or the address of its entries.\<close>

record ResourcesConfig_mem =
  rm_Cluster :: ClusterResourceConfig
  rm_Nodes :: NodesResourceConfig
  rm_Services :: ServicesResourceConfig
  rm_PodCIDRs :: PodCIDRsResourceConfig
  rm_Additional :: "addr option"

record HeraldConfigSpec_mem =
  pm_NetBox :: NetBoxConfig_mem
  pm_Resync :: ResyncConfig
  pm_Resources :: ResourcesConfig_mem

record NetBoxStatus_mem =
  bm_Connected :: bool
  bm_Version :: string
  bm_LastCheckedTime :: "addr option"

record ResourceSyncStatus_mem =
  ym_Enabled :: bool
  ym_LastSyncTime :: "addr option"
  ym_ObservedGeneration :: "64 word"
  ym_ObjectCount :: "32 word"
  ym_LastError :: message

record ResourceStatuses_mem =
  um_Cluster :: ResourceSyncStatus_mem
  um_Nodes :: ResourceSyncStatus_mem
  um_Services :: ResourceSyncStatus_mem
  um_PodCIDRs :: ResourceSyncStatus_mem

record HeraldConfigStatus_mem =
  am_Conditions :: "(addr \<times> nat) option"
  am_NetBox :: NetBoxStatus_mem
  am_Resources :: ResourceStatuses_mem

record TypeMeta =
  ty_Kind :: string
  ty_APIVersion :: string

record 'm HeraldConfig_mem =
  hm_TypeMeta :: TypeMeta
  hm_ObjectMeta :: 'm
  hm_Spec :: HeraldConfigSpec_mem
  hm_Status :: HeraldConfigStatus_mem

record 'l HeraldConfigList_mem =
  lm_TypeMeta :: TypeMeta
  lm_ListMeta :: 'l
  lm_Items :: "(addr \<times> nat) option"

text \<open>The values of the two objects.\<close>

record 'mv HeraldConfig_object =
  ho_TypeMeta :: TypeMeta
  ho_ObjectMeta :: 'mv
  ho_Spec :: HeraldConfigSpec
  ho_Status :: HeraldConfigStatus

record ('mv, 'lv) HeraldConfigList_object =
  lo_TypeMeta :: TypeMeta
  lo_ListMeta :: 'lv
  lo_Items :: "'mv HeraldConfig_object list option"

text \<open>What a cell can hold: a struct made by \<open>new\<close>, the entries of a map, a backing array.\<close>

datatype ('m, 'l) obj =
    OTime time
  | OAdditional "string \<rightharpoonup> GenericResourceConfig"
  | OConditions "condition list"
  | OItems "'m HeraldConfig_mem list"
  | OSecretKeyRef SecretKeyRef
  | OVersionCheckConfig VersionCheckConfig
  | OManagedTagConfig ManagedTagConfig
  | OResyncConfig ResyncConfig
  | OClusterResourceConfig ClusterResourceConfig
  | ODeviceMappingConfig DeviceMappingConfig
  | OVirtualMachineMappingConfig VirtualMachineMappingConfig
  | ONodesResourceConfig NodesResourceConfig
  | OServicesResourceConfig ServicesResourceConfig
  | OPodCIDRsResourceConfig PodCIDRsResourceConfig
  | OGenericResourceConfig GenericResourceConfig
  | OTLSConfig TLSConfig_mem
  | ONetBoxConfig NetBoxConfig_mem
  | OResourcesConfig ResourcesConfig_mem
  | OHeraldConfigSpec HeraldConfigSpec_mem
  | ONetBoxStatus NetBoxStatus_mem
  | OResourceSyncStatus ResourceSyncStatus_mem
  | OResourceStatuses ResourceStatuses_mem
  | OHeraldConfigStatus HeraldConfigStatus_mem
  | OHeraldConfig "'m HeraldConfig_mem"
  | OHeraldConfigList "'l HeraldConfigList_mem"

type_synonym ('m, 'l) memory_of = "('m, 'l) obj heap"

definition as_Time :: "('m, 'l) obj \<Rightarrow> time option" where
  "as_Time c = (case c of OTime x \<Rightarrow> Some x | _ \<Rightarrow> None)"

definition as_Additional :: "('m, 'l) obj \<Rightarrow> (string \<rightharpoonup> GenericResourceConfig) option" where
  "as_Additional c = (case c of OAdditional x \<Rightarrow> Some x | _ \<Rightarrow> None)"

definition as_Conditions :: "('m, 'l) obj \<Rightarrow> (condition list) option" where
  "as_Conditions c = (case c of OConditions x \<Rightarrow> Some x | _ \<Rightarrow> None)"

definition as_Items :: "('m, 'l) obj \<Rightarrow> ('m HeraldConfig_mem list) option" where
  "as_Items c = (case c of OItems x \<Rightarrow> Some x | _ \<Rightarrow> None)"

definition as_SecretKeyRef :: "('m, 'l) obj \<Rightarrow> SecretKeyRef option" where
  "as_SecretKeyRef c = (case c of OSecretKeyRef x \<Rightarrow> Some x | _ \<Rightarrow> None)"

definition as_VersionCheckConfig :: "('m, 'l) obj \<Rightarrow> VersionCheckConfig option" where
  "as_VersionCheckConfig c = (case c of OVersionCheckConfig x \<Rightarrow> Some x | _ \<Rightarrow> None)"

definition as_ManagedTagConfig :: "('m, 'l) obj \<Rightarrow> ManagedTagConfig option" where
  "as_ManagedTagConfig c = (case c of OManagedTagConfig x \<Rightarrow> Some x | _ \<Rightarrow> None)"

definition as_ResyncConfig :: "('m, 'l) obj \<Rightarrow> ResyncConfig option" where
  "as_ResyncConfig c = (case c of OResyncConfig x \<Rightarrow> Some x | _ \<Rightarrow> None)"

definition as_ClusterResourceConfig :: "('m, 'l) obj \<Rightarrow> ClusterResourceConfig option" where
  "as_ClusterResourceConfig c = (case c of OClusterResourceConfig x \<Rightarrow> Some x | _ \<Rightarrow> None)"

definition as_DeviceMappingConfig :: "('m, 'l) obj \<Rightarrow> DeviceMappingConfig option" where
  "as_DeviceMappingConfig c = (case c of ODeviceMappingConfig x \<Rightarrow> Some x | _ \<Rightarrow> None)"

definition as_VirtualMachineMappingConfig :: "('m, 'l) obj \<Rightarrow> VirtualMachineMappingConfig option" where
  "as_VirtualMachineMappingConfig c = (case c of OVirtualMachineMappingConfig x \<Rightarrow> Some x | _ \<Rightarrow> None)"

definition as_NodesResourceConfig :: "('m, 'l) obj \<Rightarrow> NodesResourceConfig option" where
  "as_NodesResourceConfig c = (case c of ONodesResourceConfig x \<Rightarrow> Some x | _ \<Rightarrow> None)"

definition as_ServicesResourceConfig :: "('m, 'l) obj \<Rightarrow> ServicesResourceConfig option" where
  "as_ServicesResourceConfig c = (case c of OServicesResourceConfig x \<Rightarrow> Some x | _ \<Rightarrow> None)"

definition as_PodCIDRsResourceConfig :: "('m, 'l) obj \<Rightarrow> PodCIDRsResourceConfig option" where
  "as_PodCIDRsResourceConfig c = (case c of OPodCIDRsResourceConfig x \<Rightarrow> Some x | _ \<Rightarrow> None)"

definition as_GenericResourceConfig :: "('m, 'l) obj \<Rightarrow> GenericResourceConfig option" where
  "as_GenericResourceConfig c = (case c of OGenericResourceConfig x \<Rightarrow> Some x | _ \<Rightarrow> None)"

definition as_TLSConfig :: "('m, 'l) obj \<Rightarrow> TLSConfig_mem option" where
  "as_TLSConfig c = (case c of OTLSConfig x \<Rightarrow> Some x | _ \<Rightarrow> None)"

definition as_NetBoxConfig :: "('m, 'l) obj \<Rightarrow> NetBoxConfig_mem option" where
  "as_NetBoxConfig c = (case c of ONetBoxConfig x \<Rightarrow> Some x | _ \<Rightarrow> None)"

definition as_ResourcesConfig :: "('m, 'l) obj \<Rightarrow> ResourcesConfig_mem option" where
  "as_ResourcesConfig c = (case c of OResourcesConfig x \<Rightarrow> Some x | _ \<Rightarrow> None)"

definition as_HeraldConfigSpec :: "('m, 'l) obj \<Rightarrow> HeraldConfigSpec_mem option" where
  "as_HeraldConfigSpec c = (case c of OHeraldConfigSpec x \<Rightarrow> Some x | _ \<Rightarrow> None)"

definition as_NetBoxStatus :: "('m, 'l) obj \<Rightarrow> NetBoxStatus_mem option" where
  "as_NetBoxStatus c = (case c of ONetBoxStatus x \<Rightarrow> Some x | _ \<Rightarrow> None)"

definition as_ResourceSyncStatus :: "('m, 'l) obj \<Rightarrow> ResourceSyncStatus_mem option" where
  "as_ResourceSyncStatus c = (case c of OResourceSyncStatus x \<Rightarrow> Some x | _ \<Rightarrow> None)"

definition as_ResourceStatuses :: "('m, 'l) obj \<Rightarrow> ResourceStatuses_mem option" where
  "as_ResourceStatuses c = (case c of OResourceStatuses x \<Rightarrow> Some x | _ \<Rightarrow> None)"

definition as_HeraldConfigStatus :: "('m, 'l) obj \<Rightarrow> HeraldConfigStatus_mem option" where
  "as_HeraldConfigStatus c = (case c of OHeraldConfigStatus x \<Rightarrow> Some x | _ \<Rightarrow> None)"

definition as_HeraldConfig :: "('m, 'l) obj \<Rightarrow> ('m HeraldConfig_mem) option" where
  "as_HeraldConfig c = (case c of OHeraldConfig x \<Rightarrow> Some x | _ \<Rightarrow> None)"

definition as_HeraldConfigList :: "('m, 'l) obj \<Rightarrow> ('l HeraldConfigList_mem) option" where
  "as_HeraldConfigList c = (case c of OHeraldConfigList x \<Rightarrow> Some x | _ \<Rightarrow> None)"

lemma as_simps [simp]:
  "as_Time (OTime x0) = Some x0"
  "as_Additional (OAdditional x1) = Some x1"
  "as_Conditions (OConditions x2) = Some x2"
  "as_Items (OItems x3) = Some x3"
  "as_SecretKeyRef (OSecretKeyRef x4) = Some x4"
  "as_VersionCheckConfig (OVersionCheckConfig x5) = Some x5"
  "as_ManagedTagConfig (OManagedTagConfig x6) = Some x6"
  "as_ResyncConfig (OResyncConfig x7) = Some x7"
  "as_ClusterResourceConfig (OClusterResourceConfig x8) = Some x8"
  "as_DeviceMappingConfig (ODeviceMappingConfig x9) = Some x9"
  "as_VirtualMachineMappingConfig (OVirtualMachineMappingConfig x10) = Some x10"
  "as_NodesResourceConfig (ONodesResourceConfig x11) = Some x11"
  "as_ServicesResourceConfig (OServicesResourceConfig x12) = Some x12"
  "as_PodCIDRsResourceConfig (OPodCIDRsResourceConfig x13) = Some x13"
  "as_GenericResourceConfig (OGenericResourceConfig x14) = Some x14"
  "as_TLSConfig (OTLSConfig x15) = Some x15"
  "as_NetBoxConfig (ONetBoxConfig x16) = Some x16"
  "as_ResourcesConfig (OResourcesConfig x17) = Some x17"
  "as_HeraldConfigSpec (OHeraldConfigSpec x18) = Some x18"
  "as_NetBoxStatus (ONetBoxStatus x19) = Some x19"
  "as_ResourceSyncStatus (OResourceSyncStatus x20) = Some x20"
  "as_ResourceStatuses (OResourceStatuses x21) = Some x21"
  "as_HeraldConfigStatus (OHeraldConfigStatus x22) = Some x22"
  "as_HeraldConfig (OHeraldConfig x23) = Some x23"
  "as_HeraldConfigList (OHeraldConfigList x24) = Some x24"
  by (simp_all add: as_Time_def as_Additional_def as_Conditions_def as_Items_def as_SecretKeyRef_def as_VersionCheckConfig_def as_ManagedTagConfig_def as_ResyncConfig_def as_ClusterResourceConfig_def as_DeviceMappingConfig_def as_VirtualMachineMappingConfig_def as_NodesResourceConfig_def as_ServicesResourceConfig_def as_PodCIDRsResourceConfig_def as_GenericResourceConfig_def as_TLSConfig_def as_NetBoxConfig_def as_ResourcesConfig_def as_HeraldConfigSpec_def as_NetBoxStatus_def as_ResourceSyncStatus_def as_ResourceStatuses_def as_HeraldConfigStatus_def as_HeraldConfig_def as_HeraldConfigList_def)

text \<open>
  What apimachinery's own deep copies are: object metadata and list metadata with layouts of their
  own, a time behind a pointer, a condition of a slice.
\<close>

record ('m, 'l, 'mv, 'lv) foreign =
  ObjectMeta_layout :: "(('m, 'l) obj, 'm, 'mv) layout"
  ObjectMeta_DeepCopyInto :: "'m \<Rightarrow> ('m, 'l) memory_of \<Rightarrow> 'm \<times> ('m, 'l) memory_of"
  ListMeta_layout :: "(('m, 'l) obj, 'l, 'lv) layout"
  ListMeta_DeepCopyInto :: "'l \<Rightarrow> ('m, 'l) memory_of \<Rightarrow> 'l \<times> ('m, 'l) memory_of"
  Time_DeepCopy :: "addr option \<Rightarrow> ('m, 'l) memory_of \<Rightarrow> addr option \<times> ('m, 'l) memory_of"
  Condition_DeepCopyInto :: "condition \<Rightarrow> ('m, 'l) memory_of \<Rightarrow> condition \<times> ('m, 'l) memory_of"

definition documented_copies :: "('m, 'l, 'mv, 'lv) foreign \<Rightarrow> bool" where
  "documented_copies F \<longleftrightarrow>
     deep_copies (ObjectMeta_layout F) (ObjectMeta_DeepCopyInto F) \<and>
     deep_copies (ListMeta_layout F) (ListMeta_DeepCopyInto F) \<and>
     deep_copies (pointer as_Time flat) (Time_DeepCopy F) \<and> deep_copies flat (Condition_DeepCopyInto F)"

section \<open>Types without pointers\<close>

definition SecretKeyRef_DeepCopyInto :: "SecretKeyRef \<Rightarrow> ('m, 'l) memory_of \<Rightarrow> SecretKeyRef \<times> ('m, 'l) memory_of" where
  "SecretKeyRef_DeepCopyInto = shallow"

definition SecretKeyRef_DeepCopy :: "addr option \<Rightarrow> ('m, 'l) memory_of \<Rightarrow> addr option \<times> ('m, 'l) memory_of" where
  "SecretKeyRef_DeepCopy = copy_pointer OSecretKeyRef as_SecretKeyRef SecretKeyRef_DeepCopyInto"

definition VersionCheckConfig_DeepCopyInto :: "VersionCheckConfig \<Rightarrow> ('m, 'l) memory_of \<Rightarrow> VersionCheckConfig \<times> ('m, 'l) memory_of" where
  "VersionCheckConfig_DeepCopyInto = shallow"

definition VersionCheckConfig_DeepCopy :: "addr option \<Rightarrow> ('m, 'l) memory_of \<Rightarrow> addr option \<times> ('m, 'l) memory_of" where
  "VersionCheckConfig_DeepCopy = copy_pointer OVersionCheckConfig as_VersionCheckConfig VersionCheckConfig_DeepCopyInto"

definition ManagedTagConfig_DeepCopyInto :: "ManagedTagConfig \<Rightarrow> ('m, 'l) memory_of \<Rightarrow> ManagedTagConfig \<times> ('m, 'l) memory_of" where
  "ManagedTagConfig_DeepCopyInto = shallow"

definition ManagedTagConfig_DeepCopy :: "addr option \<Rightarrow> ('m, 'l) memory_of \<Rightarrow> addr option \<times> ('m, 'l) memory_of" where
  "ManagedTagConfig_DeepCopy = copy_pointer OManagedTagConfig as_ManagedTagConfig ManagedTagConfig_DeepCopyInto"

definition ResyncConfig_DeepCopyInto :: "ResyncConfig \<Rightarrow> ('m, 'l) memory_of \<Rightarrow> ResyncConfig \<times> ('m, 'l) memory_of" where
  "ResyncConfig_DeepCopyInto = shallow"

definition ResyncConfig_DeepCopy :: "addr option \<Rightarrow> ('m, 'l) memory_of \<Rightarrow> addr option \<times> ('m, 'l) memory_of" where
  "ResyncConfig_DeepCopy = copy_pointer OResyncConfig as_ResyncConfig ResyncConfig_DeepCopyInto"

definition ClusterResourceConfig_DeepCopyInto :: "ClusterResourceConfig \<Rightarrow> ('m, 'l) memory_of \<Rightarrow> ClusterResourceConfig \<times> ('m, 'l) memory_of" where
  "ClusterResourceConfig_DeepCopyInto = shallow"

definition ClusterResourceConfig_DeepCopy :: "addr option \<Rightarrow> ('m, 'l) memory_of \<Rightarrow> addr option \<times> ('m, 'l) memory_of" where
  "ClusterResourceConfig_DeepCopy = copy_pointer OClusterResourceConfig as_ClusterResourceConfig ClusterResourceConfig_DeepCopyInto"

definition DeviceMappingConfig_DeepCopyInto :: "DeviceMappingConfig \<Rightarrow> ('m, 'l) memory_of \<Rightarrow> DeviceMappingConfig \<times> ('m, 'l) memory_of" where
  "DeviceMappingConfig_DeepCopyInto = shallow"

definition DeviceMappingConfig_DeepCopy :: "addr option \<Rightarrow> ('m, 'l) memory_of \<Rightarrow> addr option \<times> ('m, 'l) memory_of" where
  "DeviceMappingConfig_DeepCopy = copy_pointer ODeviceMappingConfig as_DeviceMappingConfig DeviceMappingConfig_DeepCopyInto"

definition VirtualMachineMappingConfig_DeepCopyInto :: "VirtualMachineMappingConfig \<Rightarrow> ('m, 'l) memory_of \<Rightarrow> VirtualMachineMappingConfig \<times> ('m, 'l) memory_of" where
  "VirtualMachineMappingConfig_DeepCopyInto = shallow"

definition VirtualMachineMappingConfig_DeepCopy :: "addr option \<Rightarrow> ('m, 'l) memory_of \<Rightarrow> addr option \<times> ('m, 'l) memory_of" where
  "VirtualMachineMappingConfig_DeepCopy = copy_pointer OVirtualMachineMappingConfig as_VirtualMachineMappingConfig VirtualMachineMappingConfig_DeepCopyInto"

definition NodesResourceConfig_DeepCopyInto :: "NodesResourceConfig \<Rightarrow> ('m, 'l) memory_of \<Rightarrow> NodesResourceConfig \<times> ('m, 'l) memory_of" where
  "NodesResourceConfig_DeepCopyInto = shallow"

definition NodesResourceConfig_DeepCopy :: "addr option \<Rightarrow> ('m, 'l) memory_of \<Rightarrow> addr option \<times> ('m, 'l) memory_of" where
  "NodesResourceConfig_DeepCopy = copy_pointer ONodesResourceConfig as_NodesResourceConfig NodesResourceConfig_DeepCopyInto"

definition ServicesResourceConfig_DeepCopyInto :: "ServicesResourceConfig \<Rightarrow> ('m, 'l) memory_of \<Rightarrow> ServicesResourceConfig \<times> ('m, 'l) memory_of" where
  "ServicesResourceConfig_DeepCopyInto = shallow"

definition ServicesResourceConfig_DeepCopy :: "addr option \<Rightarrow> ('m, 'l) memory_of \<Rightarrow> addr option \<times> ('m, 'l) memory_of" where
  "ServicesResourceConfig_DeepCopy = copy_pointer OServicesResourceConfig as_ServicesResourceConfig ServicesResourceConfig_DeepCopyInto"

definition PodCIDRsResourceConfig_DeepCopyInto :: "PodCIDRsResourceConfig \<Rightarrow> ('m, 'l) memory_of \<Rightarrow> PodCIDRsResourceConfig \<times> ('m, 'l) memory_of" where
  "PodCIDRsResourceConfig_DeepCopyInto = shallow"

definition PodCIDRsResourceConfig_DeepCopy :: "addr option \<Rightarrow> ('m, 'l) memory_of \<Rightarrow> addr option \<times> ('m, 'l) memory_of" where
  "PodCIDRsResourceConfig_DeepCopy = copy_pointer OPodCIDRsResourceConfig as_PodCIDRsResourceConfig PodCIDRsResourceConfig_DeepCopyInto"

definition GenericResourceConfig_DeepCopyInto :: "GenericResourceConfig \<Rightarrow> ('m, 'l) memory_of \<Rightarrow> GenericResourceConfig \<times> ('m, 'l) memory_of" where
  "GenericResourceConfig_DeepCopyInto = shallow"

definition GenericResourceConfig_DeepCopy :: "addr option \<Rightarrow> ('m, 'l) memory_of \<Rightarrow> addr option \<times> ('m, 'l) memory_of" where
  "GenericResourceConfig_DeepCopy = copy_pointer OGenericResourceConfig as_GenericResourceConfig GenericResourceConfig_DeepCopyInto"

lemmas flat_intos = SecretKeyRef_DeepCopyInto_def VersionCheckConfig_DeepCopyInto_def ManagedTagConfig_DeepCopyInto_def ResyncConfig_DeepCopyInto_def ClusterResourceConfig_DeepCopyInto_def DeviceMappingConfig_DeepCopyInto_def VirtualMachineMappingConfig_DeepCopyInto_def NodesResourceConfig_DeepCopyInto_def ServicesResourceConfig_DeepCopyInto_def PodCIDRsResourceConfig_DeepCopyInto_def GenericResourceConfig_DeepCopyInto_def

lemmas flat_deep_copies = SecretKeyRef_DeepCopy_def VersionCheckConfig_DeepCopy_def ManagedTagConfig_DeepCopy_def ResyncConfig_DeepCopy_def ClusterResourceConfig_DeepCopy_def DeviceMappingConfig_DeepCopy_def VirtualMachineMappingConfig_DeepCopy_def NodesResourceConfig_DeepCopy_def ServicesResourceConfig_DeepCopy_def PodCIDRsResourceConfig_DeepCopy_def GenericResourceConfig_DeepCopy_def

section \<open>Types with pointers\<close>

definition TLSConfig_layout :: "(('m, 'l) obj, TLSConfig_mem, TLSConfig) layout" where
  "TLSConfig_layout = struct tm_CABundleSecretRef
     (\<lambda>t ca. \<lparr>tc_InsecureSkipVerify = tm_InsecureSkipVerify t, tc_CABundleSecretRef = ca\<rparr>)
     (pointer as_SecretKeyRef flat)"

definition TLSConfig_DeepCopyInto :: "TLSConfig_mem \<Rightarrow> ('m, 'l) memory_of \<Rightarrow> TLSConfig_mem \<times> ('m, 'l) memory_of" where
  "TLSConfig_DeepCopyInto t h =
     (let (ca, h) = copy_pointer OSecretKeyRef as_SecretKeyRef shallow (tm_CABundleSecretRef t) h in
      (t\<lparr>tm_CABundleSecretRef := ca\<rparr>, h))"

definition NetBoxConfig_layout :: "(('m, 'l) obj, NetBoxConfig_mem, NetBoxConfig) layout" where
  "NetBoxConfig_layout = struct nm_TLS
     (\<lambda>n tls. \<lparr>nc_URL = nm_URL n, nc_TokenSecretRef = nm_TokenSecretRef n, nc_TLS = tls,
        nc_RequestTimeoutSeconds = nm_RequestTimeoutSeconds n, nc_VersionCheck = nm_VersionCheck n,
        nc_ManagedTag = nm_ManagedTag n\<rparr>) TLSConfig_layout"

definition NetBoxConfig_DeepCopyInto :: "NetBoxConfig_mem \<Rightarrow> ('m, 'l) memory_of \<Rightarrow> NetBoxConfig_mem \<times> ('m, 'l) memory_of" where
  "NetBoxConfig_DeepCopyInto n h =
     (let (tls, h) = TLSConfig_DeepCopyInto (nm_TLS n) h in (n\<lparr>nm_TLS := tls\<rparr>, h))"

text \<open>The entries of a map have no pointers; the loop puts every one of them into a new map.\<close>

definition ResourcesConfig_layout :: "(('m, 'l) obj, ResourcesConfig_mem, ResourcesConfig) layout" where
  "ResourcesConfig_layout = struct rm_Additional
     (\<lambda>r extra. \<lparr>rc_Cluster = rm_Cluster r, rc_Nodes = rm_Nodes r, rc_Services = rm_Services r,
        rc_PodCIDRs = rm_PodCIDRs r, rc_Additional = (case extra of None \<Rightarrow> Map.empty | Some m \<Rightarrow> m)\<rparr>)
     (pointer as_Additional flat)"

definition ResourcesConfig_DeepCopyInto :: "ResourcesConfig_mem \<Rightarrow> ('m, 'l) memory_of \<Rightarrow> ResourcesConfig_mem \<times> ('m, 'l) memory_of" where
  "ResourcesConfig_DeepCopyInto r h =
     (let (extra, h) = copy_pointer OAdditional as_Additional shallow (rm_Additional r) h in
      (r\<lparr>rm_Additional := extra\<rparr>, h))"

definition HeraldConfigSpec_layout :: "(('m, 'l) obj, HeraldConfigSpec_mem, HeraldConfigSpec) layout" where
  "HeraldConfigSpec_layout = struct (\<lambda>s. (pm_NetBox s, pm_Resources s))
     (\<lambda>s (nb, rs). \<lparr>hs_NetBox = nb, hs_Resync = pm_Resync s, hs_Resources = rs\<rparr>)
     (both NetBoxConfig_layout ResourcesConfig_layout)"

definition HeraldConfigSpec_DeepCopyInto ::
    "HeraldConfigSpec_mem \<Rightarrow> ('m, 'l) memory_of \<Rightarrow> HeraldConfigSpec_mem \<times> ('m, 'l) memory_of" where
  "HeraldConfigSpec_DeepCopyInto s h =
     (let (nb, h) = NetBoxConfig_DeepCopyInto (pm_NetBox s) h;
          (rs, h) = ResourcesConfig_DeepCopyInto (pm_Resources s) h in
      (s\<lparr>pm_NetBox := nb, pm_Resources := rs\<rparr>, h))"

definition NetBoxStatus_layout :: "(('m, 'l) obj, NetBoxStatus_mem, NetBoxStatus) layout" where
  "NetBoxStatus_layout = struct bm_LastCheckedTime
     (\<lambda>s t. \<lparr>ns_Connected = bm_Connected s, ns_Version = bm_Version s, ns_LastCheckedTime = t\<rparr>) (pointer as_Time flat)"

definition NetBoxStatus_DeepCopyInto ::
    "('m, 'l, 'mv, 'lv) foreign \<Rightarrow> NetBoxStatus_mem \<Rightarrow> ('m, 'l) memory_of \<Rightarrow> NetBoxStatus_mem \<times> ('m, 'l) memory_of" where
  "NetBoxStatus_DeepCopyInto F s h =
     (let (t, h) = if bm_LastCheckedTime s \<noteq> None then Time_DeepCopy F (bm_LastCheckedTime s) h else (None, h) in
      (s\<lparr>bm_LastCheckedTime := t\<rparr>, h))"

definition ResourceSyncStatus_layout :: "(('m, 'l) obj, ResourceSyncStatus_mem, ResourceSyncStatus) layout" where
  "ResourceSyncStatus_layout = struct ym_LastSyncTime
     (\<lambda>s t. \<lparr>ss_Enabled = ym_Enabled s, ss_LastSyncTime = t, ss_ObservedGeneration = ym_ObservedGeneration s,
        ss_ObjectCount = ym_ObjectCount s, ss_LastError = ym_LastError s\<rparr>) (pointer as_Time flat)"

definition ResourceSyncStatus_DeepCopyInto ::
    "('m, 'l, 'mv, 'lv) foreign \<Rightarrow> ResourceSyncStatus_mem \<Rightarrow> ('m, 'l) memory_of \<Rightarrow> ResourceSyncStatus_mem \<times> ('m, 'l) memory_of" where
  "ResourceSyncStatus_DeepCopyInto F s h =
     (let (t, h) = if ym_LastSyncTime s \<noteq> None then Time_DeepCopy F (ym_LastSyncTime s) h else (None, h) in
      (s\<lparr>ym_LastSyncTime := t\<rparr>, h))"

definition ResourceStatuses_layout :: "(('m, 'l) obj, ResourceStatuses_mem, ResourceStatuses) layout" where
  "ResourceStatuses_layout = struct (\<lambda>s. (um_Cluster s, um_Nodes s, um_Services s, um_PodCIDRs s))
     (\<lambda>s (c, n, v, p). \<lparr>st_Cluster = c, st_Nodes = n, st_Services = v, st_PodCIDRs = p\<rparr>)
     (both ResourceSyncStatus_layout (both ResourceSyncStatus_layout (both ResourceSyncStatus_layout ResourceSyncStatus_layout)))"

definition ResourceStatuses_DeepCopyInto ::
    "('m, 'l, 'mv, 'lv) foreign \<Rightarrow> ResourceStatuses_mem \<Rightarrow> ('m, 'l) memory_of \<Rightarrow> ResourceStatuses_mem \<times> ('m, 'l) memory_of" where
  "ResourceStatuses_DeepCopyInto F s h =
     (let (c, h) = ResourceSyncStatus_DeepCopyInto F (um_Cluster s) h;
          (n, h) = ResourceSyncStatus_DeepCopyInto F (um_Nodes s) h;
          (v, h) = ResourceSyncStatus_DeepCopyInto F (um_Services s) h;
          (p, h) = ResourceSyncStatus_DeepCopyInto F (um_PodCIDRs s) h in
      (s\<lparr>um_Cluster := c, um_Nodes := n, um_Services := v, um_PodCIDRs := p\<rparr>, h))"

definition HeraldConfigStatus_layout :: "(('m, 'l) obj, HeraldConfigStatus_mem, HeraldConfigStatus) layout" where
  "HeraldConfigStatus_layout = struct (\<lambda>s. (am_Conditions s, am_NetBox s, am_Resources s))
     (\<lambda>s (cs, nb, rs). \<lparr>hc_Conditions = (case cs of None \<Rightarrow> [] | Some xs \<Rightarrow> xs), hc_NetBox = nb, hc_Resources = rs\<rparr>)
     (both (slice as_Conditions flat) (both NetBoxStatus_layout ResourceStatuses_layout))"

definition HeraldConfigStatus_DeepCopyInto ::
    "('m, 'l, 'mv, 'lv) foreign \<Rightarrow> HeraldConfigStatus_mem \<Rightarrow> ('m, 'l) memory_of \<Rightarrow> HeraldConfigStatus_mem \<times> ('m, 'l) memory_of" where
  "HeraldConfigStatus_DeepCopyInto F s h =
     (let (cs, h) = copy_slice OConditions as_Conditions (Condition_DeepCopyInto F) (am_Conditions s) h;
          (nb, h) = NetBoxStatus_DeepCopyInto F (am_NetBox s) h;
          (rs, h) = ResourceStatuses_DeepCopyInto F (am_Resources s) h in
      (s\<lparr>am_Conditions := cs, am_NetBox := nb, am_Resources := rs\<rparr>, h))"

definition HeraldConfig_layout :: "('m, 'l, 'mv, 'lv) foreign \<Rightarrow>
    (('m, 'l) obj, 'm HeraldConfig_mem, 'mv HeraldConfig_object) layout" where
  "HeraldConfig_layout F = struct (\<lambda>c. (hm_ObjectMeta c, hm_Spec c, hm_Status c))
     (\<lambda>c (m, spec, status). \<lparr>ho_TypeMeta = hm_TypeMeta c, ho_ObjectMeta = m, ho_Spec = spec, ho_Status = status\<rparr>)
     (both (ObjectMeta_layout F) (both HeraldConfigSpec_layout HeraldConfigStatus_layout))"

definition HeraldConfig_DeepCopyInto ::
    "('m, 'l, 'mv, 'lv) foreign \<Rightarrow> 'm HeraldConfig_mem \<Rightarrow> ('m, 'l) memory_of \<Rightarrow> 'm HeraldConfig_mem \<times> ('m, 'l) memory_of" where
  "HeraldConfig_DeepCopyInto F c h =
     (let (m, h) = ObjectMeta_DeepCopyInto F (hm_ObjectMeta c) h;
          (spec, h) = HeraldConfigSpec_DeepCopyInto (hm_Spec c) h;
          (status, h) = HeraldConfigStatus_DeepCopyInto F (hm_Status c) h in
      (c\<lparr>hm_ObjectMeta := m, hm_Spec := spec, hm_Status := status\<rparr>, h))"

definition HeraldConfigList_layout :: "('m, 'l, 'mv, 'lv) foreign \<Rightarrow>
    (('m, 'l) obj, 'l HeraldConfigList_mem, ('mv, 'lv) HeraldConfigList_object) layout" where
  "HeraldConfigList_layout F = struct (\<lambda>c. (lm_ListMeta c, lm_Items c))
     (\<lambda>c (m, items). \<lparr>lo_TypeMeta = lm_TypeMeta c, lo_ListMeta = m, lo_Items = items\<rparr>)
     (both (ListMeta_layout F) (slice as_Items (HeraldConfig_layout F)))"

definition HeraldConfigList_DeepCopyInto :: "('m, 'l, 'mv, 'lv) foreign \<Rightarrow>
    'l HeraldConfigList_mem \<Rightarrow> ('m, 'l) memory_of \<Rightarrow> 'l HeraldConfigList_mem \<times> ('m, 'l) memory_of" where
  "HeraldConfigList_DeepCopyInto F c h =
     (let (m, h) = ListMeta_DeepCopyInto F (lm_ListMeta c) h;
          (items, h) = copy_slice OItems as_Items (HeraldConfig_DeepCopyInto F) (lm_Items c) h in
      (c\<lparr>lm_ListMeta := m, lm_Items := items\<rparr>, h))"

section \<open>DeepCopy\<close>

definition TLSConfig_DeepCopy :: "addr option \<Rightarrow> ('m, 'l) memory_of \<Rightarrow> addr option \<times> ('m, 'l) memory_of" where
  "TLSConfig_DeepCopy = copy_pointer OTLSConfig as_TLSConfig TLSConfig_DeepCopyInto"

definition NetBoxConfig_DeepCopy :: "addr option \<Rightarrow> ('m, 'l) memory_of \<Rightarrow> addr option \<times> ('m, 'l) memory_of" where
  "NetBoxConfig_DeepCopy = copy_pointer ONetBoxConfig as_NetBoxConfig NetBoxConfig_DeepCopyInto"

definition ResourcesConfig_DeepCopy :: "addr option \<Rightarrow> ('m, 'l) memory_of \<Rightarrow> addr option \<times> ('m, 'l) memory_of" where
  "ResourcesConfig_DeepCopy = copy_pointer OResourcesConfig as_ResourcesConfig ResourcesConfig_DeepCopyInto"

definition HeraldConfigSpec_DeepCopy :: "addr option \<Rightarrow> ('m, 'l) memory_of \<Rightarrow> addr option \<times> ('m, 'l) memory_of" where
  "HeraldConfigSpec_DeepCopy = copy_pointer OHeraldConfigSpec as_HeraldConfigSpec HeraldConfigSpec_DeepCopyInto"

definition NetBoxStatus_DeepCopy :: "('m, 'l, 'mv, 'lv) foreign \<Rightarrow> addr option \<Rightarrow> ('m, 'l) memory_of \<Rightarrow> addr option \<times> ('m, 'l) memory_of" where
  "NetBoxStatus_DeepCopy F = copy_pointer ONetBoxStatus as_NetBoxStatus (NetBoxStatus_DeepCopyInto F)"

definition ResourceSyncStatus_DeepCopy :: "('m, 'l, 'mv, 'lv) foreign \<Rightarrow> addr option \<Rightarrow> ('m, 'l) memory_of \<Rightarrow> addr option \<times> ('m, 'l) memory_of" where
  "ResourceSyncStatus_DeepCopy F = copy_pointer OResourceSyncStatus as_ResourceSyncStatus (ResourceSyncStatus_DeepCopyInto F)"

definition ResourceStatuses_DeepCopy :: "('m, 'l, 'mv, 'lv) foreign \<Rightarrow> addr option \<Rightarrow> ('m, 'l) memory_of \<Rightarrow> addr option \<times> ('m, 'l) memory_of" where
  "ResourceStatuses_DeepCopy F = copy_pointer OResourceStatuses as_ResourceStatuses (ResourceStatuses_DeepCopyInto F)"

definition HeraldConfigStatus_DeepCopy :: "('m, 'l, 'mv, 'lv) foreign \<Rightarrow> addr option \<Rightarrow> ('m, 'l) memory_of \<Rightarrow> addr option \<times> ('m, 'l) memory_of" where
  "HeraldConfigStatus_DeepCopy F = copy_pointer OHeraldConfigStatus as_HeraldConfigStatus (HeraldConfigStatus_DeepCopyInto F)"

definition HeraldConfig_DeepCopy :: "('m, 'l, 'mv, 'lv) foreign \<Rightarrow> addr option \<Rightarrow> ('m, 'l) memory_of \<Rightarrow> addr option \<times> ('m, 'l) memory_of" where
  "HeraldConfig_DeepCopy F = copy_pointer OHeraldConfig as_HeraldConfig (HeraldConfig_DeepCopyInto F)"

definition HeraldConfigList_DeepCopy :: "('m, 'l, 'mv, 'lv) foreign \<Rightarrow> addr option \<Rightarrow> ('m, 'l) memory_of \<Rightarrow> addr option \<times> ('m, 'l) memory_of" where
  "HeraldConfigList_DeepCopy F = copy_pointer OHeraldConfigList as_HeraldConfigList (HeraldConfigList_DeepCopyInto F)"

text \<open>
  \<open>DeepCopyObject\<close> wraps the pointer into an interface, unless it is nil. An interface that is not nil
  (None) has a type and a pointer, and that pointer can be nil, which a caller that compares the
  interface with nil does not see.
\<close>

datatype runtime_object = HeraldConfigObject "addr option" | HeraldConfigListObject "addr option"

definition HeraldConfig_DeepCopyObject :: "('m, 'l, 'mv, 'lv) foreign \<Rightarrow> addr option \<Rightarrow> ('m, 'l) memory_of \<Rightarrow>
    runtime_object option \<times> ('m, 'l) memory_of" where
  "HeraldConfig_DeepCopyObject F p h =
     (let (c, h) = HeraldConfig_DeepCopy F p h in if c \<noteq> None then (Some (HeraldConfigObject c), h) else (None, h))"

definition HeraldConfigList_DeepCopyObject :: "('m, 'l, 'mv, 'lv) foreign \<Rightarrow> addr option \<Rightarrow> ('m, 'l) memory_of \<Rightarrow>
    runtime_object option \<times> ('m, 'l) memory_of" where
  "HeraldConfigList_DeepCopyObject F p h =
     (let (c, h) = HeraldConfigList_DeepCopy F p h in if c \<noteq> None then (Some (HeraldConfigListObject c), h) else (None, h))"

lemmas pointered_deep_copies = TLSConfig_DeepCopy_def NetBoxConfig_DeepCopy_def ResourcesConfig_DeepCopy_def HeraldConfigSpec_DeepCopy_def
  NetBoxStatus_DeepCopy_def ResourceSyncStatus_DeepCopy_def ResourceStatuses_DeepCopy_def HeraldConfigStatus_DeepCopy_def
  HeraldConfig_DeepCopy_def HeraldConfigList_DeepCopy_def

section \<open>The copies are deep\<close>

lemma documented_copiesD:
  assumes "documented_copies F"
  shows "deep_copies (ObjectMeta_layout F) (ObjectMeta_DeepCopyInto F)" and "deep_copies (ListMeta_layout F) (ListMeta_DeepCopyInto F)"
    and "deep_copies (pointer as_Time flat) (Time_DeepCopy F)" and "deep_copies flat (Condition_DeepCopyInto F)"
  using assms by (simp_all add: documented_copies_def)

lemma copy_both_let: "(let (p, h') = copy_both f g (a, b) h in k p h') =
    (let (x, h1) = f a h; (y, h2) = g b h1 in k (x, y) h2)"
  by (simp add: copy_both_def split_beta Let_def)

lemma TLSConfig_copies: "deep_copies TLSConfig_layout TLSConfig_DeepCopyInto"
  unfolding TLSConfig_layout_def
  by (rule struct_copies[OF pointer_copies[OF flat_copies], where upd = "\<lambda>x. tm_CABundleSecretRef_update (\<lambda>_. x)"])
    (simp_all add: TLSConfig_DeepCopyInto_def)

lemma NetBoxConfig_copies: "deep_copies NetBoxConfig_layout NetBoxConfig_DeepCopyInto"
  unfolding NetBoxConfig_layout_def
  by (rule struct_copies[OF TLSConfig_copies, where upd = "\<lambda>x. nm_TLS_update (\<lambda>_. x)"])
    (simp_all add: NetBoxConfig_DeepCopyInto_def)

lemma ResourcesConfig_copies: "deep_copies ResourcesConfig_layout ResourcesConfig_DeepCopyInto"
  unfolding ResourcesConfig_layout_def
  by (rule struct_copies[OF pointer_copies[OF flat_copies], where upd = "\<lambda>x. rm_Additional_update (\<lambda>_. x)"])
    (simp_all add: ResourcesConfig_DeepCopyInto_def)

lemma HeraldConfigSpec_copies: "deep_copies HeraldConfigSpec_layout HeraldConfigSpec_DeepCopyInto"
  unfolding HeraldConfigSpec_layout_def
  by (rule struct_copies[OF both_copies[OF NetBoxConfig_copies ResourcesConfig_copies],
        where upd = "\<lambda>(nb, rs) s. s\<lparr>pm_NetBox := nb, pm_Resources := rs\<rparr>"])
    (simp_all add: HeraldConfigSpec_DeepCopyInto_def copy_both_let split: prod.split)


lemma nil_or_copies:
  assumes "deep_copies (pointer unwrap L) f"
  shows "deep_copies (pointer unwrap L) (\<lambda>p h. if p \<noteq> None then f p h else (None, h))"
  unfolding deep_copies_def
proof (intro conjI allI impI)
  show "self_contained (pointer unwrap L)" by (rule deep_copiesD(1)[OF assms])
  fix h p p' h'
  assume h: "heap_ok h" and ok: "ly_ok (pointer unwrap L) h p"
    and run: "(if p \<noteq> None then f p h else (None, h)) = (p', h')"
  show "copied (pointer unwrap L) h p p' h'"
  proof (cases "p = None")
    case True
    with run h show ?thesis by (auto simp: copied_def pointer_def)
  next
    case False
    with run have "f p h = (p', h')" by simp
    then show ?thesis by (rule deep_copiesD(2)[OF assms h ok])
  qed
qed

lemma NetBoxStatus_copies:
  assumes "documented_copies F"
  shows "deep_copies NetBoxStatus_layout (NetBoxStatus_DeepCopyInto F)"
  unfolding NetBoxStatus_layout_def
  by (rule struct_copies[OF nil_or_copies[OF documented_copiesD(3)[OF assms]], where upd = "\<lambda>t. bm_LastCheckedTime_update (\<lambda>_. t)"])
    (simp_all add: NetBoxStatus_DeepCopyInto_def)

lemma ResourceSyncStatus_copies:
  assumes "documented_copies F"
  shows "deep_copies ResourceSyncStatus_layout (ResourceSyncStatus_DeepCopyInto F)"
  unfolding ResourceSyncStatus_layout_def
  by (rule struct_copies[OF nil_or_copies[OF documented_copiesD(3)[OF assms]], where upd = "\<lambda>t. ym_LastSyncTime_update (\<lambda>_. t)"])
    (simp_all add: ResourceSyncStatus_DeepCopyInto_def)

lemma ResourceStatuses_copies:
  assumes "documented_copies F"
  shows "deep_copies ResourceStatuses_layout (ResourceStatuses_DeepCopyInto F)"
proof -
  note one = ResourceSyncStatus_copies[OF assms]
  show ?thesis
    unfolding ResourceStatuses_layout_def
    by (rule struct_copies[OF both_copies[OF one both_copies[OF one both_copies[OF one one]]],
          where upd = "\<lambda>(c, n, v, p) s. s\<lparr>um_Cluster := c, um_Nodes := n, um_Services := v, um_PodCIDRs := p\<rparr>"])
      (simp_all add: ResourceStatuses_DeepCopyInto_def copy_both_let split: prod.split)
qed

lemma HeraldConfigStatus_copies:
  assumes "documented_copies F"
  shows "deep_copies HeraldConfigStatus_layout (HeraldConfigStatus_DeepCopyInto F)"
proof -
  have conds: "deep_copies (slice as_Conditions flat) (copy_slice OConditions as_Conditions (Condition_DeepCopyInto F))"
    by (rule slice_copies[OF documented_copiesD(4)[OF assms]]) simp
  show ?thesis
    unfolding HeraldConfigStatus_layout_def
    by (rule struct_copies[OF both_copies[OF conds both_copies[OF NetBoxStatus_copies[OF assms] ResourceStatuses_copies[OF assms]]],
          where upd = "\<lambda>(cs, nb, rs) s. s\<lparr>am_Conditions := cs, am_NetBox := nb, am_Resources := rs\<rparr>"])
      (simp_all add: HeraldConfigStatus_DeepCopyInto_def copy_both_let split: prod.split)
qed

lemma HeraldConfig_copies:
  assumes "documented_copies F"
  shows "deep_copies (HeraldConfig_layout F) (HeraldConfig_DeepCopyInto F)"
  unfolding HeraldConfig_layout_def
  by (rule struct_copies[OF both_copies[OF documented_copiesD(1)[OF assms]
        both_copies[OF HeraldConfigSpec_copies HeraldConfigStatus_copies[OF assms]]],
        where upd = "\<lambda>(m, spec, status) c. c\<lparr>hm_ObjectMeta := m, hm_Spec := spec, hm_Status := status\<rparr>"])
    (simp_all add: HeraldConfig_DeepCopyInto_def copy_both_let split: prod.split)

lemma HeraldConfigList_copies:
  assumes "documented_copies F"
  shows "deep_copies (HeraldConfigList_layout F) (HeraldConfigList_DeepCopyInto F)"
proof -
  have items: "deep_copies (slice as_Items (HeraldConfig_layout F)) (copy_slice OItems as_Items (HeraldConfig_DeepCopyInto F))"
    by (rule slice_copies[OF HeraldConfig_copies[OF assms]]) simp
  show ?thesis
    unfolding HeraldConfigList_layout_def
    by (rule struct_copies[OF both_copies[OF documented_copiesD(2)[OF assms] items],
          where upd = "\<lambda>(m, items) c. c\<lparr>lm_ListMeta := m, lm_Items := items\<rparr>"])
      (simp_all add: HeraldConfigList_DeepCopyInto_def copy_both_let split: prod.split)
qed

end
