(* ===== verification/Copy_Properties.thy ===== *)
theory Copy_Properties
  imports Deep_Copy
begin

text \<open>
  The properties of the generated deep copies: every one of them copies deeply, and what the
  HeraldConfig cache hands out shares no memory with what it keeps.
\<close>

text \<open>C37: every generated \<open>DeepCopy\<close> copies deeply, if apimachinery's own deep copies do. A copy
  stands for the same value as the original, nothing that was in memory before is written, and
  every address that can be reached from the copy is a new one. A nil pointer is copied as nil.\<close>

theorem deep_copies_correct:
  assumes "documented_copies F"
  shows "deep_copies (pointer as_SecretKeyRef flat) SecretKeyRef_DeepCopy \<and>
    deep_copies (pointer as_VersionCheckConfig flat) VersionCheckConfig_DeepCopy \<and>
    deep_copies (pointer as_ManagedTagConfig flat) ManagedTagConfig_DeepCopy \<and>
    deep_copies (pointer as_ResyncConfig flat) ResyncConfig_DeepCopy \<and>
    deep_copies (pointer as_ClusterResourceConfig flat) ClusterResourceConfig_DeepCopy \<and>
    deep_copies (pointer as_DeviceMappingConfig flat) DeviceMappingConfig_DeepCopy \<and>
    deep_copies (pointer as_VirtualMachineMappingConfig flat) VirtualMachineMappingConfig_DeepCopy \<and>
    deep_copies (pointer as_NodesResourceConfig flat) NodesResourceConfig_DeepCopy \<and>
    deep_copies (pointer as_ServicesResourceConfig flat) ServicesResourceConfig_DeepCopy \<and>
    deep_copies (pointer as_PodCIDRsResourceConfig flat) PodCIDRsResourceConfig_DeepCopy \<and>
    deep_copies (pointer as_GenericResourceConfig flat) GenericResourceConfig_DeepCopy \<and>
    deep_copies (pointer as_TLSConfig TLSConfig_layout) TLSConfig_DeepCopy \<and>
    deep_copies (pointer as_NetBoxConfig NetBoxConfig_layout) NetBoxConfig_DeepCopy \<and>
    deep_copies (pointer as_ResourcesConfig ResourcesConfig_layout) ResourcesConfig_DeepCopy \<and>
    deep_copies (pointer as_HeraldConfigSpec HeraldConfigSpec_layout) HeraldConfigSpec_DeepCopy \<and>
    deep_copies (pointer as_NetBoxStatus NetBoxStatus_layout) (NetBoxStatus_DeepCopy F) \<and>
    deep_copies (pointer as_ResourceSyncStatus ResourceSyncStatus_layout) (ResourceSyncStatus_DeepCopy F) \<and>
    deep_copies (pointer as_ResourceStatuses ResourceStatuses_layout) (ResourceStatuses_DeepCopy F) \<and>
    deep_copies (pointer as_HeraldConfigStatus HeraldConfigStatus_layout) (HeraldConfigStatus_DeepCopy F) \<and>
    deep_copies (pointer as_HeraldConfig (HeraldConfig_layout F)) (HeraldConfig_DeepCopy F) \<and>
    deep_copies (pointer as_HeraldConfigList (HeraldConfigList_layout F)) (HeraldConfigList_DeepCopy F)"
  unfolding flat_deep_copies flat_intos pointered_deep_copies
  by (intro conjI pointer_copies flat_copies TLSConfig_copies NetBoxConfig_copies ResourcesConfig_copies
      HeraldConfigSpec_copies NetBoxStatus_copies ResourceSyncStatus_copies ResourceStatuses_copies
      HeraldConfigStatus_copies HeraldConfig_copies HeraldConfigList_copies assms) simp_all

text \<open>Metadata without pointers, and times and conditions copied the way they are declared.\<close>

definition plain_copies :: "(unit, unit, unit, unit) foreign" where
  "plain_copies = \<lparr>ObjectMeta_layout = flat, ObjectMeta_DeepCopyInto = shallow, ListMeta_layout = flat,
     ListMeta_DeepCopyInto = shallow, Time_DeepCopy = copy_pointer OTime as_Time shallow, Condition_DeepCopyInto = shallow\<rparr>"

lemma plain_copies_documented: "documented_copies plain_copies"
  unfolding documented_copies_def plain_copies_def foreign.simps
  by (intro conjI flat_copies pointer_copies) simp

text \<open>A TLSConfig at address 1, whose Secret reference is at address 0.\<close>

definition tls_memory :: "(unit, unit) memory_of" where
  "tls_memory = \<lparr>cells = [0 \<mapsto> OSecretKeyRef \<lparr>sk_Name = ''ca'', sk_Key = ''ca.crt''\<rparr>,
     1 \<mapsto> OTLSConfig \<lparr>tm_InsecureSkipVerify = False, tm_CABundleSecretRef = Some 0\<rparr>], next_addr = 2\<rparr>"

theorem deep_copies_correct_witness:
  "ly_val (pointer as_TLSConfig TLSConfig_layout) (snd (TLSConfig_DeepCopy (Some 1) tls_memory)) (fst (TLSConfig_DeepCopy (Some 1) tls_memory)) =
   Some \<lparr>tc_InsecureSkipVerify = False, tc_CABundleSecretRef = Some \<lparr>sk_Name = ''ca'', sk_Key = ''ca.crt''\<rparr>\<rparr>"
proof -
  let ?p = "TLSConfig_DeepCopy (Some 1) tls_memory"
  let ?L = "pointer as_TLSConfig TLSConfig_layout"
  have "deep_copies ?L (TLSConfig_DeepCopy :: _ \<Rightarrow> (unit, unit) memory_of \<Rightarrow> _)"
    using deep_copies_correct[OF plain_copies_documented] by blast
  then have "copied ?L tls_memory (Some 1) (fst ?p) (snd ?p)"
    by (rule deep_copiesD(2))
      (simp_all add: heap_ok_def tls_memory_def pointer_def TLSConfig_layout_def struct_def flat_def)
  then show ?thesis
    by (simp add: copied_def) (simp add: tls_memory_def pointer_def pointee_def TLSConfig_layout_def struct_def flat_def)
qed


section \<open>Original and copy\<close>

text \<open>What later writes on one side of a deep copy leave alone on the other.\<close>

lemma copied_independent:
  assumes L: "self_contained L" and h: "heap_ok h" and ok: "ly_ok L h x" and c: "copied L h x x' h'"
  shows "(\<And>a. a < next_addr h \<Longrightarrow> cells h1 a = cells h' a) \<Longrightarrow> ly_val L h1 x = ly_val L h x"
    and "(\<And>a. next_addr h \<le> a \<Longrightarrow> cells h1 a = cells h' a) \<Longrightarrow> ly_val L h1 x' = ly_val L h x"
proof -
  have old: "ly_refs L h x \<subseteq> {..<next_addr h}" using self_containedD(1)[OF L ok] h by (auto simp: heap_ok_def)
  have kept: "cells h' a = cells h a" if "a < next_addr h" for a using c that by (simp add: copied_def extends_def)
  show "ly_val L h1 x = ly_val L h x" if "\<And>a. a < next_addr h \<Longrightarrow> cells h1 a = cells h' a"
    using self_containedD(2)[OF L ok, of h1] old kept that by fastforce
  have ok': "ly_ok L h' x'" and val: "ly_val L h' x' = ly_val L h x" and new: "ly_refs L h' x' \<inter> {..<next_addr h} = {}"
    using c by (simp_all add: copied_def)
  show "ly_val L h1 x' = ly_val L h x" if "\<And>a. next_addr h \<le> a \<Longrightarrow> cells h1 a = cells h' a"
    using self_containedD(2)[OF L ok', of h1] new val that by (metis IntI emptyE lessThan_iff not_le)
qed

lemma HeraldConfig_pointer_copies:
  assumes "documented_copies F"
  shows "deep_copies (pointer as_HeraldConfig (HeraldConfig_layout F)) (HeraldConfig_DeepCopy F)"
  unfolding HeraldConfig_DeepCopy_def by (rule pointer_copies[OF HeraldConfig_copies[OF assms]]) simp

text \<open>C38: a HeraldConfig and its copy share no memory. Whatever a reconciler writes to what it was
  handed by \<open>DeepCopyObject\<close>, which is all memory from the first free address on, the cached
  HeraldConfig stands for the value it had; and whatever becomes of the memory from before the
  copy, the copy stands for that value too. The copy is in an interface that holds a pointer that is not
  nil. For a nil receiver \<open>DeepCopyObject\<close> of a HeraldConfig or of
  a list returns the nil interface and never an interface that holds a nil pointer.\<close>

theorem DeepCopyObject_independent:
  assumes "documented_copies F" and "heap_ok h" and "ly_ok (pointer as_HeraldConfig (HeraldConfig_layout F)) h (Some a)"
    and "HeraldConfig_DeepCopyObject F (Some a) h = (out, h')"
  shows "(\<exists>b. out = Some (HeraldConfigObject (Some b)) \<and> next_addr h \<le> b \<and>
    (\<forall>h1. (\<forall>c < next_addr h. cells h1 c = cells h' c) \<longrightarrow>
       ly_val (pointer as_HeraldConfig (HeraldConfig_layout F)) h1 (Some a) =
       ly_val (pointer as_HeraldConfig (HeraldConfig_layout F)) h (Some a)) \<and>
    (\<forall>h1. (\<forall>c \<ge> next_addr h. cells h1 c = cells h' c) \<longrightarrow>
       ly_val (pointer as_HeraldConfig (HeraldConfig_layout F)) h1 (Some b) =
       ly_val (pointer as_HeraldConfig (HeraldConfig_layout F)) h (Some a))) \<and>
    HeraldConfig_DeepCopyObject F None h = (None, h) \<and> HeraldConfigList_DeepCopyObject F None h = (None, h)"
proof (intro conjI)
  note deep = HeraldConfig_pointer_copies[OF assms(1)]
  obtain p where p: "HeraldConfig_DeepCopy F (Some a) h = (p, h')"
    using assms(4) by (auto simp: HeraldConfig_DeepCopyObject_def split: prod.splits if_splits)
  obtain b where b: "p = Some b"
    using p by (auto simp: HeraldConfig_DeepCopy_def copy_pointer_def split: prod.splits)
  have out: "out = Some (HeraldConfigObject (Some b))" using assms(4) by (simp add: HeraldConfig_DeepCopyObject_def p b)
  have c: "copied (pointer as_HeraldConfig (HeraldConfig_layout F)) h (Some a) (Some b) h'"
    using deep_copiesD(2)[OF deep assms(2,3) p] by (simp add: b)
  then have "next_addr h \<le> b" by (auto simp: copied_def pointer_def)
  with out copied_independent[OF deep_copiesD(1)[OF deep] assms(2,3) c]
  show "\<exists>b. out = Some (HeraldConfigObject (Some b)) \<and> next_addr h \<le> b \<and>
    (\<forall>h1. (\<forall>c < next_addr h. cells h1 c = cells h' c) \<longrightarrow>
       ly_val (pointer as_HeraldConfig (HeraldConfig_layout F)) h1 (Some a) =
       ly_val (pointer as_HeraldConfig (HeraldConfig_layout F)) h (Some a)) \<and>
    (\<forall>h1. (\<forall>c \<ge> next_addr h. cells h1 c = cells h' c) \<longrightarrow>
       ly_val (pointer as_HeraldConfig (HeraldConfig_layout F)) h1 (Some b) =
       ly_val (pointer as_HeraldConfig (HeraldConfig_layout F)) h (Some a))" by blast
qed (simp_all add: HeraldConfig_DeepCopyObject_def HeraldConfigList_DeepCopyObject_def HeraldConfig_DeepCopy_def
    HeraldConfigList_DeepCopy_def copy_pointer_def)

text \<open>A HeraldConfig with a CA bundle reference, an additional resource, a condition and a time.\<close>

definition no_sync_mem :: ResourceSyncStatus_mem where
  "no_sync_mem = \<lparr>ym_Enabled = False, ym_LastSyncTime = None, ym_ObservedGeneration = 0, ym_ObjectCount = 0, ym_LastError = Literal []\<rparr>"

definition example_config :: "unit HeraldConfig_mem" where
  "example_config =
     \<lparr>hm_TypeMeta = \<lparr>ty_Kind = ''HeraldConfig'', ty_APIVersion = ''v1alpha1''\<rparr>, hm_ObjectMeta = (),
      hm_Spec = \<lparr>pm_NetBox = \<lparr>nm_URL = ''https://netbox'', nm_TokenSecretRef = \<lparr>sk_Name = ''token'', sk_Key = ''token''\<rparr>,
          nm_TLS = \<lparr>tm_InsecureSkipVerify = False, tm_CABundleSecretRef = Some 0\<rparr>, nm_RequestTimeoutSeconds = 30,
          nm_VersionCheck = \<lparr>vc_Enabled = True\<rparr>, nm_ManagedTag = \<lparr>mt_Slug = ''herald''\<rparr>\<rparr>,
        pm_Resync = \<lparr>rs_Interval = 0\<rparr>,
        pm_Resources = \<lparr>rm_Cluster = \<lparr>cl_Enabled = True, cl_Name = ''k8s'', cl_ClusterTypeName = ''Kubernetes'',
            cl_ClusterGroupName = [], cl_SiteName = []\<rparr>,
          rm_Nodes = \<lparr>nd_Enabled = False, nd_Mapping = NodeMappingDevice, nd_RetainOnDisable = False,
            nd_Device = \<lparr>dm_DeviceRoleName = [], dm_DeviceTypeName = [], dm_SiteName = []\<rparr>,
            nd_VirtualMachine = \<lparr>vm_ClusterName = [], vm_PlatformName = []\<rparr>\<rparr>,
          rm_Services = \<lparr>sv_Enabled = False, sv_RetainOnDisable = False\<rparr>,
          rm_PodCIDRs = \<lparr>pc_Enabled = False, pc_RetainOnDisable = False, pc_Representation = [], pc_RIRName = []\<rparr>,
          rm_Additional = Some 1\<rparr>\<rparr>,
      hm_Status = \<lparr>am_Conditions = Some (3, 1), am_NetBox = \<lparr>bm_Connected = True, bm_Version = ''4.1'', bm_LastCheckedTime = Some 2\<rparr>,
        am_Resources = \<lparr>um_Cluster = no_sync_mem\<lparr>ym_LastSyncTime := Some 2\<rparr>, um_Nodes = no_sync_mem, um_Services = no_sync_mem,
          um_PodCIDRs = no_sync_mem\<rparr>\<rparr>\<rparr>"

definition example_memory :: "(unit, unit) memory_of" where
  "example_memory = \<lparr>cells = [0 \<mapsto> OSecretKeyRef \<lparr>sk_Name = ''ca'', sk_Key = ''ca.crt''\<rparr>,
     1 \<mapsto> OAdditional [''racks'' \<mapsto> \<lparr>gr_Enabled = True, gr_RetainOnDisable = False\<rparr>], 2 \<mapsto> OTime 0,
     3 \<mapsto> OConditions [\<lparr>cn_Type = ''Ready'', cn_Status = ''True'', cn_Reason = [], cn_Message = Literal []\<rparr>],
     4 \<mapsto> OHeraldConfig example_config], next_addr = 5\<rparr>"

lemma example_memory_ok: "heap_ok example_memory"
  "ly_ok (pointer as_HeraldConfig (HeraldConfig_layout plain_copies)) example_memory (Some 4)"
  by (auto simp: heap_ok_def example_memory_def)
    (simp add: pointer_def HeraldConfig_layout_def HeraldConfigSpec_layout_def HeraldConfigStatus_layout_def
      NetBoxConfig_layout_def TLSConfig_layout_def ResourcesConfig_layout_def NetBoxStatus_layout_def
      ResourceStatuses_layout_def ResourceSyncStatus_layout_def slice_def prefix_of_def elements_def struct_def both_def flat_def
      plain_copies_def example_config_def no_sync_mem_def)

theorem DeepCopyObject_independent_witness:
  "\<exists>b h'. HeraldConfig_DeepCopyObject plain_copies (Some 4) example_memory = (Some (HeraldConfigObject (Some b)), h') \<and> 5 \<le> b \<and>
     ly_val (pointer as_HeraldConfig (HeraldConfig_layout plain_copies)) (h'\<lparr>cells := (cells h')(b := None)\<rparr>) (Some 4) =
     ly_val (pointer as_HeraldConfig (HeraldConfig_layout plain_copies)) example_memory (Some 4)"
proof -
  obtain out h' where run: "HeraldConfig_DeepCopyObject plain_copies (Some 4) example_memory = (out, h')" by fastforce
  have free: "next_addr example_memory = 5" by (simp add: example_memory_def)
  obtain b where out: "out = Some (HeraldConfigObject (Some b))" and b: "5 \<le> b"
    and kept: "\<forall>h1. (\<forall>c < 5. cells h1 c = cells h' c) \<longrightarrow>
       ly_val (pointer as_HeraldConfig (HeraldConfig_layout plain_copies)) h1 (Some 4) =
       ly_val (pointer as_HeraldConfig (HeraldConfig_layout plain_copies)) example_memory (Some 4)"
    using DeepCopyObject_independent[OF plain_copies_documented example_memory_ok run] unfolding free by blast
  have "ly_val (pointer as_HeraldConfig (HeraldConfig_layout plain_copies)) (h'\<lparr>cells := (cells h')(b := None)\<rparr>) (Some 4) =
       ly_val (pointer as_HeraldConfig (HeraldConfig_layout plain_copies)) example_memory (Some 4)"
    by (rule kept[rule_format]) (use b in simp)
  with run out b show ?thesis by blast
qed

end
