(* ===== verification/E2E_Utils.thy ===== *)
theory E2E_Utils
  imports Herald_Prelude
begin

text \<open>
  \<open>test/utils/utils.go\<close>: what the end-to-end tests use to run commands, to install cert-manager
  and to edit scaffolded files. The operating system is the record \<open>machine\<close>, a parameter. What is
  written to the test log is left out.
\<close>

section \<open>Strings of Go's standard library\<close>

text \<open>\<open>strings.Index\<close> (with its arguments the other way round), \<open>strings.Contains\<close>.\<close>

fun Index :: "string \<Rightarrow> string \<Rightarrow> nat option" where
  "Index t [] = (if t = [] then Some 0 else None)"
| "Index t (c # s) = (if prefix t (c # s) then Some 0 else map_option Suc (Index t s))"

definition Contains :: "string \<Rightarrow> string \<Rightarrow> bool" where
  "Contains s t \<longleftrightarrow> Index t s \<noteq> None"

definition TrimPrefix :: "string \<Rightarrow> string \<Rightarrow> string" where
  "TrimPrefix s pre = (if prefix pre s then drop (length pre) s else s)"

text \<open>\<open>strings.ReplaceAll(s, old, "")\<close> for an \<open>old\<close> that is not empty.\<close>

fun remove_all :: "string \<Rightarrow> string \<Rightarrow> string" where
  "remove_all old [] = []"
| "remove_all old (c # s) =
     (if prefix old (c # s) then remove_all old (drop (length old - 1) s) else c # remove_all old s)"

fun split_on :: "char \<Rightarrow> string \<Rightarrow> string list" where
  "split_on c [] = [[]]"
| "split_on c (x # s) = (if x = c then [] # split_on c s
     else case split_on c s of y # ys \<Rightarrow> (x # y) # ys | [] \<Rightarrow> [[x]])"

definition newline :: char where "newline = CHR 0x0A"

text \<open>
  \<open>bufio.Scanner\<close> with its default split function: the next line without its line end, and what is
  left of the input. A line that does not fit into the scanner's buffer ends the scan.
\<close>

definition MaxScanTokenSize :: nat where "MaxScanTokenSize = 65536"

definition drop_CR :: "string \<Rightarrow> string" where
  "drop_CR s = (if s \<noteq> [] \<and> last s = CHR 0x0D then butlast s else s)"

definition Scan :: "string \<Rightarrow> (string \<times> string) option" where
  "Scan input =
     (let line = takeWhile (\<lambda>c. c \<noteq> newline) input in
      if input = [] \<or> MaxScanTokenSize \<le> length line then None
      else Some (drop_CR line, drop (Suc (length line)) input))"

lemma Scan_shorter: "Scan input = Some (l, rest) \<Longrightarrow> length rest < length input"
  by (auto simp: Scan_def Let_def split: if_splits)

section \<open>Running commands\<close>

text \<open>\<open>exec.Cmd\<close>; the first argument is the name of the program.\<close>

record command =
  cm_Args :: "string list"
  cm_Dir :: string
  cm_Env :: "string list"

definition Command :: "string list \<Rightarrow> command" where
  "Command args = \<lparr>cm_Args = args, cm_Dir = [], cm_Env = []\<rparr>"

text \<open>A call that returns a value beside its error has both in its result.\<close>

record 'w machine =
  Getwd :: "('w, string \<times> error option) go"
  Chdir :: "string \<Rightarrow> ('w, unit) go"
  Environ :: "('w, string list) go"
  LookupEnv :: "string \<Rightarrow> ('w, string option) go"
  CombinedOutput :: "command \<Rightarrow> ('w, string \<times> error option) go"
  ReadFile :: "string \<Rightarrow> ('w, string) go"
  WriteFile :: "string \<Rightarrow> string \<Rightarrow> ('w, unit) go"

definition GetProjectDir :: "'w machine \<Rightarrow> ('w, string \<times> error option) go" where
  "GetProjectDir os =
     bind (Getwd os) (\<lambda>(wd, err). case err of
       Some e \<Rightarrow> ret (wd, Some (Errorf ''failed to get current working directory: %w'' [AErr e]))
     | None \<Rightarrow> ret (remove_all ''/test/e2e'' wd, None))"

fun join_with :: "string \<Rightarrow> string list \<Rightarrow> string" where
  "join_with sep [] = []"
| "join_with sep [x] = x"
| "join_with sep (x # xs) = x @ sep @ join_with sep xs"

definition Run :: "'w machine \<Rightarrow> command \<Rightarrow> ('w, string \<times> error option) go" where
  "Run os cmd =
     bind (GetProjectDir os) (\<lambda>(dir, _).
     bind (attempt (Chdir os dir)) (\<lambda>_.
     bind (Environ os) (\<lambda>env.
     let cmd = cmd\<lparr>cm_Dir := dir, cm_Env := env @ [''GO111MODULE=on'']\<rparr>;
         text = join_with '' '' (cm_Args cmd) in
     bind (CombinedOutput os cmd) (\<lambda>(output, err). case err of
       Some e \<Rightarrow> ret (output, Some (Errorf ''%q failed with error %q: %w'' [AStr text, AStr output, AErr e]))
     | None \<Rightarrow> ret (output, None)))))"

definition certmanagerURL :: string where
  "certmanagerURL = ''https://github.com/cert-manager/cert-manager/releases/download/'' @ ''v1.20.2'' @ ''/cert-manager.yaml''"

definition UninstallCertManager :: "'w machine \<Rightarrow> ('w, unit) go" where
  "UninstallCertManager os =
     bind (Run os (Command [''kubectl'', ''delete'', ''-f'', certmanagerURL])) (\<lambda>_.
     for_each [''cert-manager-cainjector-leader-election'', ''cert-manager-controller''] (\<lambda>lease.
       bind (Run os (Command [''kubectl'', ''delete'', ''lease'', lease, ''-n'', ''kube-system'', ''--ignore-not-found'',
         ''--force'', ''--grace-period=0''])) (\<lambda>_. ret ())))"

definition InstallCertManager :: "'w machine \<Rightarrow> ('w, unit) go" where
  "InstallCertManager os =
     bind (Run os (Command [''kubectl'', ''apply'', ''-f'', certmanagerURL])) (\<lambda>(_, err). case err of
       Some e \<Rightarrow> fail e
     | None \<Rightarrow>
         bind (Run os (Command [''kubectl'', ''wait'', ''deployment.apps/cert-manager-webhook'', ''--for'',
           ''condition=Available'', ''--namespace'', ''cert-manager'', ''--timeout'', ''5m''])) (\<lambda>(_, err).
         case err of Some e \<Rightarrow> fail e | None \<Rightarrow> ret ()))"

definition certManagerCRDs :: "string list" where
  "certManagerCRDs = [''certificates.cert-manager.io'', ''issuers.cert-manager.io'', ''clusterissuers.cert-manager.io'',
     ''certificaterequests.cert-manager.io'', ''orders.acme.cert-manager.io'', ''challenges.acme.cert-manager.io'']"

definition GetNonEmptyLines :: "string \<Rightarrow> string list" where
  "GetNonEmptyLines output = filter (\<lambda>element. element \<noteq> []) (split_on newline output)"

definition IsCertManagerCRDsInstalled :: "'w machine \<Rightarrow> ('w, bool) go" where
  "IsCertManagerCRDsInstalled os =
     bind (Run os (Command [''kubectl'', ''get'', ''crds''])) (\<lambda>(output, err). case err of
       Some _ \<Rightarrow> ret False
     | None \<Rightarrow> ret (list_ex (\<lambda>crd. list_ex (\<lambda>line. Contains line crd) (GetNonEmptyLines output)) certManagerCRDs))"

definition LoadImageToKindClusterWithName :: "'w machine \<Rightarrow> string \<Rightarrow> ('w, unit) go" where
  "LoadImageToKindClusterWithName os name =
     bind (LookupEnv os ''KIND_CLUSTER'') (\<lambda>v.
     let cluster = (case v of Some v \<Rightarrow> v | None \<Rightarrow> ''kind'');
         kindOptions = [''load'', ''docker-image'', name, ''--name'', cluster] in
     bind (LookupEnv os ''KIND'') (\<lambda>v.
     let kindBinary = (case v of Some v \<Rightarrow> v | None \<Rightarrow> ''kind'') in
     bind (Run os (Command (kindBinary # kindOptions))) (\<lambda>(_, err). case err of Some e \<Rightarrow> fail e | None \<Rightarrow> ret ())))"

section \<open>Editing scaffolded files\<close>

text \<open>
  The loop of \<open>UncommentCode\<close>: the line just scanned is written without its prefix, then, if there
  is a next one, a newline and so on. Writes to a \<open>bytes.Buffer\<close> do not fail.
\<close>

function uncomment :: "string \<Rightarrow> string \<Rightarrow> string \<Rightarrow> string" where
  "uncomment pre line rest = TrimPrefix line pre @
     (case Scan rest of None \<Rightarrow> [] | Some (line, rest) \<Rightarrow> newline # uncomment pre line rest)"
  by pat_completeness auto
termination
  by (relation "measure (\<lambda>(_, _, rest). length rest)") (auto dest: Scan_shorter)

declare uncomment.simps [simp del]

definition UncommentCode :: "'w machine \<Rightarrow> string \<Rightarrow> string \<Rightarrow> string \<Rightarrow> ('w, unit) go" where
  "UncommentCode os filename target pre =
     bind (wrap_err (\<lambda>err. Errorf ''failed to read file %q: %w'' [AStr filename, AErr err]) (ReadFile os filename)) (\<lambda>content.
     case Index target content of
       None \<Rightarrow> fail (Errorf ''unable to find the code %q to be uncommented'' [AStr target])
     | Some idx \<Rightarrow> (case Scan target of
         None \<Rightarrow> ret ()
       | Some (line, rest) \<Rightarrow>
           wrap_err (\<lambda>err. Errorf ''failed to write file %q: %w'' [AStr filename, AErr err])
             (WriteFile os filename (take idx content @ uncomment pre line rest @ drop (idx + length target) content))))"

section \<open>What uncommenting does\<close>

text \<open>A text of lines the scanner reads back: no line ends in them, none too long, the last not empty.\<close>

definition scannable :: "string \<Rightarrow> bool" where
  "scannable l \<longleftrightarrow> newline \<notin> set l \<and> length l < MaxScanTokenSize \<and> drop_CR l = l"

lemma takeWhile_line:
  assumes "newline \<notin> set l"
  shows "takeWhile (\<lambda>c. c \<noteq> newline) l = l" and "takeWhile (\<lambda>c. c \<noteq> newline) (l @ newline # s) = l"
  using assms by (induction l) auto

lemma Scan_line:
  assumes "scannable l"
  shows "Scan (l @ newline # s) = Some (l, s)" and "l \<noteq> [] \<Longrightarrow> Scan l = Some (l, [])"
proof -
  have l: "newline \<notin> set l" using assms by (simp add: scannable_def)
  show "Scan (l @ newline # s) = Some (l, s)"
    unfolding Scan_def Let_def takeWhile_line(2)[OF l] using assms by (simp add: scannable_def)
  show "Scan l = Some (l, [])" if "l \<noteq> []"
    unfolding Scan_def Let_def takeWhile_line(1)[OF l] using assms that by (simp add: scannable_def)
qed

lemma Scan_nil [simp]: "Scan [] = None"
  by (simp add: Scan_def)

text \<open>Lines that are read back, with or without a newline after the last.\<close>

definition text_of :: "string list \<Rightarrow> string \<Rightarrow> string" where
  "text_of ls fin = join_with [newline] ls @ fin"

definition scannable_text :: "string list \<Rightarrow> string \<Rightarrow> bool" where
  "scannable_text ls fin \<longleftrightarrow> ls \<noteq> [] \<and> (\<forall>l \<in> set ls. scannable l) \<and> (fin = [newline] \<or> fin = [] \<and> last ls \<noteq> [])"

lemma scanned_lines:
  assumes "scannable_text (x # xs) fin"
  shows "\<exists>rest. Scan (text_of (x # xs) fin) = Some (x, rest) \<and>
    uncomment pre x rest = join_with [newline] (map (\<lambda>l. TrimPrefix l pre) (x # xs))"
  using assms
proof (induction xs arbitrary: x)
  case Nil
  then show ?case using Scan_line(1)[of x "[]"] Scan_line(2)[of x] by (auto simp: scannable_text_def text_of_def uncomment.simps)
next
  case (Cons y ys)
  have x: "scannable x" and ys: "scannable_text (y # ys) fin" using Cons.prems by (auto simp: scannable_text_def)
  obtain rest where "Scan (text_of (y # ys) fin) = Some (y, rest)"
    and "uncomment pre y rest = join_with [newline] (map (\<lambda>l. TrimPrefix l pre) (y # ys))"
    using Cons.IH[OF ys] by blast
  then show ?case
    using Scan_line(1)[OF x, of "text_of (y # ys) fin"] by (simp add: text_of_def uncomment.simps[of pre x])
qed

lemma TrimPrefix_append [simp]: "TrimPrefix (pre @ s) pre = s"
  by (simp add: TrimPrefix_def)

lemma Index_take:
  assumes "Index t s = Some i"
  shows "s = take i s @ t @ drop (i + length t) s"
  using assms
proof (induction t s arbitrary: i rule: Index.induct)
  case (2 t c s)
  show ?case
  proof (cases "prefix t (c # s)")
    case True
    then have "i = 0" and "c # s = t @ drop (length t) (c # s)" using "2.prems" by (auto simp: prefix_def)
    then show ?thesis by simp
  next
    case False
    with "2.prems" obtain j where "i = Suc j" "Index t s = Some j" by auto
    with "2.IH"[OF False, of j] show ?thesis by simp
  qed
qed (simp split: if_splits)

text \<open>C23: uncommenting undoes commenting. If the target is the first occurrence in the file of some
  lines with the prefix before each, \<open>UncommentCode\<close> writes the file with these lines as they were
  and everything around them untouched. The newline after the last line goes when it is part of
  the target, and what follows then continues that line.\<close>

theorem uncomment_roundtrip:
  assumes lines: "scannable_text (map ((@) pre) ls) fin"
    and target: "target = text_of (map ((@) pre) ls) fin"
    and read: "ReadFile os filename w = (Ok content, w')" and idx: "Index target content = Some idx"
  shows "content = take idx content @ target @ drop (idx + length target) content \<and>
    UncommentCode os filename target pre w =
      wrap_err (\<lambda>err. Errorf ''failed to write file %q: %w'' [AStr filename, AErr err])
        (WriteFile os filename (take idx content @ text_of ls [] @ drop (idx + length target) content)) w'"
proof -
  obtain x xs where ls: "ls = x # xs" using lines by (cases ls) (auto simp: scannable_text_def)
  obtain rest where "Scan target = Some (pre @ x, rest)" and "uncomment pre (pre @ x) rest = join_with [newline] ls"
    using scanned_lines[of "pre @ x" "map ((@) pre) xs" fin pre] lines unfolding target ls by (auto simp: comp_def)
  moreover have "wrap_err f (ReadFile os filename) w = (Ok content, w')" for f using read by (rule wrap_err_apply)
  ultimately show ?thesis
    using Index_take[OF idx] by (simp add: UncommentCode_def bind_apply(1) idx text_of_def)
qed

text \<open>A machine with one file, which is the world.\<close>

definition one_file :: "string machine" where
  "one_file = \<lparr>Getwd = ret ([], None), Chdir = (\<lambda>_. ret ()), Environ = ret [], LookupEnv = (\<lambda>_. ret None),
     CombinedOutput = (\<lambda>_. ret ([], None)), ReadFile = (\<lambda>_ w. (Ok w, w)), WriteFile = (\<lambda>_ s _. (Ok (), s))\<rparr>"

theorem uncomment_roundtrip_witness:
  "snd (UncommentCode one_file ''kustomization.yaml'' (''#- ../webhook'' @ newline # ''#- ../certmanager'') ''#''
     (''resources:'' @ newline # ''#- ../webhook'' @ newline # ''#- ../certmanager'' @ newline # ''- ../crd'')) =
   ''resources:'' @ newline # ''- ../webhook'' @ newline # ''- ../certmanager'' @ newline # ''- ../crd''"
proof -
  let ?ls = "[''- ../webhook'', ''- ../certmanager'']"
  let ?content = "''resources:'' @ newline # ''#- ../webhook'' @ newline # ''#- ../certmanager'' @ newline # ''- ../crd''"
  have "scannable_text (map ((@) ''#'') ?ls) []"
    by (simp add: scannable_text_def scannable_def drop_CR_def newline_def MaxScanTokenSize_def)
  moreover have "Index (text_of (map ((@) ''#'') ?ls) []) ?content = Some 11"
    by (simp add: text_of_def newline_def)
  ultimately show ?thesis
    using uncomment_roundtrip[of "''#''" ?ls "[]" _ one_file "''kustomization.yaml''" ?content ?content ?content 11]
    by (simp add: text_of_def one_file_def wrap_err_def if_err_def ret_def newline_def)
qed

end
