(* ===== verification/Full_Resync.thy ===== *)
theory Full_Resync
  imports Progress_Properties Owner_Properties Watch_Properties
begin

text \<open>
  A full resync: one reconcile for every Service by the Service reconciler and two for every Node,
  by the Node and the pod CIDR reconciler, in any order. On a cluster where nothing else happens
  and a NetBox that answers, every one of them succeeds, and in the end NetBox has what all of
  them want: what one puts right the others leave alone.
\<close>

section \<open>Nodes\<close>

definition lookups_answer :: "'w netbox_api \<Rightarrow> bool" where
  "lookups_answer api \<longleftrightarrow> (\<forall>p. succeeds (\<lambda>_. True) (DcimSitesList api p)) \<and>
     (\<forall>p. succeeds (\<lambda>_. True) (DcimDeviceRolesList api p)) \<and> (\<forall>p. succeeds (\<lambda>_. True) (DcimDeviceTypesList api p)) \<and>
     (\<forall>p. succeeds (\<lambda>_. True) (DcimPlatformsList api p)) \<and>
     (\<forall>p. succeeds (\<lambda>_. True) (ep_list (VirtualizationClusters api) p))"

lemma lookups_answerD:
  assumes "lookups_answer api"
  shows "succeeds (\<lambda>_. True) (DcimSitesList api p)" and "succeeds (\<lambda>_. True) (DcimDeviceRolesList api p)"
    and "succeeds (\<lambda>_. True) (DcimDeviceTypesList api p')" and "succeeds (\<lambda>_. True) (DcimPlatformsList api p)"
    and "succeeds (\<lambda>_. True) (ep_list (VirtualizationClusters api) p)"
  using assms by (simp_all add: lookups_answer_def)

text \<open>The reference objects that the configuration of the Nodes names are there.\<close>

definition node_cluster :: "HeraldConfigSpec \<Rightarrow> string" where
  "node_cluster spec = (let cfg = nd_VirtualMachine (rc_Nodes (hs_Resources spec)) in
     if vm_ClusterName cfg = '''' then cl_Name (rc_Cluster (hs_Resources spec)) else vm_ClusterName cfg)"

definition node_refs :: "nat \<Rightarrow> HeraldConfigSpec \<Rightarrow> nb_view \<Rightarrow> bool" where
  "node_refs psize spec v \<longleftrightarrow> (let nodes = rc_Nodes (hs_Resources spec); dev = nd_Device nodes; vm = nd_VirtualMachine nodes in
     if nd_Mapping nodes = NodeMappingDevice
     then v_refs v RDeviceType (dm_DeviceTypeName dev) \<noteq> {} \<and> v_refs v RDeviceRole (dm_DeviceRoleName dev) \<noteq> {} \<and>
       v_refs v RSite (dm_SiteName dev) \<noteq> {}
     else nd_Mapping nodes = NodeMappingVirtualMachine \<and> clusters_named v (node_cluster spec) \<noteq> {} \<and>
       card (clusters_like v (node_cluster spec)) \<le> psize \<and>
       (vm_PlatformName vm \<noteq> '''' \<longrightarrow> v_refs v RPlatform (vm_PlatformName vm) \<noteq> {}))"

lemma device_data_succeeds:
  assumes law: "lawful psize view api" and ans: "lookups_answer api"
    and there: "v_refs v RDeviceType (ds_DeviceTypeName s) \<noteq> {}" "v_refs v RDeviceRole (ds_DeviceRoleName s) \<noteq> {}"
      "v_refs v RSite (ds_SiteName s) \<noteq> {}"
  shows "triple (\<lambda>w. view w = v) (device_data api s) (\<lambda>_ w. view w = v) (\<lambda>_ _. False)"
  unfolding device_data_def
  by (rule triple_bind_fact[OF device_model.lookup_found[OF lawful_lookups(5)[OF law] lookups_answerD(3)[OF ans] _ there(1)]], simp,
      rule triple_bind_fact[OF device_role.lookup_found[OF lawful_lookups(4)[OF law] lookups_answerD(2)[OF ans] _ there(2)]], simp,
      rule triple_bind_fact[OF site.lookup_found[OF lawful_lookups(1)[OF law] lookups_answerD(1)[OF ans] _ there(3)]], simp)
    (simp add: triple_ret)

lemma vm_data_succeeds:
  assumes law: "lawful psize view api" and ans: "lookups_answer api"
    and there: "clusters_named v (vs_ClusterName s) \<noteq> {}" "card (clusters_like v (vs_ClusterName s)) \<le> psize"
      "vs_PlatformName s \<noteq> '''' \<Longrightarrow> v_refs v RPlatform (vs_PlatformName s) \<noteq> {}"
  shows "triple (\<lambda>w. view w = v) (vm_data api s) (\<lambda>_ w. view w = v) (\<lambda>_ _. False)"
proof -
  have "triple (\<lambda>w. view w = v) (bind (LookupPlatformID api (vs_PlatformName s)) k) (\<lambda>_ w. view w = v) (\<lambda>_ _. False)"
    if "vs_PlatformName s \<noteq> ''''" "\<And>i. k i = ret (f i)" for k and f :: "int \<Rightarrow> writable_vm"
    by (rule triple_bind_fact[OF platform.lookup_found[OF lawful_lookups(7)[OF law] lookups_answerD(4)[OF ans] _ there(3)[OF that(1)]]])
      (simp_all add: that(2) triple_ret)
  then show ?thesis
    unfolding vm_data_def Let_def
    by (intro triple_bind_fact[OF cluster_name.lookup_found[OF lawful_lookups(8)[OF law] lookups_answerD(5)[OF ans] there(2,1)]])
      (auto simp: triple_ret)
qed

lemma ensureNode_succeeds:
  assumes law: "lawful psize view api" and ans: "answers view device_kind (DcimDevices api)"
      "answers view vm_kind (VirtualizationVirtualMachines api)" "lookups_answer api"
    and tag: "tg_Slug t = Some slug" and refs: "node_refs psize spec v"
  shows "succeeds (\<lambda>w. view w = v) (ensureNode api spec node t)"
proof -
  have dev: "lawful_ep psize view device_kind (DcimDevices api)"
    and vm: "lawful_ep psize view vm_kind (VirtualizationVirtualMachines api)"
    using law by (simp_all add: lawful_def)
  show ?thesis
  proof (cases "nd_Mapping (rc_Nodes (hs_Resources spec)) = NodeMappingDevice")
    case True
    then show ?thesis
      using refs unfolding ensureNode_def Let_def node_refs_def
      by (auto intro!: succeeds_bind[OF device.ensure_succeeds_at[OF dev ans(1) _ device_data_succeeds[OF law ans(3)]]]
        succeeds_ret simp: tag)
  next
    case False
    then show ?thesis
      using refs unfolding ensureNode_def Let_def node_refs_def node_cluster_def
      by (auto intro!: succeeds_bind[OF vm.ensure_succeeds_at[OF vm ans(2) _ vm_data_succeeds[OF law ans(3)]]]
        succeeds_ret simp: tag)
  qed
qed

section \<open>A quiet cluster\<close>

text \<open>
  \<open>C\<close> holds of the worlds of a quiet cluster: the store has the spec and the client, nothing that
  is called changes that, the reads and the status update of the HeraldConfig and the clock
  succeed, and NetBox answers.
\<close>

definition quiet :: "('x world_scheme \<Rightarrow> nb_view) \<Rightarrow> ('x, 'v) env \<Rightarrow> HeraldConfigSpec \<Rightarrow> netbox_client \<Rightarrow>
    ('x world_scheme \<Rightarrow> bool) \<Rightarrow> bool" where
  "quiet view env spec c C \<longleftrightarrow> externals_keep C env \<and>
     (\<forall>w. C w \<longrightarrow> sto_spec (w_store w) = Some spec \<and> sto_client (w_store w) = Some c) \<and>
     succeeds C (GetHeraldConfig env singletonName) \<and> (\<forall>cr. succeeds C (UpdateStatus env cr)) \<and> succeeds C (Now env) \<and>
     (let api = Netbox env c in tags_answer api \<and> lookups_answer api \<and>
       answers view device_kind (DcimDevices api) \<and> answers view vm_kind (VirtualizationVirtualMachines api) \<and>
       answers view ip_kind (IpamIPAddresses api) \<and> answers view prefix_kind (IpamPrefixes api) \<and>
       answers view aggregate_kind (IpamAggregates api))"

lemma quietD:
  assumes "quiet view env spec c C"
  shows "kube_keeps C env" and "api_keeps C (Netbox env c')"
    and "C w \<Longrightarrow> sto_spec (w_store w) = Some spec" and "C w \<Longrightarrow> sto_client (w_store w) = Some c"
    and "succeeds C (GetHeraldConfig env singletonName)" and "succeeds C (UpdateStatus env cr)" and "succeeds C (Now env)"
  using assms by (simp_all add: quiet_def externals_keep_def)

lemma quiet_answers:
  assumes "quiet view env spec c C"
  shows "tags_answer (Netbox env c)" and "lookups_answer (Netbox env c)"
    and "answers view device_kind (DcimDevices (Netbox env c))" and "answers view vm_kind (VirtualizationVirtualMachines (Netbox env c))"
    and "answers view ip_kind (IpamIPAddresses (Netbox env c))" and "answers view prefix_kind (IpamPrefixes (Netbox env c))"
    and "answers view aggregate_kind (IpamAggregates (Netbox env c))"
  using assms by (simp_all add: quiet_def Let_def)

text \<open>Runs that succeed and leave the cluster quiet.\<close>

definition runs :: "('w \<Rightarrow> bool) \<Rightarrow> ('w, 'a) go \<Rightarrow> bool" where
  "runs C m \<longleftrightarrow> triple C m (\<lambda>_. C) (\<lambda>_ _. False)"

named_theorems runs_rules \<open>runs of the combinators\<close>

lemma runsI: "keeps C m \<Longrightarrow> succeeds C m \<Longrightarrow> runs C m"
  unfolding runs_def keeps_def by (rule succeeds_post)

lemma runs_ret [runs_rules]: "runs C (ret x)"
  by (simp add: runs_def triple_ret)

lemma runs_if_err [runs_rules]: "runs C m \<Longrightarrow> (\<And>x. runs C (k x)) \<Longrightarrow> runs C (if_err m h k)"
  unfolding runs_def by (rule triple_if_err[where S = "\<lambda>_ _. False"]) (simp_all add: triple_def)

lemma runs_bind [runs_rules]: "runs C m \<Longrightarrow> (\<And>x. runs C (k x)) \<Longrightarrow> runs C (bind m k)"
  unfolding bind_def by (rule runs_if_err)

lemma runs_attempt [runs_rules]: "keeps C m \<Longrightarrow> runs C (attempt m)"
  unfolding runs_def keeps_def by (rule triple_attempt)

lemma runs_StoreGet:
  assumes "quiet view env spec c C" and "runs C (k (Some spec, Some c))"
  shows "runs C (bind StoreGet k)"
  using assms(2) quietD(3,4)[OF assms(1)] by (simp add: runs_def triple_def bind_StoreGet)

lemma runs_at: "runs C m \<Longrightarrow> C w \<Longrightarrow> \<exists>x w'. m w = (Ok x, w') \<and> C w'"
  unfolding runs_def by (cases "m w"; cases "fst (m w)") (auto dest: triple_OkD triple_ErrD triple_PanicD)

lemma runs_sync_status:
  assumes "quiet view env spec c C"
  shows "runs C (sync_status env en g count err)"
  unfolding sync_status_def Let_def
  using runsI[OF kube_keepsD(10)[OF quietD(1)[OF assms]] quietD(7)[OF assms]]
  by (auto intro!: runs_rules split: option.split)

text \<open>The status of each type is brought up to date.\<close>

lemma status_runs:
  assumes q: "quiet view env spec c C"
  shows "runs C (syncServicesStatus env slug spec' err)" and "runs C (syncNodesStatus env slug spec' err)"
    and "runs C (syncPodCIDRStatus env slug spec' err)"
proof -
  have get: "runs C (GetHeraldConfig env singletonName)" and upd: "runs C (UpdateStatus env cr)" for cr
    by (intro runsI kube_keepsD[OF quietD(1)[OF q]] quietD[OF q])+
  have tail: "runs C (bind (attempt count) (\<lambda>count. bind (sync_status env en g count err) (\<lambda>st.
      bind (UpdateStatus env (f st)) (\<lambda>_. ret ()))))"
    if "keeps C count" for count :: "('a world_scheme, 64 word) go" and en g f
    by (intro runs_rules runs_sync_status[OF q] upd that)
  note counts = package_keepsD(7,11,14,17,20)[OF api_package_keeps[OF quietD(2)[OF q]]]
  show "runs C (syncServicesStatus env slug spec' err)" "runs C (syncNodesStatus env slug spec' err)"
    "runs C (syncPodCIDRStatus env slug spec' err)"
    unfolding syncServicesStatus_def syncNodesStatus_def syncPodCIDRStatus_def Let_def
    by (rule runs_if_err[OF get], rule runs_StoreGet[OF q], simp only: prod.case option.case, intro tail keeps_if counts)+
qed

text \<open>Whatever a resource reconciler does, the cluster stays quiet.\<close>

lemma quiet_kept:
  assumes q: "quiet view env spec c C" and r: "r \<noteq> HeraldConfigReconciler"
  shows "keeps C (reconcile r env req)"
proof -
  note kube = quietD(1)[OF q] and pkg = api_package_keeps[OF quietD(2)[OF q]]
  have all: "keeps C m" if "triple (\<lambda>w. C w \<and> store_spec (\<lambda>_. True) w) m (\<lambda>_. C) (\<lambda>_. C)" for m :: "('a world_scheme, result) go"
    using that by (simp add: keeps_def store_spec_def)
  show ?thesis
    using r all[OF reconcileCluster_keeps[OF kube pkg]] all[OF reconcileNode_keeps[OF kube pkg]]
      all[OF reconcileService_keeps[OF kube pkg]] all[OF reconcilePodCIDR_keeps[OF kube pkg]]
    by (cases r) simp_all
qed

lemma succeedsI: "(\<And>w. \<exists>w'. m w = (Ok x, w')) \<Longrightarrow> succeeds P m"
  unfolding succeeds_def triple_def by (metis (mono_tags, lifting) case_prod_conv outcome.case(1))

section \<open>One object\<close>

lemma pruned_synced_nil:
  assumes "kind_ok K" and "finite (managed K slug v)" and "pruned psize K slug pre {} v v'"
  shows "synced psize K slug pre R [] v v'"
  by (rule pruned_synced(2)[OF assms(1) refl _ assms(2)]) (use assms(3) in \<open>simp_all add: tag_ensured_def\<close>)

text \<open>What a Service wants in NetBox, the type being enabled.\<close>

definition wanted_addresses :: "service \<Rightarrow> string list" where
  "wanted_addresses svc = (if svc_Type svc = ServiceTypeLoadBalancer then desired_addresses svc else [])"

lemma service_step:
  assumes law: "lawful_world psize view env" and q: "quiet view env spec c C" and w: "C w"
    and on: "sv_Enabled (rc_Services (hs_Resources spec))"
    and get: "GetService env (svc_Namespace svc) (svc_Name svc) w = (Ok svc, w1)"
    and valid: "svc_Type svc = ServiceTypeLoadBalancer \<Longrightarrow> valid_ingress svc"
  shows "\<exists>w'. reconcileService env (service_request svc) w = (Ok \<lparr>RequeueAfter = resolveResyncInterval spec\<rparr>, w') \<and>
    synced psize ip_kind (resolveManagedTagSlug spec) (serviceExternalIDPrefix (svc_Namespace svc) (svc_Name svc))
      (address_recorded svc) (wanted_addresses svc) (view w) (view w')"
proof -
  let ?slug = "resolveManagedTagSlug spec"
  note api = lawful_worldD(2)[OF law] and store = quietD(3,4)[OF q w]
  have v1: "view w1 = view w" by (rule kube_reads(2)[OF law get])
  have C1: "C w1" by (rule keeps_OkD[OF kube_keepsD(5)[OF quietD(1)[OF q]] w get])
  note pkg = package_keepsD[OF api_package_keeps[OF quietD(2)[OF q]]]
  have ip: "lawful_ep psize view ip_kind (IpamIPAddresses (Netbox env c))" using api[of c] by (simp add: lawful_def)
  let ?act = "if svc_Type svc = ServiceTypeLoadBalancer then syncServiceAddresses (Netbox env c) ?slug svc
    else DeleteServiceIPs (Netbox env c) ?slug (svc_Namespace svc) (svc_Name svc)"
  have "succeeds C ?act"
    using succeedsI[where P = C, OF syncServiceAddresses_succeeds[OF api quiet_answers(5,1)[OF q] valid]]
      ip_owner.delete_owned_succeeds[OF ip quiet_answers(5)[OF q], of C ?slug "(svc_Namespace svc, svc_Name svc)"]
    by simp
  moreover have "keeps C ?act" by (intro keeps_if pkg)
  ultimately have "runs C ?act" by (rule runsI[rotated])
  from runs_at[OF this C1] obtain w2 where act: "?act w1 = (Ok (), w2)" and C2: "C w2" by auto
  have fin: "synced psize ip_kind ?slug (serviceExternalIDPrefix (svc_Namespace svc) (svc_Name svc))
      (address_recorded svc) (wanted_addresses svc) (view w) (view w2)"
  proof (cases "svc_Type svc = ServiceTypeLoadBalancer")
    case True
    then show ?thesis using triple_OkD[OF service_sync.sync_triple[OF api] v1, of c ?slug svc "()" w2] act
      by (simp add: wanted_addresses_def)
  next
    case False
    have "pruned psize ip_kind ?slug (serviceExternalIDPrefix (svc_Namespace svc) (svc_Name svc)) {} (view w) (view w2)"
      using triple_OkD[OF ip_owner.delete_owned_triple[OF ip] v1, of ?slug "(svc_Namespace svc, svc_Name svc)" "()" w2] act False
      by simp
    then show ?thesis using False
      by (simp add: wanted_addresses_def pruned_synced_nil[OF kind_ok_kinds(4) ip.finite_managed[OF ip]])
  qed
  obtain w3 where st: "syncServicesStatus env ?slug spec None w2 = (Ok (), w3)"
    using runs_at[OF status_runs(1)[OF q] C2] by fastforce
  have "view w3 = view w2" by (rule keeps_view[OF status_reads(2)[OF law] st])
  moreover have "reconcileService env (service_request svc) w = (Ok \<lparr>RequeueAfter = resolveResyncInterval spec\<rparr>, w3)"
    using act on by (cases "svc_Type svc = ServiceTypeLoadBalancer")
      (simp_all add: reconcileService_def bind_StoreGet store Let_def service_request_def
        if_err_apply(1)[where m = "GetService _ _ _", OF get] if_err_apply(1) bind_apply(1)[where m = "syncServicesStatus _ _ _ _", OF st] ret_apply)
  ultimately show ?thesis using fin by auto
qed

text \<open>A Node's device or virtual machine, the type being enabled.\<close>

lemma node_step:
  assumes law: "lawful_world psize view env" and q: "quiet view env spec c C" and w: "C w"
    and on: "nd_Enabled (rc_Nodes (hs_Resources spec))" and refs: "\<And>u. C u \<Longrightarrow> node_refs psize spec (view u)"
    and get: "GetNode env (nod_Name node) w = (Ok node, w1)"
  shows "\<exists>w' t u w3. reconcileNode env (node_request node) w = (Ok \<lparr>RequeueAfter = resolveResyncInterval spec\<rparr>, w') \<and>
    tg_Slug t = Some (resolveManagedTagSlug spec) \<and> tag_ensured (resolveManagedTagSlug spec) (view w) (view u) \<and>
    ensureNode (Netbox env c) spec node t u = (Ok (), w3) \<and> view w' = view w3"
proof -
  let ?slug = "resolveManagedTagSlug spec"
  note api = lawful_worldD(2)[OF law] and store = quietD(3,4)[OF q w]
  have v1: "view w1 = view w" by (rule kube_reads(1)[OF law get])
  have C1: "C w1" by (rule keeps_OkD[OF kube_keepsD(4)[OF quietD(1)[OF q]] w get])
  note pkg = api_package_keeps[OF quietD(2)[OF q]]
  have "keeps C (EnsureManagedTag (Netbox env c) ?slug)" by (rule keeps_triple[OF package_keepsD(1)[OF pkg]]) simp
  moreover have "succeeds C (EnsureManagedTag (Netbox env c) ?slug)"
    by (rule succeeds_weaken[OF EnsureManagedTag_succeeds[OF quiet_answers(1)[OF q]]]) simp
  ultimately have "runs C (EnsureManagedTag (Netbox env c) ?slug)" by (rule runsI)
  from runs_at[OF this C1] obtain t u where tag: "EnsureManagedTag (Netbox env c) ?slug w1 = (Ok t, u)" and Cu: "C u" by blast
  note tagged = EnsureManagedTag_run[OF api tag]
  have "succeeds (\<lambda>x. view x = view u) (ensureNode (Netbox env c) spec node t)"
    by (rule ensureNode_succeeds[OF api quiet_answers(3,4,2)[OF q] tagged(1) refs[OF Cu]])
  from succeeds_run[OF this, of u] obtain w3 where ens: "ensureNode (Netbox env c) spec node t u = (Ok (), w3)" by auto
  have C3: "C w3" by (rule keeps_OkD[OF ensureNode_keeps[OF pkg] Cu ens]) (simp add: tagged(1))
  obtain w4 where st: "syncNodesStatus env ?slug spec None w3 = (Ok (), w4)"
    using runs_at[OF status_runs(2)[OF q] C3] by fastforce
  have "reconcileNode env (node_request node) w = (Ok \<lparr>RequeueAfter = resolveResyncInterval spec\<rparr>, w4)"
    by (simp add: reconcileNode_def bind_StoreGet store Let_def node_request_def on if_err_apply(1)[where m = "GetNode _ _", OF get]
      if_err_apply(1)[where m = "EnsureManagedTag _ _", OF tag] if_err_apply(1)[where m = "ensureNode _ _ _ _", OF ens]
      bind_apply(1)[where m = "syncNodesStatus _ _ _ _", OF st] ret_apply)
  moreover have "view w4 = view w3" by (rule keeps_view[OF status_reads(1)[OF law] st])
  ultimately show ?thesis using tagged ens v1 by auto
qed

text \<open>A Node's pod CIDRs, the type being enabled and represented as prefixes.\<close>

lemma podcidr_step:
  assumes law: "lawful_world psize view env" and q: "quiet view env spec c C" and w: "C w"
    and on: "pc_Enabled (rc_PodCIDRs (hs_Resources spec))"
      "pc_Representation (rc_PodCIDRs (hs_Resources spec)) \<noteq> PodCIDRRepresentationAggregate"
    and get: "\<And>u. C u \<Longrightarrow> \<exists>u'. GetNode env (nod_Name node) u = (Ok node, u')"
  shows "\<exists>w' u. reconcilePodCIDR env (node_request node) w = (Ok \<lparr>RequeueAfter = resolveResyncInterval spec\<rparr>, w') \<and>
    aggregates_dropped psize (resolveManagedTagSlug spec) (view w) u \<and>
    synced psize prefix_kind (resolveManagedTagSlug spec) (nodePodCIDRExternalIDPrefix (nod_Name node))
      (cidr_recorded node) (desired_prefixes node) u (view w')"
proof -
  let ?slug = "resolveManagedTagSlug spec"
  note api = lawful_worldD(2)[OF law] and store = quietD(3,4)[OF q w]
  note pkg = package_keepsD[OF api_package_keeps[OF quietD(2)[OF q]]]
  have px: "lawful_ep psize view prefix_kind (IpamPrefixes (Netbox env c))" using api[of c] by (simp add: lawful_def)
  obtain w1 where stale: "deleteStalePodCIDRAggregates (Netbox env c) ?slug w = (Ok (), w1)"
    using deleteStalePodCIDRAggregates_succeeds[OF api quiet_answers(7)[OF q]] by blast
  have "keeps C (deleteStalePodCIDRAggregates (Netbox env c) ?slug)"
    unfolding deleteStalePodCIDRAggregates_def by (intro keeps_for_each pkg)
  from keeps_OkD[OF this w stale] have C1: "C w1" .
  obtain w2 where node: "GetNode env (nod_Name node) w1 = (Ok node, w2)" using get[OF C1] by blast
  have v2: "view w2 = view w1" by (rule kube_reads(1)[OF law node])
  have C2: "C w2" by (rule keeps_OkD[OF kube_keepsD(4)[OF quietD(1)[OF q]] C1 node])
  let ?act = "if nod_PodCIDRs node \<noteq> [] then syncNodePrefixes (Netbox env c) ?slug node
    else DeleteNodePodCIDRPrefixes (Netbox env c) ?slug (nod_Name node)"
  have "succeeds C ?act"
    using succeedsI[where P = C, OF syncNodePrefixes_succeeds[OF api quiet_answers(6,1)[OF q], where slug = ?slug]]
      pfx_owner.delete_owned_succeeds[OF px quiet_answers(6)[OF q], of C ?slug "nod_Name node"]
    by simp
  moreover have "keeps C ?act" by (intro keeps_if pkg)
  ultimately have "runs C ?act" by (rule runsI[rotated])
  from runs_at[OF this C2] obtain w3 where act: "?act w2 = (Ok (), w3)" and C3: "C w3" by auto
  have fin: "synced psize prefix_kind ?slug (nodePodCIDRExternalIDPrefix (nod_Name node))
      (cidr_recorded node) (desired_prefixes node) (view w1) (view w3)"
  proof (cases "nod_PodCIDRs node = []")
    case False
    then show ?thesis using triple_OkD[OF prefix_sync.sync_triple[OF api] v2, of c ?slug node "()" w3] act by simp
  next
    case True
    have "pruned psize prefix_kind ?slug (nodePodCIDRExternalIDPrefix (nod_Name node)) {} (view w1) (view w3)"
      using triple_OkD[OF pfx_owner.delete_owned_triple[OF px] v2, of ?slug "nod_Name node" "()" w3] act True by simp
    then show ?thesis using True
      by (simp add: desired_prefixes_def pruned_synced_nil[OF kind_ok_kinds(5) pfx.finite_managed[OF px]])
  qed
  obtain w4 where st: "syncPodCIDRStatus env ?slug spec None w3 = (Ok (), w4)"
    using runs_at[OF status_runs(3)[OF q] C3] by fastforce
  have "view w4 = view w3" by (rule keeps_view[OF status_reads(3)[OF law] st])
  moreover have "reconcilePodCIDR env (node_request node) w = (Ok \<lparr>RequeueAfter = resolveResyncInterval spec\<rparr>, w4)"
    using act on by (cases "nod_PodCIDRs node = []")
      (simp_all add: reconcilePodCIDR_def reconcilePrefixForNode_def bind_StoreGet store Let_def node_request_def
        if_err_apply(1)[where m = "deleteStalePodCIDRAggregates _ _", OF stale] if_err_apply(1)[where m = "GetNode _ _", OF node]
        if_err_apply(1) bind_apply(1)[where m = "syncPodCIDRStatus _ _ _ _", OF st] ret_apply)
  moreover have "aggregates_dropped psize ?slug (view w) (view w1)"
    by (rule delete_aggregates_run[OF api stale[unfolded deleteStalePodCIDRAggregates_def]])
  ultimately show ?thesis using fin by auto
qed

section \<open>What one object's reconcile leaves alone\<close>

text \<open>\<open>moves\<close>: of a kind's managed objects, only those with an external ID in \<open>X\<close> may have changed.
  \<open>fits\<close>: external IDs are unique, and \<open>n\<close> more managed objects fit on a page.\<close>

definition moves :: "('o, 'd writable_scheme) kind \<Rightarrow> string \<Rightarrow> string set \<Rightarrow> nb_view \<Rightarrow> nb_view \<Rightarrow> bool" where
  "moves K slug X v v' \<longleftrightarrow> spares K slug X v v' \<and> (\<forall>y. y \<notin> X \<longrightarrow> ids_for K slug y v' = ids_for K slug y v)"

definition fits :: "('o, 'd writable_scheme) kind \<Rightarrow> string \<Rightarrow> nat \<Rightarrow> nat \<Rightarrow> nb_view \<Rightarrow> bool" where
  "fits K slug psize n v \<longleftrightarrow> unique_ids K slug v \<and> card (managed K slug v) + n \<le> psize"

lemma moves_settled: "moves K slug X v v' \<Longrightarrow> y \<notin> X \<Longrightarrow> settled K slug R y v \<Longrightarrow> settled K slug R y v'"
  unfolding moves_def by (blast intro: spares_settled)

lemma moves_matches:
  assumes "moves K slug X v v'" and "\<And>y. prefix pre y \<Longrightarrow> y \<notin> X" and "matches K slug pre R xs v"
  shows "matches K slug pre R xs v'"
  using assms(3) moves_settled[OF assms(1) assms(2)] assms(1,2) unfolding matches_settled moves_def by simp

lemma unmoved:
  assumes "k_get K v' = k_get K v"
  shows "moves K slug X v v'" and "fits K slug psize n v' = fits K slug psize n v"
  using spares_same[OF assms, of slug X v'] same_table[OF assms, of slug] spares_refl[of K slug X v']
  by (simp_all add: moves_def fits_def)

lemma fits_fewer: "fits K slug psize (m + n) v \<Longrightarrow> fits K slug psize n v"
  by (simp add: fits_def)

lemma synced_moves:
  assumes "synced psize K slug pre R xs u v'" and get: "k_get K u = k_get K v"
  shows "moves K slug {y. prefix pre y} v v'"
    and "fits K slug psize (length xs + n) v \<Longrightarrow> fits K slug psize n v'"
    and "fits K slug psize (length xs + n) v \<Longrightarrow> matches K slug pre R xs v'"
  using assms(1) same_table[OF get, of slug] spares_same[OF get, of slug]
  unfolding synced_iff sync_frame_def moves_def fits_def by auto

lemma ensured_moves:
  assumes ok: "kind_ok K" and ens: "ensured psize K slug x R i u v'" and get: "k_get K u = k_get K v"
    and fin: "finite (managed K slug v)"
  shows "moves K slug {x} v v'"
    and "fits K slug psize (Suc n) v \<Longrightarrow> fits K slug psize n v'"
    and "fits K slug psize (Suc n) v \<Longrightarrow> settled K slug (\<lambda>_. R) x v'"
proof -
  note same = same_table[OF get, of slug]
  have "finite (managed K slug u)" using fin same by simp
  note card = ensured_card[OF ok ens this]
  show "moves K slug {x} v v'"
    using ensured_spares[OF ok ens] ensured_ids_for[OF ok ens] same(1) spares_same[OF get, of slug] by (simp add: moves_def)
  show "fits K slug psize n v'" if "fits K slug psize (Suc n) v"
    using ensured_unique(1)[OF ok ens] that same card by (simp add: fits_def)
  show "settled K slug (\<lambda>_. R) x v'" if "fits K slug psize (Suc n) v"
    by (rule ensured_settled(1)[OF ok ens]) (use that same in \<open>simp_all add: fits_def\<close>)
qed

section \<open>The objects of the cluster\<close>

text \<open>One reconcile of the resync: a Service, a Node as a device or virtual machine, a Node's pod CIDRs.\<close>

datatype task = ServiceTask service | NodeTask node | PodCIDRTask node

fun run_task :: "('x, 'v) env \<Rightarrow> task \<Rightarrow> ('x world_scheme, result) go" where
  "run_task env (ServiceTask svc) = reconcile ServiceReconciler env (service_request svc)"
| "run_task env (NodeTask node) = reconcile NodeReconciler env (node_request node)"
| "run_task env (PodCIDRTask node) = reconcile PodCIDRReconciler env (node_request node)"

text \<open>What it is to bring about.\<close>

fun task_done :: "HeraldConfigSpec \<Rightarrow> nb_view \<Rightarrow> task \<Rightarrow> bool" where
  "task_done spec v (ServiceTask svc) =
     matches ip_kind (resolveManagedTagSlug spec) (serviceExternalIDPrefix (svc_Namespace svc) (svc_Name svc))
       (address_recorded svc) (wanted_addresses svc) v"
| "task_done spec v (NodeTask node) =
     (if nd_Mapping (rc_Nodes (hs_Resources spec)) = NodeMappingDevice
      then settled device_kind (resolveManagedTagSlug spec) (\<lambda>_. node_device spec node v) (nod_UID node) v
      else settled vm_kind (resolveManagedTagSlug spec) (\<lambda>_. node_vm spec node v) (nod_UID node) v)"
| "task_done spec v (PodCIDRTask node) =
     matches prefix_kind (resolveManagedTagSlug spec) (nodePodCIDRExternalIDPrefix (nod_Name node))
       (cidr_recorded node) (desired_prefixes node) v"

text \<open>The external IDs whose objects it may touch, kind by kind, and how many objects it may add.\<close>

fun ip_keys :: "task \<Rightarrow> string set" where
  "ip_keys (ServiceTask svc) = {y. prefix (serviceExternalIDPrefix (svc_Namespace svc) (svc_Name svc)) y}"
| "ip_keys _ = {}"

fun node_keys :: "task \<Rightarrow> string set" where
  "node_keys (NodeTask node) = {nod_UID node}"
| "node_keys _ = {}"

fun prefix_keys :: "task \<Rightarrow> string set" where
  "prefix_keys (PodCIDRTask node) = {y. prefix (nodePodCIDRExternalIDPrefix (nod_Name node)) y}"
| "prefix_keys _ = {}"

fun ip_need :: "task \<Rightarrow> nat" where
  "ip_need (ServiceTask svc) = length (wanted_addresses svc)"
| "ip_need _ = 0"

fun node_need :: "task \<Rightarrow> nat" where
  "node_need (NodeTask node) = 1"
| "node_need _ = 0"

fun prefix_need :: "task \<Rightarrow> nat" where
  "prefix_need (PodCIDRTask node) = length (desired_prefixes node)"
| "prefix_need _ = 0"

text \<open>Different Services, Nodes by UID, and Nodes by name.\<close>

fun apart :: "task \<Rightarrow> task \<Rightarrow> bool" where
  "apart (ServiceTask s) (ServiceTask t) = ((svc_Namespace s, svc_Name s) \<noteq> (svc_Namespace t, svc_Name t))"
| "apart (NodeTask n) (NodeTask m) = (nod_UID n \<noteq> nod_UID m)"
| "apart (PodCIDRTask n) (PodCIDRTask m) = (nod_Name n \<noteq> nod_Name m)"
| "apart _ _ = True"

fun task_named :: "task \<Rightarrow> bool" where
  "task_named (ServiceTask svc) = named_service svc"
| "task_named (NodeTask node) = True"
| "task_named (PodCIDRTask node) = named_node node"

definition task_frame :: "string \<Rightarrow> task \<Rightarrow> nb_view \<Rightarrow> nb_view \<Rightarrow> bool" where
  "task_frame slug t v v' \<longleftrightarrow> moves ip_kind slug (ip_keys t) v v' \<and> moves prefix_kind slug (prefix_keys t) v v' \<and>
     moves device_kind slug (node_keys t) v v' \<and> moves vm_kind slug (node_keys t) v v' \<and>
     v_refs v' = v_refs v \<and> v_clusters v' = v_clusters v"

definition room_for :: "string \<Rightarrow> nat \<Rightarrow> task list \<Rightarrow> nb_view \<Rightarrow> bool" where
  "room_for slug psize ts v \<longleftrightarrow> fits ip_kind slug psize (\<Sum>t \<leftarrow> ts. ip_need t) v \<and>
     fits prefix_kind slug psize (\<Sum>t \<leftarrow> ts. prefix_need t) v \<and>
     fits device_kind slug psize (\<Sum>t \<leftarrow> ts. node_need t) v \<and> fits vm_kind slug psize (\<Sum>t \<leftarrow> ts. node_need t) v"

lemma apart_keys:
  assumes "apart s t" and "task_named s" and "task_named t"
  shows "y \<in> ip_keys s \<Longrightarrow> y \<notin> ip_keys t" and "y \<in> prefix_keys s \<Longrightarrow> y \<notin> prefix_keys t"
    and "y \<in> node_keys s \<Longrightarrow> y \<notin> node_keys t"
proof -
  have svc: "\<not> prefix (serviceExternalIDPrefix (svc_Namespace b) (svc_Name b)) y"
    if "named_service a" "named_service b" "(svc_Namespace a, svc_Name a) \<noteq> (svc_Namespace b, svc_Name b)"
      "prefix (serviceExternalIDPrefix (svc_Namespace a) (svc_Name a)) y" for a b
    using that service_apart unfolding named_service_def by blast
  have node: "\<not> prefix (nodePodCIDRExternalIDPrefix (nod_Name b)) y"
    if "named_node a" "named_node b" "nod_Name a \<noteq> nod_Name b" "prefix (nodePodCIDRExternalIDPrefix (nod_Name a)) y" for a b
    using that node_apart unfolding named_node_def by blast
  show "y \<in> ip_keys s \<Longrightarrow> y \<notin> ip_keys t"
    using assms by (cases s; cases t) (simp_all del: prod.inject, blast dest: svc)
  show "y \<in> prefix_keys s \<Longrightarrow> y \<notin> prefix_keys t"
    using assms by (cases s; cases t) (simp_all, blast dest: node)
  show "y \<in> node_keys s \<Longrightarrow> y \<notin> node_keys t"
    using assms(1) by (cases s; cases t) auto
qed

lemma frame_done:
  assumes fr: "task_frame (resolveManagedTagSlug spec) t v v'" and ap: "apart s t" "task_named s" "task_named t"
    and d: "task_done spec v s"
  shows "task_done spec v' s"
proof -
  note keys = apart_keys[OF ap]
  have refs: "v_refs v' = v_refs v" "v_clusters v' = v_clusters v"
    and ip: "moves ip_kind (resolveManagedTagSlug spec) (ip_keys t) v v'"
    and px: "moves prefix_kind (resolveManagedTagSlug spec) (prefix_keys t) v v'"
    and dev: "moves device_kind (resolveManagedTagSlug spec) (node_keys t) v v'"
    and vm: "moves vm_kind (resolveManagedTagSlug spec) (node_keys t) v v'"
    using fr by (simp_all add: task_frame_def)
  have "clusters_named v' n = clusters_named v n" for n
    by (rule set_eqI) (simp add: clusters_named_iff refs)
  then have "node_device spec node v' = node_device spec node v" "node_vm spec node v' = node_vm spec node v" for node
    by (simp_all add: fun_eq_iff node_device_def node_vm_def refs)
  with d show ?thesis
    using keys by (cases s) (auto intro: moves_matches[OF ip] moves_matches[OF px] moves_settled[OF dev] moves_settled[OF vm])
qed

text \<open>
  The object is there whenever the cluster is quiet and its type is enabled; a LoadBalancer's
  addresses are valid, and what a Node's object refers to exists in NetBox.
\<close>

fun ready :: "nat \<Rightarrow> ('x world_scheme \<Rightarrow> nb_view) \<Rightarrow> ('x, 'v) env \<Rightarrow> HeraldConfigSpec \<Rightarrow> ('x world_scheme \<Rightarrow> bool) \<Rightarrow>
    task \<Rightarrow> bool" where
  "ready psize view env spec C (ServiceTask svc) \<longleftrightarrow> sv_Enabled (rc_Services (hs_Resources spec)) \<and>
     (\<forall>u. C u \<longrightarrow> (\<exists>u'. GetService env (svc_Namespace svc) (svc_Name svc) u = (Ok svc, u'))) \<and>
     (svc_Type svc = ServiceTypeLoadBalancer \<longrightarrow> valid_ingress svc)"
| "ready psize view env spec C (NodeTask node) \<longleftrightarrow> nd_Enabled (rc_Nodes (hs_Resources spec)) \<and>
     (\<forall>u. C u \<longrightarrow> (\<exists>u'. GetNode env (nod_Name node) u = (Ok node, u')) \<and> node_refs psize spec (view u))"
| "ready psize view env spec C (PodCIDRTask node) \<longleftrightarrow> pc_Enabled (rc_PodCIDRs (hs_Resources spec)) \<and>
     pc_Representation (rc_PodCIDRs (hs_Resources spec)) \<noteq> PodCIDRRepresentationAggregate \<and>
     (\<forall>u. C u \<longrightarrow> (\<exists>u'. GetNode env (nod_Name node) u = (Ok node, u')))"

definition task_effect :: "nat \<Rightarrow> HeraldConfigSpec \<Rightarrow> task \<Rightarrow> task list \<Rightarrow> nb_view \<Rightarrow> nb_view \<Rightarrow> bool" where
  "task_effect psize spec t ts v v' \<longleftrightarrow> task_frame (resolveManagedTagSlug spec) t v v' \<and>
     room_for (resolveManagedTagSlug spec) psize ts v' \<and> task_done spec v' t"

lemma service_effect:
  assumes "synced psize ip_kind (resolveManagedTagSlug spec) (serviceExternalIDPrefix (svc_Namespace svc) (svc_Name svc))
      (address_recorded svc) (wanted_addresses svc) v v'"
    and "room_for (resolveManagedTagSlug spec) psize (ServiceTask svc # ts) v"
  shows "task_effect psize spec (ServiceTask svc) ts v v'"
proof -
  obtain u where u: "tag_ensured (resolveManagedTagSlug spec) v u" "only ip_kind u v'"
    using assms(1) unfolding synced_iff sync_frame_def by blast
  have "k_get prefix_kind v' = k_get prefix_kind v" "k_get device_kind v' = k_get device_kind v"
    "k_get vm_kind v' = k_get vm_kind v" "v_refs v' = v_refs v" "v_clusters v' = v_clusters v"
    using other_tables(4)[OF u(2)] other_refs(4)[OF u(2)] tag_ensured_tables[OF u(1)] by (simp_all add: kind_defs)
  note same = this
  show ?thesis
    using synced_moves(1)[OF assms(1) refl] synced_moves(2,3)[where n = "\<Sum>t \<leftarrow> ts. ip_need t", OF assms(1) refl] assms(2) unmoved[OF same(1)] unmoved[OF same(2)] unmoved[OF same(3)] same(4,5)
    by (simp add: task_effect_def task_frame_def room_for_def)
qed

lemma podcidr_effect:
  assumes "aggregates_dropped psize (resolveManagedTagSlug spec) v u"
    and "synced psize prefix_kind (resolveManagedTagSlug spec) (nodePodCIDRExternalIDPrefix (nod_Name node))
      (cidr_recorded node) (desired_prefixes node) u v'"
    and "room_for (resolveManagedTagSlug spec) psize (PodCIDRTask node # ts) v"
  shows "task_effect psize spec (PodCIDRTask node) ts v v'"
proof -
  obtain x where x: "only aggregate_kind v x" "only aggregate_kind x u"
    using assms(1) unfolding aggregates_dropped_def dropped_def by blast
  obtain y where y: "tag_ensured (resolveManagedTagSlug spec) u y" "only prefix_kind y v'"
    using assms(2) unfolding synced_iff sync_frame_def by blast
  note tables = other_tables(6)[OF x(1)] other_tables(6)[OF x(2)] other_refs(6)[OF x(1)] other_refs(6)[OF x(2)]
  have "k_get prefix_kind u = k_get prefix_kind v" using tables by simp
  note m = synced_moves(1)[OF assms(2) this] synced_moves(2,3)[where n = "\<Sum>t \<leftarrow> ts. prefix_need t", OF assms(2) this]
  have "k_get ip_kind v' = k_get ip_kind v" "k_get device_kind v' = k_get device_kind v"
    "k_get vm_kind v' = k_get vm_kind v" "v_refs v' = v_refs v" "v_clusters v' = v_clusters v"
    using tables other_tables(5)[OF y(2)] other_refs(5)[OF y(2)] tag_ensured_tables[OF y(1)] by (simp_all add: kind_defs)
  note same = this
  show ?thesis
    using m assms(3) unmoved[OF same(1)] unmoved[OF same(2)] unmoved[OF same(3)] same(4,5)
    by (simp add: task_effect_def task_frame_def room_for_def)
qed

lemma node_effect:
  assumes law: "lawful psize view api" and tag: "tg_Slug t = Some (resolveManagedTagSlug spec)"
    and u: "tag_ensured (resolveManagedTagSlug spec) (view w) (view u)" and run: "ensureNode api spec node t u = (Ok (), w')"
    and room: "room_for (resolveManagedTagSlug spec) psize (NodeTask node # ts) (view w)"
  shows "task_effect psize spec (NodeTask node) ts (view w) (view w')"
proof -
  let ?slug = "resolveManagedTagSlug spec"
  note tabs = tag_ensured_tables[OF u]
  have dev_ep: "lawful_ep psize view device_kind (DcimDevices api)" and vm_ep: "lawful_ep psize view vm_kind (VirtualizationVirtualMachines api)"
    using law by (simp_all add: lawful_def)
  have named: "node_device spec node x = node_device spec node y \<and> node_vm spec node x = node_vm spec node y"
    if "v_refs x = v_refs y" "v_clusters x = v_clusters y" for x y
  proof -
    have "clusters_named x n = clusters_named y n" for n by (rule set_eqI) (simp add: clusters_named_iff that)
    then show ?thesis by (simp add: fun_eq_iff node_device_def node_vm_def that)
  qed
  from ensureNode_ensured[OF law tag run] consider
      (dev) i where "nd_Mapping (rc_Nodes (hs_Resources spec)) = NodeMappingDevice"
        "ensured psize device_kind ?slug (nod_UID node) (node_device spec node (view u)) i (view u) (view w')"
    | (vm) i where "nd_Mapping (rc_Nodes (hs_Resources spec)) \<noteq> NodeMappingDevice"
        "ensured psize vm_kind ?slug (nod_UID node) (node_vm spec node (view u)) i (view u) (view w')" by blast
  then show ?thesis
  proof cases
    case dev
    note o = only_ensured[OF dev(2)]
    have same: "k_get ip_kind (view w') = k_get ip_kind (view w)" "k_get prefix_kind (view w') = k_get prefix_kind (view w)"
      "k_get vm_kind (view w') = k_get vm_kind (view w)" "v_refs (view w') = v_refs (view w)" "v_clusters (view w') = v_clusters (view w)"
      using other_tables(2)[OF o] other_refs(2)[OF o] tabs by (simp_all add: kind_defs)
    have "k_get device_kind (view u) = k_get device_kind (view w)" using tabs by (simp add: device_kind_def)
    note m = ensured_moves(1)[OF kind_ok_kinds(2) dev(2) this device.finite_managed[OF dev_ep]]
      ensured_moves(2,3)[where n = "\<Sum>t \<leftarrow> ts. node_need t", OF kind_ok_kinds(2) dev(2) this device.finite_managed[OF dev_ep]]
    have "node_device spec node (view u) = node_device spec node (view w')" using named[of "view u" "view w'"] same tabs by simp
    then show ?thesis
      using m room dev(1) unmoved[OF same(1)] unmoved[OF same(2)] unmoved[OF same(3)] same(4,5)
        fits_fewer[of vm_kind _ psize 1 "\<Sum>t \<leftarrow> ts. node_need t"]
      by (simp add: task_effect_def task_frame_def room_for_def)
  next
    case vm
    note o = only_ensured[OF vm(2)]
    have same: "k_get ip_kind (view w') = k_get ip_kind (view w)" "k_get prefix_kind (view w') = k_get prefix_kind (view w)"
      "k_get device_kind (view w') = k_get device_kind (view w)" "v_refs (view w') = v_refs (view w)" "v_clusters (view w') = v_clusters (view w)"
      using other_tables(3)[OF o] other_refs(3)[OF o] tabs by (simp_all add: kind_defs)
    have "k_get vm_kind (view u) = k_get vm_kind (view w)" using tabs by (simp add: vm_kind_def)
    note m = ensured_moves(1)[OF kind_ok_kinds(3) vm(2) this vm.finite_managed[OF vm_ep]]
      ensured_moves(2,3)[where n = "\<Sum>t \<leftarrow> ts. node_need t", OF kind_ok_kinds(3) vm(2) this vm.finite_managed[OF vm_ep]]
    have "node_vm spec node (view u) = node_vm spec node (view w')" using named[of "view u" "view w'"] same tabs by simp
    then show ?thesis
      using m room vm(1) unmoved[OF same(1)] unmoved[OF same(2)] unmoved[OF same(3)] same(4,5)
        fits_fewer[of device_kind _ psize 1 "\<Sum>t \<leftarrow> ts. node_need t"]
      by (simp add: task_effect_def task_frame_def room_for_def)
  qed
qed

lemma task_step:
  assumes law: "lawful_world psize view env" and q: "quiet view env spec c C" and w: "C w"
    and r: "ready psize view env spec C t" and room: "room_for (resolveManagedTagSlug spec) psize (t # ts) (view w)"
  shows "\<exists>w'. run_task env t w = (Ok \<lparr>RequeueAfter = resolveResyncInterval spec\<rparr>, w') \<and> C w' \<and>
    task_effect psize spec t ts (view w) (view w')"
proof -
  note kept = keeps_OkD[OF quiet_kept[OF q] w]
  show ?thesis
  proof (cases t)
    case (ServiceTask svc)
    with r w obtain w1 where on: "sv_Enabled (rc_Services (hs_Resources spec))"
      and get: "GetService env (svc_Namespace svc) (svc_Name svc) w = (Ok svc, w1)"
      and valid: "svc_Type svc = ServiceTypeLoadBalancer \<Longrightarrow> valid_ingress svc" by auto
    from service_step[OF law q w on get valid] service_effect[OF _ room[unfolded ServiceTask]] kept[of ServiceReconciler]
    show ?thesis unfolding ServiceTask by fastforce
  next
    case (NodeTask node)
    with r w obtain w1 where on: "nd_Enabled (rc_Nodes (hs_Resources spec))"
      and get: "GetNode env (nod_Name node) w = (Ok node, w1)" and refs: "\<And>u. C u \<Longrightarrow> node_refs psize spec (view u)" by auto
    from node_step[OF law q w on refs get] obtain w' tg u w3 where
      run: "reconcileNode env (node_request node) w = (Ok \<lparr>RequeueAfter = resolveResyncInterval spec\<rparr>, w')"
      and tag: "tg_Slug tg = Some (resolveManagedTagSlug spec)" and u: "tag_ensured (resolveManagedTagSlug spec) (view w) (view u)"
      and ens: "ensureNode (Netbox env c) spec node tg u = (Ok (), w3)" and v: "view w' = view w3" by blast
    from node_effect[OF lawful_worldD(2)[OF law] tag u ens room[unfolded NodeTask]] v
    have "task_effect psize spec t ts (view w) (view w')" by (simp add: NodeTask)
    then show ?thesis using run kept[of NodeReconciler] by (simp add: NodeTask)
  next
    case (PodCIDRTask node)
    with r have on: "pc_Enabled (rc_PodCIDRs (hs_Resources spec))"
        "pc_Representation (rc_PodCIDRs (hs_Resources spec)) \<noteq> PodCIDRRepresentationAggregate"
      and get: "\<And>u. C u \<Longrightarrow> \<exists>u'. GetNode env (nod_Name node) u = (Ok node, u')" by auto
    from podcidr_step[OF law q w on get] podcidr_effect[OF _ _ room[unfolded PodCIDRTask]] kept[of PodCIDRReconciler]
    show ?thesis unfolding PodCIDRTask by fastforce
  qed
qed

section \<open>The whole cluster\<close>

text \<open>The outcomes of the reconciles, and the world after them.\<close>

fun run_all :: "('x, 'v) env \<Rightarrow> task list \<Rightarrow> 'x world_scheme \<Rightarrow> result outcome list \<times> 'x world_scheme" where
  "run_all env [] w = ([], w)"
| "run_all env (t # ts) w = (let (out, w1) = run_task env t w; (outs, w2) = run_all env ts w1 in (out # outs, w2))"

text \<open>C15: a full resync converges. Suppose that nothing else happens in the cluster or
  NetBox, that every call is answered, and that one reconcile is run for each of a list of Services,
  Nodes and Nodes with their pod CIDRs, in any order. Their types are enabled, pod CIDRs as
  prefixes; each is the object Kubernetes returns; no two stand for the same object and no name has
  a slash; the ingress addresses of LoadBalancers parse; the names a device or virtual machine
  refers to resolve; external IDs are unique, and for each kind the managed objects and all that is
  asked for fit on one page. Then every reconcile succeeds and asks to be run again after the resync
  interval, and in the end NetBox has exactly what they want: one IP address per ingress address of
  each LoadBalancer and none of other Services, one device or virtual machine per Node, one prefix
  per pod CIDR. What was right of objects not in the list stays right.\<close>

theorem full_resync_converges:
  assumes law: "lawful_world psize view env" and q: "quiet view env spec c C" and w: "C w"
    and ts: "\<forall>t \<in> set ts. ready psize view env spec C t \<and> task_named t" "sorted_wrt apart ts"
    and room: "room_for (resolveManagedTagSlug spec) psize ts (view w)"
  shows "fst (run_all env ts w) = replicate (length ts) (Ok \<lparr>RequeueAfter = resolveResyncInterval spec\<rparr>) \<and>
    (\<forall>t \<in> set ts. task_done spec (view (snd (run_all env ts w))) t) \<and>
    (\<forall>s. task_named s \<and> (\<forall>t \<in> set ts. apart s t) \<and> task_done spec (view w) s \<longrightarrow>
       task_done spec (view (snd (run_all env ts w))) s)"
  using w ts room
proof (induction ts arbitrary: w)
  case (Cons t ts)
  from Cons.prems(2) have r: "ready psize view env spec C t" by simp
  obtain w1 where run: "run_task env t w = (Ok \<lparr>RequeueAfter = resolveResyncInterval spec\<rparr>, w1)" and C1: "C w1"
    and eff: "task_effect psize spec t ts (view w) (view w1)"
    using task_step[OF law q Cons.prems(1) r Cons.prems(4)] by blast
  have fr: "task_frame (resolveManagedTagSlug spec) t (view w) (view w1)" and now: "task_done spec (view w1) t"
    and room: "room_for (resolveManagedTagSlug spec) psize ts (view w1)"
    using eff by (simp_all add: task_effect_def)
  note IH = Cons.IH[OF C1 _ _ room]
  have all: "run_all env (t # ts) w =
      (Ok \<lparr>RequeueAfter = resolveResyncInterval spec\<rparr> # fst (run_all env ts w1), snd (run_all env ts w1))"
    by (simp add: run split_beta)
  show ?case
    unfolding all using IH Cons.prems(2,3) now frame_done[OF fr, where s = s for s] by auto
qed simp

section \<open>In memory\<close>

definition plain_service :: service where
  "plain_service = \<lparr>svc_Namespace = ''ns'', svc_Name = ''db'', svc_Type = ''ClusterIP'', svc_Ingress = []\<rparr>"

text \<open>A cluster with a LoadBalancer, a Service that is none any more, and a Node.\<close>

definition busy_world :: memory where
  "busy_world = live_world\<lparr>k_services := [demo_service, plain_service]\<rparr>"

definition busy_tasks :: "task list" where
  "busy_tasks = [ServiceTask plain_service, NodeTask demo_node, ServiceTask demo_service, PodCIDRTask demo_node]"

definition still_busy :: "memory \<Rightarrow> bool" where
  "still_busy w \<longleftrightarrow> w_store w = w_store busy_world \<and> k_config w \<noteq> None \<and> k_nodes w = [demo_node] \<and>
     k_services w = [demo_service, plain_service] \<and> m_refs w = demo_refs"

lemma busy_start: "still_busy busy_world"
  by (simp add: still_busy_def busy_world_def live_world_def stocked_world_def demo_world_def)

lemma quiet_busy: "quiet mem_view (mem_env 50) demo_spec demo_client still_busy"
proof -
  have "api_keeps still_busy (mem_api 50)"
    unfolding still_busy_def
    by (rule mem_keeps_rest[where P = "\<lambda>st cr ns ss rs. st = w_store busy_world \<and> cr \<noteq> None \<and> ns = [demo_node] \<and>
      ss = [demo_service, plain_service] \<and> rs = demo_refs"])
  moreover have "kube_keeps still_busy (mem_env 50)"
    unfolding kube_keeps_def
    by (intro conjI allI)
      (simp_all add: mem_env_def keeps_existing keeps_ret, simp_all add: keeps_def triple_def mem_update_status_def
        still_busy_def Let_def split: option.split)
  ultimately have ext: "externals_keep still_busy (mem_env 50)" by (simp add: externals_keep_def mem_env_def)
  have st: "sto_spec (w_store w) = Some demo_spec \<and> sto_client (w_store w) = Some demo_client" if "still_busy w" for w
    using that live_store by (simp add: still_busy_def busy_world_def)
  have "lookups_answer (mem_api 50)"
    by (simp add: lookups_answer_def succeeds_def triple_def mem_api_def mem_ep_def mem_refs_def mem_device_types_def)
  moreover have "Netbox (mem_env 50) demo_client = mem_api 50" by (simp add: mem_env_def)
  moreover have "succeeds still_busy (GetHeraldConfig (mem_env 50) singletonName)"
    "\<And>cr. succeeds still_busy (UpdateStatus (mem_env 50) cr)" "succeeds still_busy (Now (mem_env 50))"
    by (auto simp: succeeds_def triple_def mem_env_def existing_def mem_update_status_def still_busy_def Let_def)
  ultimately show ?thesis using ext st by (simp add: quiet_def mem_answers)
qed

lemma busy_ready: "t \<in> set busy_tasks \<Longrightarrow> ready 50 mem_view (mem_env 50) demo_spec still_busy t \<and> task_named t"
proof -
  have refs: "node_refs 50 demo_spec (mem_view w)" if "still_busy w" for w
    using that by (auto simp: node_refs_def Let_def demo_spec_parts mem_view_def still_busy_def demo_refs_def)
  have "valid_ingress demo_service" by (simp add: valid_ingress_def demo_service_def demo_service_cidr)
  then show "t \<in> set busy_tasks \<Longrightarrow> ready 50 mem_view (mem_env 50) demo_spec still_busy t \<and> task_named t"
    using refs
    by (auto simp: busy_tasks_def demo_spec_parts mem_env_def existing_def still_busy_def demo_service_def demo_node_def
      plain_service_def named_service_def named_node_def PodCIDRRepresentationPrefix_def PodCIDRRepresentationAggregate_def
      ServiceTypeLoadBalancer_def)
qed

lemma busy_room: "room_for demo_slug 50 busy_tasks (mem_view busy_world)"
proof -
  have same: "mem_view busy_world = mem_view stocked_world" by (simp add: busy_world_def live_world_def mem_view_def)
  have dev: "{i. \<exists>d. v_devices (mem_view stocked_world) i = Some d \<and> has_tag demo_slug d} = {2}"
    and vm: "{i. \<exists>d. v_vms (mem_view stocked_world) i = Some d \<and> has_tag demo_slug d} = {1}"
    by (auto simp: mem_view_def run_simps split: if_splits)
  have "managed device_kind demo_slug (mem_view stocked_world) = {2}" "managed vm_kind demo_slug (mem_view stocked_world) = {1}"
    by (simp_all add: managed_def device_kind_def vm_kind_def dev vm)
  moreover have "unique_ids device_kind demo_slug (mem_view stocked_world)" "unique_ids vm_kind demo_slug (mem_view stocked_world)"
    by (auto simp: unique_ids_def ids_for_def ext_of_def mem_view_def run_simps split: if_splits)
  ultimately show ?thesis
    by (simp add: room_for_def fits_def same stocked_unique busy_tasks_def wanted_addresses_def desired_addresses_def
      addresses_of_def desired_prefixes_def demo_service_def plain_service_def demo_node_def ServiceTypeLoadBalancer_def)
qed

theorem full_resync_converges_witness:
  "fst (run_all (mem_env 50) busy_tasks busy_world) = replicate (length busy_tasks) (Ok \<lparr>RequeueAfter = 60000000000\<rparr>) \<and>
   list_all (task_done demo_spec (mem_view (snd (run_all (mem_env 50) busy_tasks busy_world)))) busy_tasks"
proof -
  have "sorted_wrt apart busy_tasks" by (simp add: busy_tasks_def demo_service_def plain_service_def)
  from full_resync_converges[OF lawful_mem_env quiet_busy busy_start _ this, unfolded demo_slug_resolved demo_interval] busy_ready busy_room
  show ?thesis unfolding list_all_iff by blast
qed

end
