(* ===== verification/Call_Bounds.thy ===== *)
theory Call_Bounds
  imports Controller_Properties
begin

text \<open>
  How long a reconcile takes. The functions of the sources compute between external calls only;
  what may take time are the calls to NetBox and Kubernetes, each of which the clients bound by a
  timeout. A cost calculus in the manner of the triples counts the calls a run makes, on every
  path, and so bounds the time of each reconcile by a multiple of that timeout.
\<close>

section \<open>Time\<close>

text \<open>\<open>m\<close> is over after at most \<open>k\<close> steps of \<open>d\<close> on the clock, whatever it returns.\<close>

definition takes :: "('w \<Rightarrow> nat) \<Rightarrow> nat \<Rightarrow> nat \<Rightarrow> ('w, 'a) go \<Rightarrow> bool" where
  "takes clock d k m \<longleftrightarrow> (\<forall>w. clock (snd (m w)) \<le> clock w + k * d)"

text \<open>Every value \<open>m\<close> returns satisfies \<open>R\<close>.\<close>

definition gives :: "('a \<Rightarrow> bool) \<Rightarrow> ('w, 'a) go \<Rightarrow> bool" where
  "gives R m \<longleftrightarrow> (\<forall>w x w'. m w = (Ok x, w') \<longrightarrow> R x)"

named_theorems takes_rules \<open>the time of the combinators\<close>

lemma takes_le: "takes clock d a m \<Longrightarrow> a \<le> b \<Longrightarrow> takes clock d b m"
  unfolding takes_def by (meson add_left_mono le_trans mult_le_mono1)

lemma takes_ret [takes_rules]: "takes clock d 0 (ret x)"
  by (simp add: takes_def ret_def)

lemma takes_fail [takes_rules]: "takes clock d 0 (fail e)"
  by (simp add: takes_def fail_def)

lemma takes_deref [takes_rules]: "takes clock d 0 (deref p)"
  by (cases p) (simp_all add: takes_def ret_def panic_def)

text \<open>The time of a continuation may rest on what its argument is known to be.\<close>

lemma takes_if_err_gives:
  assumes m: "takes clock d a m" "gives R m" and h: "\<And>e. takes clock d b (h e)" and k: "\<And>x. R x \<Longrightarrow> takes clock d c (k x)"
  shows "takes clock d (a + max b c) (if_err m h k)"
  unfolding takes_def
proof
  fix w
  obtain out w' where run: "m w = (out, w')" by fastforce
  then have first: "clock w' \<le> clock w + a * d" using m(1) unfolding takes_def by (metis snd_conv)
  have "clock (snd (if_err m h k w)) \<le> clock w' + max b c * d"
  proof (cases out)
    case (Ok x)
    then have "R x" using m(2) run unfolding gives_def by blast
    from k[OF this] have "clock (snd (k x w')) \<le> clock w' + c * d" by (simp add: takes_def)
    also have "\<dots> \<le> clock w' + max b c * d" by (simp add: mult_le_mono1)
    finally show ?thesis using run Ok by (simp add: if_err_def)
  next
    case (Err e)
    have "clock (snd (h e w')) \<le> clock w' + b * d" using h by (simp add: takes_def)
    also have "\<dots> \<le> clock w' + max b c * d" by (simp add: mult_le_mono1)
    finally show ?thesis using run Err by (simp add: if_err_def)
  qed (use run in \<open>simp add: if_err_def\<close>)
  with first show "clock (snd (if_err m h k w)) \<le> clock w + (a + max b c) * d" by (simp add: add_mult_distrib)
qed

lemma gives_any: "gives (\<lambda>_. True) m"
  by (simp add: gives_def)

lemma takes_if_err [takes_rules]:
  "takes clock d a m \<Longrightarrow> (\<And>e. takes clock d b (h e)) \<Longrightarrow> (\<And>x. takes clock d c (k x)) \<Longrightarrow>
   takes clock d (a + max b c) (if_err m h k)"
  by (rule takes_if_err_gives[OF _ gives_any])

lemma takes_bind_gives:
  "takes clock d a m \<Longrightarrow> gives R m \<Longrightarrow> (\<And>x. R x \<Longrightarrow> takes clock d c (k x)) \<Longrightarrow> takes clock d (a + c) (bind m k)"
  unfolding bind_def by (rule takes_if_err_gives[where b = 0 and R = R, unfolded max_0L]) (assumption | rule takes_fail)+

lemma takes_bind [takes_rules]:
  "takes clock d a m \<Longrightarrow> (\<And>x. takes clock d c (k x)) \<Longrightarrow> takes clock d (a + c) (bind m k)"
  by (rule takes_bind_gives[OF _ gives_any])

lemma takes_wrap_err [takes_rules]: "takes clock d a m \<Longrightarrow> takes clock d a (wrap_err f m)"
  unfolding wrap_err_def by (rule takes_le[OF takes_if_err[OF _ takes_fail takes_ret]], assumption) simp

lemma takes_attempt [takes_rules]: "takes clock d a m \<Longrightarrow> takes clock d a (attempt m)"
  unfolding attempt_def by (rule takes_le[OF takes_if_err[OF _ takes_ret takes_ret]], assumption) simp

lemma takes_for_each:
  assumes "\<And>x. x \<in> set xs \<Longrightarrow> takes clock d a (f x)" and "length xs \<le> n"
  shows "takes clock d (n * a) (for_each xs f)"
proof -
  have "takes clock d (length xs * a) (for_each xs f)"
    using assms(1)
  proof (induction xs)
    case Nil
    show ?case by (simp add: takes_ret)
  next
    case (Cons x xs)
    have "takes clock d (a + length xs * a) (for_each (x # xs) f)"
      unfolding for_each.simps by (rule takes_bind) (use Cons in simp_all)
    then show ?case by simp
  qed
  then show ?thesis by (rule takes_le) (use assms(2) in simp)
qed

lemma takes_if [takes_rules]: "takes clock d a m \<Longrightarrow> takes clock d b n \<Longrightarrow> takes clock d (max a b) (if c then m else n)"
  by (simp add: takes_le[OF _ max.cobounded1] takes_le[OF _ max.cobounded2])

lemma takes_option [takes_rules]:
  "takes clock d a m \<Longrightarrow> (\<And>x. takes clock d b (n x)) \<Longrightarrow> takes clock d (max a b) (case p of None \<Rightarrow> m | Some x \<Rightarrow> n x)"
  by (cases p) (simp_all add: takes_le[OF _ max.cobounded1] takes_le[OF _ max.cobounded2])

lemma takes_sum [takes_rules]:
  "(\<And>e. takes clock d a (m e)) \<Longrightarrow> (\<And>x. takes clock d b (n x)) \<Longrightarrow> takes clock d (max a b) (case r of Inl e \<Rightarrow> m e | Inr x \<Rightarrow> n x)"
  by (cases r) (simp_all add: takes_le[OF _ max.cobounded1] takes_le[OF _ max.cobounded2])

lemma takes_prod [takes_rules]: "(\<And>a b. takes clock d k (f a b)) \<Longrightarrow> takes clock d k (case p of (a, b) \<Rightarrow> f a b)"
  by (cases p) simp

lemma gives_bind: "(\<And>x. gives R (k x)) \<Longrightarrow> gives R (bind m k)"
  unfolding gives_def by (blast elim: bind_OkE)

section \<open>The external calls\<close>

text \<open>No call takes longer than \<open>d\<close>, and no page of a listing has more than \<open>psize\<close> objects.\<close>

definition ep_takes :: "('w \<Rightarrow> nat) \<Rightarrow> nat \<Rightarrow> nat \<Rightarrow> ('o, 'e, 'w) endpoint \<Rightarrow> bool" where
  "ep_takes clock d psize ep \<longleftrightarrow> (\<forall>p. takes clock d 1 (ep_list ep p) \<and> gives (\<lambda>pg. length (pg_Results pg) \<le> psize) (ep_list ep p)) \<and>
     (\<forall>x. takes clock d 1 (ep_create ep x)) \<and> (\<forall>i x. takes clock d 1 (ep_update ep i x)) \<and> (\<forall>i. takes clock d 1 (ep_delete ep i))"

definition api_takes :: "('w \<Rightarrow> nat) \<Rightarrow> nat \<Rightarrow> nat \<Rightarrow> 'w netbox_api \<Rightarrow> bool" where
  "api_takes clock d psize api \<longleftrightarrow> takes clock d 1 (StatusList api) \<and> (\<forall>p. takes clock d 1 (ExtrasTagsList api p)) \<and>
     (\<forall>x. takes clock d 1 (ExtrasTagsCreate api x)) \<and> (\<forall>p. takes clock d 1 (ExtrasCustomFieldsList api p)) \<and>
     (\<forall>x. takes clock d 1 (ExtrasCustomFieldsCreate api x)) \<and> (\<forall>p. takes clock d 1 (DcimSitesList api p)) \<and>
     (\<forall>p. takes clock d 1 (VirtualizationClusterTypesList api p)) \<and> (\<forall>p. takes clock d 1 (VirtualizationClusterGroupsList api p)) \<and>
     (\<forall>p. takes clock d 1 (DcimDeviceRolesList api p)) \<and> (\<forall>p. takes clock d 1 (DcimDeviceTypesList api p)) \<and>
     (\<forall>p. takes clock d 1 (IpamRirsList api p)) \<and> (\<forall>p. takes clock d 1 (DcimPlatformsList api p)) \<and>
     ep_takes clock d psize (VirtualizationClusters api) \<and> ep_takes clock d psize (DcimDevices api) \<and>
     ep_takes clock d psize (VirtualizationVirtualMachines api) \<and> ep_takes clock d psize (IpamIPAddresses api) \<and>
     ep_takes clock d psize (IpamPrefixes api) \<and> ep_takes clock d psize (IpamAggregates api)"

lemma ep_takesD:
  assumes "ep_takes clock d psize ep"
  shows "takes clock d 1 (ep_list ep p)" and "takes clock d 1 (ep_create ep x)" and "takes clock d 1 (ep_update ep i x)"
    and "takes clock d 1 (ep_delete ep i)" and "gives (\<lambda>pg. length (pg_Results pg) \<le> psize) (ep_list ep p)"
  using assms by (simp_all add: ep_takes_def)

lemma api_takesD:
  assumes "api_takes clock d psize api"
  shows "takes clock d 1 (StatusList api)" and "takes clock d 1 (ExtrasTagsList api p)" and "takes clock d 1 (ExtrasTagsCreate api td)"
    and "takes clock d 1 (ExtrasCustomFieldsList api p)" and "takes clock d 1 (ExtrasCustomFieldsCreate api cd)"
    and "takes clock d 1 (DcimSitesList api p)" and "takes clock d 1 (VirtualizationClusterTypesList api p)"
    and "takes clock d 1 (VirtualizationClusterGroupsList api p)" and "takes clock d 1 (DcimDeviceRolesList api p)"
    and "takes clock d 1 (DcimDeviceTypesList api p)" and "takes clock d 1 (IpamRirsList api p)" and "takes clock d 1 (DcimPlatformsList api p)"
  using assms by (simp_all add: api_takes_def)

lemma api_eps:
  assumes "api_takes clock d psize api"
  shows "ep_takes clock d psize (VirtualizationClusters api)" and "ep_takes clock d psize (DcimDevices api)"
    and "ep_takes clock d psize (VirtualizationVirtualMachines api)" and "ep_takes clock d psize (IpamIPAddresses api)"
    and "ep_takes clock d psize (IpamPrefixes api)" and "ep_takes clock d psize (IpamAggregates api)"
  using assms by (simp_all add: api_takes_def)

section \<open>The package\<close>

context managed_finder
begin

lemma find_takes: "ep_takes clock d psize (ep client) \<Longrightarrow> takes clock d 1 (find_ext client slug x)"
  unfolding find_eq by (rule takes_le, (rule takes_rules ep_takesD(1) | assumption)+) simp

end

context managed_ensure
begin

lemma ensure_takes:
  assumes "ep_takes clock d psize (ep client)" and "takes clock d k (prepare client spec)"
  shows "takes clock d (k + 2) (ensure client spec)"
  unfolding ensure_eq
  by (rule takes_le, (rule takes_rules find_takes[OF assms(1)] assms(2) ep_takesD[OF assms(1)])+) simp

end

context managed_delete
begin

lemma delete_ext_takes: "ep_takes clock d psize (ep client) \<Longrightarrow> takes clock d 2 (delete_ext client slug x)"
  unfolding delete_ext_eq by (rule takes_le, (rule takes_rules find_takes ep_takesD(4) | assumption)+) simp

end

context managed_by_id
begin

lemma delete_id_takes: "ep_takes clock d psize (ep client) \<Longrightarrow> takes clock d 1 (delete_id client i)"
  unfolding delete_id_eq by (rule takes_le, (rule takes_rules ep_takesD(4) | assumption)+) simp

end

context managed_named
begin

lemma delete_name_takes: "ep_takes clock d psize (ep client) \<Longrightarrow> takes clock d 2 (delete_name client slug n)"
  unfolding delete_name_eq by (rule takes_le, (rule takes_rules ep_takesD(1) delete_id_takes | assumption)+) simp

end

context managed_count
begin

lemma count_takes: "ep_takes clock d psize (ep client) \<Longrightarrow> takes clock d 1 (count client slug)"
  unfolding count_eq by (rule takes_le, (rule takes_rules ep_takesD(1) | assumption)+) simp

end

context managed_owner
begin

lemma list_owned_takes: "ep_takes clock d psize (ep client) \<Longrightarrow> takes clock d 1 (list_owned client slug k)"
  unfolding list_owned_eq by (rule takes_le, (rule takes_rules ep_takesD(1) | assumption)+) simp

lemma list_owned_gives:
  assumes "ep_takes clock d psize (ep client)"
  shows "gives (\<lambda>owned. length owned \<le> psize) (list_owned client slug k)"
  using ep_takesD(5)[OF assms] unfolding list_owned_eq gives_def
  by (fastforce elim!: bind_OkE wrap_err_OkE ret_OkE intro: le_trans[OF length_filter_le])

lemma delete_owned_takes:
  assumes "ep_takes clock d psize (ep client)"
  shows "takes clock d (psize + 1) (delete_owned client slug k)"
  unfolding delete_owned_eq
  by (rule takes_le, rule takes_bind_gives[OF list_owned_takes[OF assms] list_owned_gives[OF assms]],
      rule takes_for_each[OF delete_id_takes[OF assms]], assumption) simp

lemma prune_takes:
  assumes "ep_takes clock d psize (ep client)"
  shows "takes clock d (psize + 1) (bind (list_owned client slug k) (\<lambda>owned. for_each owned (\<lambda>ob.
       bind (assertExternalID (ob_CustomFields ob)) (\<lambda>x.
       if x \<in> set desired then ret () else delete_id client (ob_ID ob)))))"
proof -
  have assert: "takes clock d 0 (assertExternalID cf)" for cf
    unfolding assertExternalID_def by (auto simp: takes_def panic_def ret_def deref_def split: option.split)
  have body: "takes clock d 1 (bind (assertExternalID cf) (\<lambda>x. if x \<in> set desired then ret () else delete_id client i))" for cf i
    by (rule takes_le, (rule takes_rules assert delete_id_takes[OF assms])+) simp
  show ?thesis
    by (rule takes_le, rule takes_bind_gives[OF list_owned_takes[OF assms] list_owned_gives[OF assms]],
        rule takes_for_each[OF body], assumption) simp
qed

end

lemma EnsureManagedTag_takes: "api_takes clock d psize api \<Longrightarrow> takes clock d 2 (EnsureManagedTag api slug)"
  unfolding EnsureManagedTag_def by (rule takes_le, (rule takes_rules api_takesD | assumption)+) simp

lemma EnsureExternalIDCustomField_takes: "api_takes clock d psize api \<Longrightarrow> takes clock d 2 (EnsureExternalIDCustomField api)"
  unfolding EnsureExternalIDCustomField_def Let_def by (rule takes_le, (rule takes_rules api_takesD | assumption)+) simp

context ensure_and_prune
begin

lemma sync_takes:
  assumes "api_takes clock d psize client" and "ep_takes clock d psize (ep client)"
    and "\<And>tag :: tag. takes clock d k (ensure_desired client tag s)"
  shows "takes clock d (k + psize + 3) (sync client slug s)"
  unfolding sync_eq
  by (rule takes_le, rule takes_bind[OF EnsureManagedTag_takes[OF assms(1)]], rule takes_bind[OF assms(3)],
      rule prune_takes[OF assms(2)]) simp

end

context name_lookup
begin

lemma lookup_takes: "(\<And>p. takes clock d 1 (lst client p)) \<Longrightarrow> takes clock d 1 (lookup client n)"
  unfolding lookup_eq by (rule takes_le, (rule takes_rules | assumption)+) simp

end

section \<open>Each function of the package\<close>

lemma cluster_takes:
  assumes "api_takes clock d psize api"
  shows "takes clock d 5 (EnsureCluster api spec)" and "takes clock d 2 (DeleteCluster api slug x)"
proof -
  note look = cluster_type.lookup_takes[OF api_takesD(7)[OF assms]] cluster_group.lookup_takes[OF api_takesD(8)[OF assms]]
    site.lookup_takes[OF api_takesD(6)[OF assms]]
  have "takes clock d 3 (cluster_data api spec)"
    unfolding cluster_data_def Let_def by (rule takes_le, (rule takes_rules look)+) simp
  from cluster.ensure_takes[OF api_eps(1)[OF assms] this] show "takes clock d 5 (EnsureCluster api spec)" by simp
  show "takes clock d 2 (DeleteCluster api slug x)" by (rule cluster_delete.delete_ext_takes[OF api_eps(1)[OF assms]])
qed

lemma device_takes:
  assumes "api_takes clock d psize api"
  shows "takes clock d 5 (EnsureDevice api spec)" and "takes clock d 2 (DeleteDeviceByExternalID api slug x)"
    and "takes clock d 2 (DeleteDeviceByName api slug x)" and "takes clock d 1 (CountManagedDevices api slug)"
proof -
  note look = device_model.lookup_takes[OF api_takesD(10)[OF assms]] device_role.lookup_takes[OF api_takesD(9)[OF assms]]
    site.lookup_takes[OF api_takesD(6)[OF assms]]
  note ep = api_eps(2)[OF assms]
  have "takes clock d 3 (device_data api spec)"
    unfolding device_data_def by (rule takes_le, (rule takes_rules look)+) simp
  from device.ensure_takes[OF ep this] show "takes clock d 5 (EnsureDevice api spec)" by simp
  show "takes clock d 2 (DeleteDeviceByExternalID api slug x)" by (rule device_delete.delete_ext_takes[OF ep])
  show "takes clock d 2 (DeleteDeviceByName api slug x)" by (rule device_name.delete_name_takes[OF ep])
  show "takes clock d 1 (CountManagedDevices api slug)" by (rule device_count.count_takes[OF ep])
qed

lemma vm_takes:
  assumes "api_takes clock d psize api"
  shows "takes clock d 4 (EnsureVirtualMachine api spec)" and "takes clock d 2 (DeleteVirtualMachineByExternalID api slug x)"
    and "takes clock d 2 (DeleteVirtualMachineByName api slug x)" and "takes clock d 1 (CountManagedVirtualMachines api slug)"
proof -
  note look = cluster_name.lookup_takes[OF ep_takesD(1)[OF api_eps(1)[OF assms]]] platform.lookup_takes[OF api_takesD(12)[OF assms]]
  note ep = api_eps(3)[OF assms]
  have "takes clock d 2 (vm_data api spec)"
    unfolding vm_data_def Let_def by (rule takes_le, (rule takes_rules look)+) simp
  from vm.ensure_takes[OF ep this] show "takes clock d 4 (EnsureVirtualMachine api spec)" by simp
  show "takes clock d 2 (DeleteVirtualMachineByExternalID api slug x)" by (rule vm_delete.delete_ext_takes[OF ep])
  show "takes clock d 2 (DeleteVirtualMachineByName api slug x)" by (rule vm_name.delete_name_takes[OF ep])
  show "takes clock d 1 (CountManagedVirtualMachines api slug)" by (rule vm_count.count_takes[OF ep])
qed

lemma ensure_addresses_takes:
  assumes "api_takes clock d psize api"
  shows "takes clock d (2 * length ips) (ensure_addresses api t svc ips)"
proof (induction ips)
  case Nil
  show ?case by (simp add: takes_ret)
next
  case (Cons ip ips)
  have "takes clock d 2 (EnsureServiceIP api spec)" for spec
    by (rule takes_le[OF ip.ensure_takes[OF api_eps(4)[OF assms] takes_ret]]) simp
  then show ?case
    unfolding ensure_addresses.simps Let_def
    by (intro takes_le[OF takes_if[OF takes_le[OF Cons] takes_sum[OF takes_fail takes_bind[OF _ takes_bind[OF Cons takes_ret]]]]])
      auto
qed

lemma service_takes:
  assumes "api_takes clock d psize api"
  shows "length (svc_Ingress svc) \<le> m \<Longrightarrow> takes clock d (2 * m + psize + 3) (syncServiceAddresses api slug svc)"
    and "takes clock d (psize + 1) (DeleteServiceIPs api slug ns n)" and "takes clock d 1 (CountManagedServiceIPs api slug)"
proof -
  note ep = api_eps(4)[OF assms]
  show "takes clock d (2 * m + psize + 3) (syncServiceAddresses api slug svc)" if "length (svc_Ingress svc) \<le> m"
    by (rule takes_le[OF service_sync.sync_takes[OF assms ep ensure_addresses_takes[OF assms]]]) (use that in simp)
  show "takes clock d (psize + 1) (DeleteServiceIPs api slug ns n)"
    using ip_owner.delete_owned_takes[OF ep, of slug "(ns, n)"] by simp
  show "takes clock d 1 (CountManagedServiceIPs api slug)" by (rule ip_count.count_takes[OF ep])
qed

lemma ensure_prefixes_takes:
  assumes "api_takes clock d psize api"
  shows "takes clock d (2 * length cidrs) (ensure_prefixes api t node cidrs)"
proof (induction cidrs)
  case Nil
  show ?case by (simp add: takes_ret)
next
  case (Cons cidr cidrs)
  have "takes clock d 2 (EnsurePodCIDRPrefix api spec)" for spec
    by (rule takes_le[OF pfx.ensure_takes[OF api_eps(5)[OF assms] takes_ret]]) simp
  then show ?case
    unfolding ensure_prefixes.simps Let_def
    by (intro takes_le[OF takes_bind[OF _ takes_bind[OF Cons takes_ret]]]) auto
qed

lemma podcidr_takes:
  assumes "api_takes clock d psize api"
  shows "length (nod_PodCIDRs node) \<le> m \<Longrightarrow> takes clock d (2 * m + psize + 3) (syncNodePrefixes api slug node)"
    and "takes clock d (psize + 1) (DeleteNodePodCIDRPrefixes api slug n)" and "takes clock d 1 (CountManagedPrefixes api slug)"
    and "takes clock d 3 (EnsurePodCIDRAggregate api spec)" and "takes clock d 2 (DeletePodCIDRAggregate api slug x)"
    and "takes clock d 1 (CountManagedAggregates api slug)"
proof -
  note ep = api_eps(5)[OF assms] and ag = api_eps(6)[OF assms]
  show "takes clock d (2 * m + psize + 3) (syncNodePrefixes api slug node)" if "length (nod_PodCIDRs node) \<le> m"
    by (rule takes_le[OF prefix_sync.sync_takes[OF assms ep ensure_prefixes_takes[OF assms]]]) (use that in simp)
  show "takes clock d (psize + 1) (DeleteNodePodCIDRPrefixes api slug n)" by (rule pfx_owner.delete_owned_takes[OF ep])
  show "takes clock d 1 (CountManagedPrefixes api slug)" by (rule pfx_count.count_takes[OF ep])
  have "takes clock d 1 (aggregate_data api spec)"
    unfolding aggregate_data_def by (rule takes_le, (rule takes_rules rir.lookup_takes[OF api_takesD(11)[OF assms]])+) simp
  from takes_le[OF agg.ensure_takes[OF ag this]] show "takes clock d 3 (EnsurePodCIDRAggregate api spec)" by simp
  show "takes clock d 2 (DeletePodCIDRAggregate api slug x)" by (rule agg_delete.delete_ext_takes[OF ag])
  show "takes clock d 1 (CountManagedAggregates api slug)" by (rule agg_count.count_takes[OF ag])
qed

section \<open>The reconcilers\<close>

text \<open>
  No call to Kubernetes takes longer than \<open>d\<close>, a Service has at most \<open>m\<close> ingress points, a Node at
  most \<open>m\<close> pod CIDRs, the cluster at most \<open>n\<close> Nodes, and a write to the store takes no time.
\<close>

definition env_takes :: "('x world_scheme \<Rightarrow> nat) \<Rightarrow> nat \<Rightarrow> nat \<Rightarrow> nat \<Rightarrow> nat \<Rightarrow> ('x, 'v) env \<Rightarrow> bool" where
  "env_takes clock d psize m n env \<longleftrightarrow> (\<forall>i. takes clock d 1 (GetHeraldConfig env i)) \<and>
     (\<forall>ns i. takes clock d 1 (GetSecret env ns i)) \<and> (\<forall>i. takes clock d 1 (GetNamespace env i)) \<and>
     (\<forall>i. takes clock d 1 (GetNode env i) \<and> gives (\<lambda>nod. length (nod_PodCIDRs nod) \<le> m) (GetNode env i)) \<and>
     (\<forall>ns i. takes clock d 1 (GetService env ns i) \<and> gives (\<lambda>svc. length (svc_Ingress svc) \<le> m) (GetService env ns i)) \<and>
     takes clock d 1 (ListNodes env) \<and> gives (\<lambda>ns. length ns \<le> n) (ListNodes env) \<and>
     (\<forall>cr. takes clock d 1 (UpdateStatus env cr)) \<and> (\<forall>cs c. takes clock d 1 (SetStatusCondition env cs c)) \<and>
     takes clock d 1 (Now env) \<and> (\<forall>c. api_takes clock d psize (Netbox env c)) \<and>
     (\<forall>w st. clock (w\<lparr>w_store := st\<rparr>) = clock w)"

lemma env_takesD:
  assumes "env_takes clock d psize m n env"
  shows "takes clock d 1 (GetHeraldConfig env i)" and "takes clock d 1 (GetSecret env ns i)" and "takes clock d 1 (GetNamespace env i)"
    and "takes clock d 1 (GetNode env i)" and "takes clock d 1 (GetService env ns i)" and "takes clock d 1 (ListNodes env)"
    and "takes clock d 1 (UpdateStatus env cr)" and "takes clock d 1 (SetStatusCondition env cs c)" and "takes clock d 1 (Now env)"
  using assms by (simp_all add: env_takes_def)

lemma env_gives:
  assumes "env_takes clock d psize m n env"
  shows "gives (\<lambda>nod. length (nod_PodCIDRs nod) \<le> m) (GetNode env i)" and "gives (\<lambda>svc. length (svc_Ingress svc) \<le> m) (GetService env ns i)"
    and "gives (\<lambda>ns. length ns \<le> n) (ListNodes env)"
  using assms by (simp_all add: env_takes_def)

lemma env_api: "env_takes clock d psize m n env \<Longrightarrow> api_takes clock d psize (Netbox env c)"
  by (simp add: env_takes_def)

lemma store_takes:
  assumes "env_takes clock d psize m n env"
  shows "takes clock d 0 (StoreSet sp c)" and "takes clock d 0 (StoreDecoded spec)" and "takes clock d 0 StoreGet"
  using assms by (simp_all add: env_takes_def takes_def StoreSet_def StoreDecoded_def StoreGet_def)

lemma LoadConfig_takes:
  assumes "env_takes clock d psize m n env"
  shows "takes clock d 2 (LoadConfig (GetSecret env) ns spec)"
proof -
  have key: "takes clock d 1 (secretKey (GetSecret env) ns r)" for r
    unfolding secretKey_def Let_def by (rule takes_le, (rule takes_rules env_takesD(2)[OF assms])+) simp
  show ?thesis unfolding LoadConfig_def Let_def by (rule takes_le, (rule takes_rules key)+) simp
qed

lemma CheckVersion_takes: "api_takes clock d psize api \<Longrightarrow> takes clock d 1 (CheckVersion lib api)"
  unfolding CheckVersion_def by (rule takes_le, (rule takes_rules | erule api_takesD)+) simp

lemma Client_takes: "takes clock d 0 (Client lib cfg)"
  by (simp add: takes_def Client_pure)

lemma reconcileHeraldConfig_takes:
  assumes env: "env_takes clock d psize m n env"
  shows "takes clock d 12 (reconcileHeraldConfig env req)"
proof -
  note ext = env_takesD[OF env] store_takes[OF env]
  have bad: "takes clock d 4 (reportUnreachable env cr cause)" for cr cause
    unfolding reportUnreachable_def Let_def by (rule takes_le, (rule takes_rules ext)+) simp
  have good: "takes clock d 4 (reportConnected env cr version)" for cr version
    unfolding reportConnected_def Let_def by (rule takes_le, (rule takes_rules ext)+) simp
  note ops = EnsureManagedTag_takes[OF env_api[OF env]] EnsureExternalIDCustomField_takes[OF env_api[OF env]]
    CheckVersion_takes[OF env_api[OF env]] LoadConfig_takes[OF env] Client_takes
  show ?thesis
    unfolding reconcileHeraldConfig_def Let_def by (rule takes_le, (rule takes_rules bad good ops ext)+) simp
qed

lemma reconcileCluster_takes:
  assumes env: "env_takes clock d psize m n env"
  shows "takes clock d 11 (reconcileCluster env req)"
proof -
  note ext = env_takesD[OF env] store_takes[OF env]
  have bad: "takes clock d 1 (reportClusterSyncError env cr cause)" for cr cause
    unfolding reportClusterSyncError_def Let_def by (rule takes_le, (rule takes_rules ext)+) simp
  have good: "takes clock d 1 (updateClusterStatus env cr status)" for cr status
    unfolding updateClusterStatus_def by (rule takes_le, (rule takes_rules ext)+) simp
  note ops = EnsureManagedTag_takes[OF env_api[OF env]] cluster_takes[OF env_api[OF env]]
  show ?thesis
    unfolding reconcileCluster_def Let_def by (rule takes_le, (rule takes_rules bad good ops ext)+) simp
qed

lemma sync_status_takes: "env_takes clock d psize m n env \<Longrightarrow> takes clock d 1 (sync_status env enabled g count err)"
  unfolding sync_status_def Let_def by (rule takes_le, (rule takes_rules | erule env_takesD)+) simp

lemma status_takes:
  assumes env: "env_takes clock d psize m n env"
  shows "takes clock d 4 (syncNodesStatus env slug spec err)" and "takes clock d 4 (syncServicesStatus env slug spec err)"
    and "takes clock d 4 (syncPodCIDRStatus env slug spec err)"
proof -
  note ext = env_takesD[OF env] store_takes[OF env] sync_status_takes[OF env]
  note api = env_api[OF env]
  note counts = device_takes(4)[OF api] vm_takes(4)[OF api] service_takes(3)[OF api] podcidr_takes(3,6)[OF api]
  show "takes clock d 4 (syncNodesStatus env slug spec err)"
    unfolding syncNodesStatus_def Let_def by (rule takes_le, (rule takes_rules counts ext)+) simp
  show "takes clock d 4 (syncServicesStatus env slug spec err)"
    unfolding syncServicesStatus_def by (rule takes_le, (rule takes_rules counts ext)+) simp
  show "takes clock d 4 (syncPodCIDRStatus env slug spec err)"
    unfolding syncPodCIDRStatus_def Let_def by (rule takes_le, (rule takes_rules counts ext)+) simp
qed

lemma reconcileNode_takes:
  assumes env: "env_takes clock d psize m n env"
  shows "takes clock d 12 (reconcileNode env req)"
proof -
  note ext = env_takesD[OF env] store_takes[OF env]
  note api = env_api[OF env]
  have "takes clock d 5 (ensureNode (Netbox env c) spec nod t)" for c spec nod t
    unfolding ensureNode_def Let_def by (rule takes_le, (rule takes_rules device_takes(1)[OF api] vm_takes(1)[OF api])+) simp
  note ops = this EnsureManagedTag_takes[OF api] device_takes[OF api] vm_takes[OF api] status_takes(1)[OF env]
  show ?thesis
    unfolding reconcileNode_def deleteNodeByName_def deleteNodeByExternalID_def Let_def
    by (rule takes_le, (rule takes_rules ops ext)+) simp
qed

lemma reconcileService_takes:
  assumes env: "env_takes clock d psize m n env"
  shows "takes clock d (2 * m + psize + 8) (reconcileService env req)"
proof -
  note ext = env_takesD[OF env] store_takes[OF env]
  note ops = service_takes[OF env_api[OF env]] status_takes(2)[OF env]
  show ?thesis
    unfolding reconcileService_def Let_def
    by (rule takes_le, (rule takes_if_err_gives[OF env_takesD(5)[OF env] env_gives(2)[OF env]]
        takes_rules ops ext | assumption)+) (simp add: max_def)
qed

text \<open>The two families are a loop of two rounds; the Nodes of an aggregate sync one of \<open>n\<close>.\<close>

lemma families_takes:
  assumes "\<And>family. takes clock d k (f family)"
  shows "takes clock d (2 * k) (for_each podCIDRAddressFamilies f)"
  by (rule takes_for_each[OF assms]) (simp add: podCIDRAddressFamilies_def)

lemma syncAggregates_takes:
  assumes env: "env_takes clock d psize m n env"
  shows "takes clock d (n * (psize + 1) + 9) (syncAggregates env (Netbox env c) slug spec)"
proof -
  note api = env_api[OF env]
  have loop: "length nodes \<le> n \<Longrightarrow> takes clock d (n * (psize + 1)) (for_each nodes (\<lambda>node.
      DeleteNodePodCIDRPrefixes (Netbox env c) slug (nod_Name node)))" for nodes
    by (rule takes_for_each[OF podcidr_takes(2)[OF api]])
  have "takes clock d 3 (sync_aggregate (Netbox env c) slug rir t supernets family)" for rir t supernets family
    unfolding sync_aggregate_def Let_def by (rule takes_le, (rule takes_rules podcidr_takes[OF api])+) simp
  note sync = families_takes[OF this]
  have list: "takes clock d 1 (wrap_err f (ListNodes env))" for f
    by (rule takes_wrap_err[OF env_takesD(6)[OF env]])
  have nodes: "gives (\<lambda>nodes. length nodes \<le> n) (wrap_err f (ListNodes env))" for f
    using env_gives(3)[OF env] by (auto simp: gives_def elim!: wrap_err_OkE)
  show ?thesis
    unfolding syncAggregates_def Let_def
    by (rule takes_le, (rule takes_bind_gives[OF list nodes] takes_rules loop sync families_takes
        podcidr_takes(5)[OF api] EnsureManagedTag_takes[OF api] | assumption)+) simp
qed

lemma reconcilePodCIDR_takes:
  assumes env: "env_takes clock d psize m n env"
  shows "takes clock d (max (2 * m + psize + 12) (n * (psize + 1) + 13)) (reconcilePodCIDR env req)"
proof -
  note ext = env_takesD[OF env] store_takes[OF env]
  note api = env_api[OF env]
  note ops = podcidr_takes[OF api] status_takes(3)[OF env]
  have stale: "takes clock d 4 (deleteStalePodCIDRAggregates (Netbox env c) slug)" for c slug
    unfolding deleteStalePodCIDRAggregates_def by (rule takes_le[OF families_takes[OF podcidr_takes(5)[OF api]]]) simp
  have aggregates: "takes clock d (n * (psize + 1) + 13) (reconcileAggregates env (Netbox env c) slug i spec)" for c slug i spec
    unfolding reconcileAggregates_def
    by (rule takes_le, (rule takes_rules syncAggregates_takes[OF env] ops)+) simp
  have prefixes: "takes clock d (2 * m + psize + 12) (reconcilePrefixForNode env req (Netbox env c) slug i spec)" for c slug i spec
    unfolding reconcilePrefixForNode_def Let_def
    by (rule takes_le, (rule takes_if_err_gives[OF env_takesD(4)[OF env] env_gives(1)[OF env]]
        takes_rules stale ops ext | assumption)+) (simp add: max_def)
  show ?thesis
    unfolding reconcilePodCIDR_def Let_def
    by (rule takes_le, (rule takes_rules aggregates prefixes ext)+) simp
qed

text \<open>The most calls a reconcile of each kind makes.\<close>

fun call_bound :: "nat \<Rightarrow> nat \<Rightarrow> nat \<Rightarrow> reconciler \<Rightarrow> nat" where
  "call_bound psize m n HeraldConfigReconciler = 12"
| "call_bound psize m n ClusterReconciler = 11"
| "call_bound psize m n NodeReconciler = 12"
| "call_bound psize m n ServiceReconciler = 2 * m + psize + 8"
| "call_bound psize m n PodCIDRReconciler = max (2 * m + psize + 12) (n * (psize + 1) + 13)"

lemma reconcile_takes: "env_takes clock d psize m n env \<Longrightarrow> takes clock d (call_bound psize m n r) (reconcile r env req)"
  by (cases r) (simp_all only: reconcile.simps call_bound.simps reconcileHeraldConfig_takes reconcileCluster_takes
      reconcileNode_takes reconcileService_takes reconcilePodCIDR_takes)

section \<open>A world with a clock\<close>

text \<open>
  The NetBox and Kubernetes in memory, each call one tick of the clock. The cluster's objects are
  cut to the sizes the bound is stated for.
\<close>

definition tick :: "(memory, 'a) go \<Rightarrow> (memory, 'a) go" where
  "tick m = (\<lambda>w. let (out, w') = m w in (out, w'\<lparr>k_now := k_now w + 1\<rparr>))"

definition tick_ep :: "('o, 'e, memory) endpoint \<Rightarrow> ('o, 'e, memory) endpoint" where
  "tick_ep ep = \<lparr>ep_list = (\<lambda>p. tick (ep_list ep p)), ep_create = (\<lambda>x. tick (ep_create ep x)),
     ep_update = (\<lambda>i x. tick (ep_update ep i x)), ep_delete = (\<lambda>i. tick (ep_delete ep i))\<rparr>"

definition tick_api :: "memory netbox_api \<Rightarrow> memory netbox_api" where
  "tick_api api =
     \<lparr>StatusList = tick (StatusList api), ExtrasTagsList = (\<lambda>p. tick (ExtrasTagsList api p)),
      ExtrasTagsCreate = (\<lambda>x. tick (ExtrasTagsCreate api x)), ExtrasCustomFieldsList = (\<lambda>p. tick (ExtrasCustomFieldsList api p)),
      ExtrasCustomFieldsCreate = (\<lambda>x. tick (ExtrasCustomFieldsCreate api x)), DcimSitesList = (\<lambda>p. tick (DcimSitesList api p)),
      VirtualizationClusterTypesList = (\<lambda>p. tick (VirtualizationClusterTypesList api p)),
      VirtualizationClusterGroupsList = (\<lambda>p. tick (VirtualizationClusterGroupsList api p)),
      DcimDeviceRolesList = (\<lambda>p. tick (DcimDeviceRolesList api p)), DcimDeviceTypesList = (\<lambda>p. tick (DcimDeviceTypesList api p)),
      IpamRirsList = (\<lambda>p. tick (IpamRirsList api p)), DcimPlatformsList = (\<lambda>p. tick (DcimPlatformsList api p)),
      VirtualizationClusters = tick_ep (VirtualizationClusters api), DcimDevices = tick_ep (DcimDevices api),
      VirtualizationVirtualMachines = tick_ep (VirtualizationVirtualMachines api),
      IpamIPAddresses = tick_ep (IpamIPAddresses api), IpamPrefixes = tick_ep (IpamPrefixes api),
      IpamAggregates = tick_ep (IpamAggregates api)\<rparr>"

definition tick_env :: "nat \<Rightarrow> nat \<Rightarrow> mem_env \<Rightarrow> mem_env" where
  "tick_env m n env = env
     \<lparr>GetHeraldConfig := (\<lambda>i. tick (GetHeraldConfig env i)), GetSecret := (\<lambda>ns i. tick (GetSecret env ns i)),
      GetNamespace := (\<lambda>i. tick (GetNamespace env i)),
      GetNode := (\<lambda>i. tick (bind (GetNode env i) (\<lambda>nod. ret (nod\<lparr>nod_PodCIDRs := take m (nod_PodCIDRs nod)\<rparr>)))),
      GetService := (\<lambda>ns i. tick (bind (GetService env ns i) (\<lambda>svc. ret (svc\<lparr>svc_Ingress := take m (svc_Ingress svc)\<rparr>)))),
      ListNodes := tick (bind (ListNodes env) (\<lambda>nods. ret (take n nods))), ListServices := tick (ListServices env),
      UpdateStatus := (\<lambda>cr. tick (UpdateStatus env cr)), SetStatusCondition := (\<lambda>cs c. tick (SetStatusCondition env cs c)),
      Now := tick (Now env), Netbox := (\<lambda>c. tick_api (Netbox env c))\<rparr>"

abbreviation ticks :: "memory \<Rightarrow> nat" where
  "ticks w \<equiv> nat (k_now w)"

lemma takes_tick: "takes ticks 1 1 (tick m)"
proof -
  have "nat (t + 1) \<le> nat t + 1" for t by linarith
  then show ?thesis by (simp add: takes_def tick_def Let_def split_beta)
qed

lemma gives_tick: "gives R m \<Longrightarrow> gives R (tick m)"
  unfolding gives_def tick_def Let_def split_beta by (metis fst_conv prod.collapse)

lemma gives_ret: "R x \<Longrightarrow> gives R (ret x)"
  by (simp add: gives_def ret_def)

lemma tick_ep_takes:
  "(\<And>p. gives (\<lambda>pg. length (pg_Results pg) \<le> psize) (ep_list ep p)) \<Longrightarrow> ep_takes ticks 1 psize (tick_ep ep)"
  by (simp add: ep_takes_def tick_ep_def takes_tick gives_tick del: One_nat_def)

lemma mem_page: "gives (\<lambda>pg. length (pg_Results pg) \<le> psize) (ep_list (mem_ep psize K display get upd) p)"
  by (auto simp: gives_def mem_ep_def mem_list_def Let_def page_size_def split: option.splits)

lemma tick_api_takes: "api_takes ticks 1 psize (tick_api (mem_api psize))"
  by (simp add: api_takes_def tick_api_def mem_api_def takes_tick tick_ep_takes mem_page del: One_nat_def)

lemma tick_env_takes: "env_takes ticks 1 psize m n (tick_env m n (mem_env psize))"
  unfolding env_takes_def
  by (intro conjI allI) (simp_all add: tick_env_def takes_tick gives_tick gives_bind gives_ret mem_env_def tick_api_takes del: One_nat_def)

section \<open>Every reconcile is over in bounded time\<close>

text \<open>C16:
  A reconcile returns, and in time that its kind and the sizes of its objects bound: if no call to
  NetBox or Kubernetes takes longer than \<open>d\<close> (the request timeout), a NetBox page has at most
  \<open>psize\<close> objects, a Service has at most \<open>m\<close> ingress points and a Node at most \<open>m\<close> pod CIDRs, and the
  cluster has at most \<open>n\<close> Nodes, then whatever the calls answer, errors and panics included, a
  reconcile of HeraldConfig or of a Node is over within \<open>12 * d\<close>, one of the Cluster within
  \<open>11 * d\<close>, one of a Service within \<open>(2 * m + psize + 8) * d\<close>, one of the pod CIDRs of a Node within
  \<open>(2 * m + psize + 12) * d\<close>, and one of the aggregates within \<open>(n * (psize + 1) + 13) * d\<close>: no path
  through the code loops on an answer, and none retries.
\<close>

theorem reconcile_terminates:
  assumes "env_takes clock d psize m n env"
  shows "clock (snd (reconcile r env req w)) \<le> clock w + call_bound psize m n r * d"
  using reconcile_takes[OF assms] by (simp add: takes_def)

theorem reconcile_terminates_witness:
  "ticks (snd (reconcile PodCIDRReconciler (tick_env 3 5 (mem_env 50)) \<lparr>rq_Namespace = [], rq_Name = ''node-1''\<rparr> live_world)) \<le> 268"
  using reconcile_terminates[OF tick_env_takes[of 50 3 5], where r = PodCIDRReconciler and w = live_world]
  by (simp add: live_world_def stocked_world_def demo_world_def)

end
