(* ===== verification/Package_Init.thy ===== *)
theory Package_Init
  imports NetBox_Config
begin

text \<open>
  What the packages do before \<open>main\<close>: \<open>groupversion_info.go\<close> and the \<open>init\<close> functions of
  \<open>heraldconfig_types.go\<close>, \<open>version.go\<close> and \<open>cmd/main.go\<close>. They register the Go types of the custom
  resource in the scheme the manager decodes objects with. The schemes and scheme builders of
  apimachinery are parameters; a registration function acts on a scheme \<open>'s\<close>.
\<close>

section \<open>Definitions\<close>

record group_version =
  gv_Group :: string
  gv_Version :: string

text \<open>
  \<open>AddKnownTypes\<close> gets the names of the Go types, by which it registers them; \<open>Must\<close> gets the
  error or nil. \<open>BuilderRegister\<close> returns the builder it has updated.
\<close>

record ('b, 's, 'c) init_libs =
  NewScheme :: 's
  NewSchemeBuilder :: "('s, unit) go list \<Rightarrow> 'b"
  BuilderRegister :: "'b \<Rightarrow> ('s, unit) go list \<Rightarrow> 'b"
  BuilderAddToScheme :: "'b \<Rightarrow> ('s, unit) go"
  AddToGroupVersion :: "group_version \<Rightarrow> ('s, unit) go"
  AddKnownTypes :: "group_version \<Rightarrow> string list \<Rightarrow> ('s, unit) go"
  ClientGoAddToScheme :: "('s, unit) go"
  Must :: "error option \<Rightarrow> ('s, unit) go"
  NewConstraint :: "string \<Rightarrow> error + 'c"

text \<open>The variables of package \<open>v1alpha1\<close>.\<close>

record 'b api_vars =
  SchemeGroupVersion :: group_version
  GroupVersion :: group_version
  SchemeBuilder :: 'b

definition register_group :: "('b, 's, 'c) init_libs \<Rightarrow> group_version \<Rightarrow> ('s, unit) go" where
  "register_group lib gv = bind (AddToGroupVersion lib gv) (\<lambda>_. ret ())"

definition api_vars_init :: "('b, 's, 'c) init_libs \<Rightarrow> 'b api_vars" where
  "api_vars_init lib =
     (let schemeGroupVersion = \<lparr>gv_Group = ''netbox-herald.io'', gv_Version = ''v1alpha1''\<rparr> in
      \<lparr>SchemeGroupVersion = schemeGroupVersion, GroupVersion = schemeGroupVersion,
       SchemeBuilder = NewSchemeBuilder lib [register_group lib schemeGroupVersion]\<rparr>)"

text \<open>
  \<open>SchemeBuilder.AddToScheme\<close> is a method value with a pointer receiver: it reads the variable
  when it is called, not when \<open>AddToScheme\<close> is assigned.
\<close>

definition AddToScheme :: "('b, 's, 'c) init_libs \<Rightarrow> 'b api_vars \<Rightarrow> ('s, unit) go" where
  "AddToScheme lib vars = BuilderAddToScheme lib (SchemeBuilder vars)"

definition register_types :: "('b, 's, 'c) init_libs \<Rightarrow> group_version \<Rightarrow> ('s, unit) go" where
  "register_types lib gv = bind (AddKnownTypes lib gv [''HeraldConfig'', ''HeraldConfigList'']) (\<lambda>_. ret ())"

definition api_init :: "('b, 's, 'c) init_libs \<Rightarrow> 'b api_vars \<Rightarrow> 'b api_vars" where
  "api_init lib vars = vars\<lparr>SchemeBuilder :=
     BuilderRegister lib (SchemeBuilder vars) [register_types lib (SchemeGroupVersion vars)]\<rparr>"

text \<open>The \<open>init\<close> of \<open>version.go\<close>: the compiled constraint.\<close>

definition version_init :: "('b, 's, 'c) init_libs \<Rightarrow> ('s, 'c) go" where
  "version_init lib = (case NewConstraint lib SupportedVersionRange of Inl err \<Rightarrow> panic | Inr c \<Rightarrow> ret c)"

text \<open>The \<open>init\<close> of package \<open>main\<close>, on the scheme it has made.\<close>

definition main_init :: "('b, 's, 'c) init_libs \<Rightarrow> 'b api_vars \<Rightarrow> ('s, unit) go" where
  "main_init lib vars =
     (let must = (\<lambda>r. Must lib (case r of Inl err \<Rightarrow> Some err | Inr _ \<Rightarrow> None)) in
      bind (attempt (ClientGoAddToScheme lib)) (\<lambda>r. bind (must r) (\<lambda>_.
      bind (attempt (AddToScheme lib vars)) must)))"

text \<open>Packages are initialised after the packages they import: variables first, then \<open>init\<close>.\<close>

definition program_init :: "('b, 's, 'c) init_libs \<Rightarrow> 'c outcome \<times> 's" where
  "program_init lib =
     (let vars = api_init lib (api_vars_init lib) in
      bind (version_init lib) (\<lambda>c. bind (main_init lib vars) (\<lambda>_. ret c)) (NewScheme lib))"

section \<open>What the libraries document\<close>

text \<open>
  A builder runs the functions registered with it in order, up to the first error. \<open>known\<close> is
  what a scheme knows: kinds by group and version. Registering kinds nobody has registered yet
  succeeds and adds these; the kinds of client-go are of other groups, those that
  \<open>AddToGroupVersion\<close> adds are of meta/v1 (\<open>meta\<close>); \<open>Must\<close> panics on an error.
\<close>

definition builder_laws :: "('b, 's, 'c) init_libs \<Rightarrow> ('b \<Rightarrow> ('s, unit) go list) \<Rightarrow> bool" where
  "builder_laws lib funs \<longleftrightarrow> (\<forall>fs. funs (NewSchemeBuilder lib fs) = fs) \<and>
     (\<forall>b fs. funs (BuilderRegister lib b fs) = funs b @ fs) \<and>
     (\<forall>b. BuilderAddToScheme lib b = for_each (funs b) (\<lambda>f. f))"

definition scheme_laws :: "('b, 's, 'c) init_libs \<Rightarrow> ('s \<Rightarrow> (group_version \<times> string) set) \<Rightarrow> string set \<Rightarrow> bool" where
  "scheme_laws lib known meta \<longleftrightarrow> known (NewScheme lib) = {} \<and>
     (\<forall>gv kinds s. (\<forall>k \<in> set kinds. (gv, k) \<notin> known s) \<longrightarrow>
        (\<exists>s'. AddKnownTypes lib gv kinds s = (Ok (), s') \<and> known s' = known s \<union> {gv} \<times> set kinds)) \<and>
     (\<forall>gv s. \<exists>s'. AddToGroupVersion lib gv s = (Ok (), s') \<and> known s' = known s \<union> {gv} \<times> meta) \<and>
     (\<forall>s out s'. ClientGoAddToScheme lib s = (out, s') \<longrightarrow> out \<noteq> Panic \<and>
        (\<forall>(gv, k) \<in> known s' - known s. gv_Group gv \<noteq> ''netbox-herald.io'')) \<and>
     Must lib None = ret () \<and> (\<forall>e. Must lib (Some e) = panic)"

lemma scheme_lawsD:
  assumes "scheme_laws lib known meta"
  shows "(\<And>k. k \<in> set kinds \<Longrightarrow> (gv, k) \<notin> known s) \<Longrightarrow>
      \<exists>s'. AddKnownTypes lib gv kinds s = (Ok (), s') \<and> known s' = known s \<union> {gv} \<times> set kinds"
    and "\<exists>s'. AddToGroupVersion lib gv s = (Ok (), s') \<and> known s' = known s \<union> {gv} \<times> meta"
    and "ClientGoAddToScheme lib (NewScheme lib) = (out, s') \<Longrightarrow>
      out \<noteq> Panic \<and> ((gv, k) \<in> known s' \<longrightarrow> gv_Group gv \<noteq> ''netbox-herald.io'')"
    and "Must lib None = ret ()" and "Must lib (Some e) = panic"
proof -
  note s = assms[unfolded scheme_laws_def]
  show "\<exists>s'. AddToGroupVersion lib gv s = (Ok (), s') \<and> known s' = known s \<union> {gv} \<times> meta"
    "(\<And>k. k \<in> set kinds \<Longrightarrow> (gv, k) \<notin> known s) \<Longrightarrow>
      \<exists>s'. AddKnownTypes lib gv kinds s = (Ok (), s') \<and> known s' = known s \<union> {gv} \<times> set kinds"
    "Must lib None = ret ()" "Must lib (Some e) = panic" using s by simp_all
  assume "ClientGoAddToScheme lib (NewScheme lib) = (out, s')"
  then have "out \<noteq> Panic" "\<forall>(gv, k) \<in> known s' - {}. gv_Group gv \<noteq> ''netbox-herald.io''" using s by metis+
  then show "out \<noteq> Panic \<and> ((gv, k) \<in> known s' \<longrightarrow> gv_Group gv \<noteq> ''netbox-herald.io'')" by auto
qed

section \<open>The scheme the manager gets\<close>

lemma AddToScheme_runs:
  assumes "builder_laws lib funs"
  shows "AddToScheme lib (api_init lib (api_vars_init lib)) =
    for_each [register_group lib \<lparr>gv_Group = ''netbox-herald.io'', gv_Version = ''v1alpha1''\<rparr>,
      register_types lib \<lparr>gv_Group = ''netbox-herald.io'', gv_Version = ''v1alpha1''\<rparr>] (\<lambda>f. f)"
  using assms by (simp add: builder_laws_def AddToScheme_def api_init_def api_vars_init_def Let_def)

text \<open>
  The program starts exactly if the supported range compiles and client-go registers its types,
  and then the scheme knows both types of the custom resource under \<open>netbox-herald.io/v1alpha1\<close>,
  although \<open>AddToScheme\<close> is assigned before the types are registered with the builder.
\<close>

theorem program_init_registers:
  assumes b: "builder_laws lib funs" and s: "scheme_laws lib known meta"
    and meta: "''HeraldConfig'' \<notin> meta" "''HeraldConfigList'' \<notin> meta"
    and gv: "gv = \<lparr>gv_Group = ''netbox-herald.io'', gv_Version = ''v1alpha1''\<rparr>"
  shows "case NewConstraint lib SupportedVersionRange of
      Inl _ \<Rightarrow> fst (program_init lib) = Panic
    | Inr c \<Rightarrow>
        (case ClientGoAddToScheme lib (NewScheme lib) of
           (Ok _, s1) \<Rightarrow> fst (program_init lib) = Ok c \<and>
             known (snd (program_init lib)) = known s1 \<union> {gv} \<times> (meta \<union> {''HeraldConfig'', ''HeraldConfigList''})
         | _ \<Rightarrow> fst (program_init lib) = Panic)"
proof (cases "NewConstraint lib SupportedVersionRange")
  case (Inl e)
  then show ?thesis by (simp add: program_init_def version_init_def panic_def bind_def if_err_def)
next
  case (Inr c)
  note must = scheme_lawsD(4,5)[OF s]
  have add: "AddToScheme lib (api_init lib (api_vars_init lib)) =
      for_each [register_group lib gv, register_types lib gv] (\<lambda>f. f)" unfolding gv by (rule AddToScheme_runs[OF b])
  let ?vars = "api_init lib (api_vars_init lib)"
  note start = program_init_def version_init_def Inr Let_def bind_def if_err_def ret_def fail_def
  note run = main_init_def must attempt_def bind_def if_err_def ret_def panic_def fail_def
  obtain out s1 where client: "ClientGoAddToScheme lib (NewScheme lib) = (out, s1)" by fastforce
  have other: "(gv, k) \<notin> known s1" and "out \<noteq> Panic" for k
    using scheme_lawsD(3)[OF s client, of gv k] gv by auto
  show ?thesis
  proof (cases out)
    case (Ok u)
    from scheme_lawsD(2)[OF s] obtain s2
      where s2: "AddToGroupVersion lib gv s1 = (Ok (), s2)" "known s2 = known s1 \<union> {gv} \<times> meta" by blast
    have "(gv, k) \<notin> known s2" if "k \<in> set [''HeraldConfig'', ''HeraldConfigList'']" for k
      using other meta s2(2) that by auto
    from scheme_lawsD(1)[OF s this] obtain s3
      where s3: "AddKnownTypes lib gv [''HeraldConfig'', ''HeraldConfigList''] s2 = (Ok (), s3)"
        "known s3 = known s2 \<union> {gv} \<times> set [''HeraldConfig'', ''HeraldConfigList'']" by blast
    have "AddToScheme lib ?vars s1 = (Ok (), s3)"
      using s2(1) s3(1) by (simp add: add register_group_def register_types_def bind_def if_err_def ret_def)
    then have "main_init lib ?vars (NewScheme lib) = (Ok (), s3)" using client Ok by (simp add: run)
    then have "program_init lib = (Ok c, s3)" by (simp add: start)
    moreover have "known s3 = known s1 \<union> {gv} \<times> (meta \<union> {''HeraldConfig'', ''HeraldConfigList''})"
      unfolding s3(2) s2(2) by auto
    ultimately show ?thesis by (simp add: client Ok Inr)
  next
    case (Err e)
    then have "main_init lib ?vars (NewScheme lib) = (Panic, s1)" using client by (simp add: run)
    then have "program_init lib = (Panic, s1)" by (simp add: start)
    then show ?thesis using client Inr Err by simp
  qed (use \<open>out \<noteq> Panic\<close> in simp)
qed

section \<open>In memory\<close>

text \<open>A scheme as the set of the kinds it knows, and a builder as the list of its functions.\<close>

type_synonym mem_scheme = "(group_version \<times> string) set"

definition add_kinds :: "group_version \<Rightarrow> string set \<Rightarrow> (mem_scheme, unit) go" where
  "add_kinds gv kinds = (\<lambda>s. (Ok (), s \<union> {gv} \<times> kinds))"

definition mem_init_libs :: "((mem_scheme, unit) go list, mem_scheme, string) init_libs" where
  "mem_init_libs =
     \<lparr>NewScheme = {}, NewSchemeBuilder = (\<lambda>fs. fs), BuilderRegister = (@),
      BuilderAddToScheme = (\<lambda>fs. for_each fs (\<lambda>f. f)), AddToGroupVersion = (\<lambda>gv. add_kinds gv {''WatchEvent''}),
      AddKnownTypes = (\<lambda>gv kinds. add_kinds gv (set kinds)),
      ClientGoAddToScheme = add_kinds \<lparr>gv_Group = ''apps'', gv_Version = ''v1''\<rparr> {''Deployment''},
      Must = (\<lambda>e. if e = None then ret () else panic), NewConstraint = Inr\<rparr>"

lemma program_init_registers_witness:
  "fst (program_init mem_init_libs) = Ok SupportedVersionRange \<and>
   (\<lparr>gv_Group = ''netbox-herald.io'', gv_Version = ''v1alpha1''\<rparr>, ''HeraldConfig'') \<in> snd (program_init mem_init_libs)"
proof -
  have b: "builder_laws mem_init_libs (\<lambda>fs. fs)" by (simp add: builder_laws_def mem_init_libs_def)
  have s: "scheme_laws mem_init_libs (\<lambda>s. s) {''WatchEvent''}"
    by (auto simp: scheme_laws_def mem_init_libs_def add_kinds_def)
  have constraint: "NewConstraint mem_init_libs SupportedVersionRange = Inr SupportedVersionRange"
    and client: "ClientGoAddToScheme mem_init_libs (NewScheme mem_init_libs) =
      (Ok (), {(\<lparr>gv_Group = ''apps'', gv_Version = ''v1''\<rparr>, ''Deployment'')})"
    by (simp_all add: mem_init_libs_def add_kinds_def)
  from program_init_registers[OF b s _ _ refl] show ?thesis by (simp add: constraint client)
qed

end
