(* ===== verification/Spec2Isabelle.thy ===== *)
theory Spec2Isabelle
  imports Aggregate_Properties Owner_Properties Progress_Properties Failure_Properties Watch_Properties Main_Properties
    Invariant_Properties Copy_Properties E2E_Utils Full_Resync Call_Bounds Package_Init
begin

text \<open>
  netbox-herald is a Kubernetes operator that keeps a NetBox inventory in step with a cluster.
  One custom resource, the HeraldConfig named \<open>default\<close>, says where NetBox is and which types of
  object to sync. Five reconcilers (\<open>internal/controller\<close>) are called by controller-runtime with
  requests. The HeraldConfig reconciler connects to NetBox, checks its version, makes sure of
  the managed tag and the external-ID custom field, and publishes the spec and the client in a
  store (\<open>internal/config\<close>). The cluster, node, service and pod CIDR reconcilers take both from the
  store, read their Kubernetes object and call the \<open>netbox\<close> package (\<open>internal/netbox\<close>), which
  finds Herald's objects by managed tag and external ID and creates, updates or deletes them.

  \<^bold>\<open>How the code is modelled.\<close> A Go function that may fail is a HOL function into \<open>('w, 'a) go\<close>:
  from a state of the world to a value, an error or a panic, and the next state
  (\<open>Herald_Prelude\<close>). The world \<open>'w\<close> stands for everything outside the function: NetBox,
  Kubernetes, the clock, and for the reconcilers the shared store. The control flow of the
  source is kept: \<open>bind\<close> is \<open>if err != nil { return err }\<close>, \<open>wrap_err\<close> the same with
  \<open>fmt.Errorf\<close>, \<open>if_err\<close> an early return of something else, \<open>attempt\<close> an error kept as a value,
  \<open>deref\<close> a pointer dereference, \<open>for_each\<close> a loop that returns at the first error. An error
  keeps its format and arguments unrendered.

  \<^bold>\<open>Theories.\<close>
  \<^item> \<open>Herald_Prelude\<close>: outcomes, combinators, triples (partial results and no panic), \<open>keeps\<close>
    (a triple for an invariant) and its rule collection.
  \<^item> \<open>NetBox_Api\<close>: the models of go-netbox that the sources use, the calls as the record
    \<open>netbox_api\<close> (a parameter of every function of the package), the view of the stored objects,
    and \<open>lawful\<close>: what NetBox documents of these calls, pages and case-insensitive name filters
    included. \<open>api_keeps\<close> asks next to nothing of the API.
  \<^item> \<open>NetBox_Refs\<close> (\<open>refs.go\<close>), \<open>NetBox_Tags\<close> (\<open>tags.go\<close>, \<open>customfields.go\<close>), \<open>NetBox_Cluster\<close>
    (\<open>cluster.go\<close>), \<open>NetBox_Node\<close> (\<open>node.go\<close>), \<open>NetBox_Service\<close> (\<open>service.go\<close>), \<open>NetBox_PodCIDR\<close>
    (\<open>podcidr.go\<close>), \<open>NetBox_Config\<close> (\<open>client.go\<close>, \<open>config.go\<close>, \<open>version.go\<close>): the package, function
    by function.
  \<^item> \<open>NetBox_Managed\<close>, \<open>NetBox_Removal\<close>, \<open>NetBox_Sync\<close>: the interfaces the resource kinds share, as
    locales: find by external ID, create or update, delete by external ID, by NetBox ID and by
    name, what an owner has, counting, ensure-then-prune. Each is interpreted on the functions
    of the kind's own theory.
  \<^item> \<open>HeraldConfig_Types\<close> (\<open>api/v1alpha1/heraldconfig_types.go\<close>), \<open>Config_Store\<close> (\<open>store.go\<close>).
  \<^item> \<open>Go_Net\<close>, \<open>Go_Net_Facts\<close>: what the sources use of Go's \<open>net\<close>, \<open>net/netip\<close> and \<open>math/big\<close>.
    \<open>Supernets\<close>: \<open>computeSupernets\<close> and \<open>cidrForIP\<close>.
  \<^item> \<open>HeraldConfig_Controller\<close>, \<open>Cluster_Controller\<close>, \<open>Node_Controller\<close>, \<open>Service_Controller\<close>,
    \<open>PodCIDR_Controller\<close>: each \<open>Reconcile\<close> with its helpers and status updates. The Kubernetes
    client, the clock, the condition helper, the libraries and the NetBox behind a client are
    the record \<open>env\<close>.
  \<^item> \<open>Reconcilers\<close>: the five as one step function, and what every step keeps. \<open>NetBox_Steps\<close>: what a
    step does to NetBox as a relation of single writes (\<open>herald_step\<close>), and the locale
    \<open>view_invariant\<close>, which lifts whatever those writes preserve to every run of every reconciler;
    it is interpreted for the frame, for unique external IDs and for identified objects.
    \<open>Manager\<close>: the step relation of the running operator and its reachable states.
    \<open>Watches\<close>: the \<open>SetupWithManager\<close> methods as declarations of controllers, for a
    controller-runtime that does what is documented of it. \<open>Operator_Main\<close> (\<open>cmd/main.go\<close>): flags,
    server options, wiring and exit codes.
  \<^item> \<open>Package_Init\<close>: what runs before \<open>main\<close>: the variables and \<open>init\<close> functions of the packages
    (\<open>groupversion_info.go\<close>, \<open>heraldconfig_types.go\<close>, \<open>version.go\<close>, \<open>cmd/main.go\<close>), which register
    the types of the custom resource with the scheme.
  \<^item> \<open>Go_Memory\<close>: heaps, how types with pointers, maps and slices sit in them, and what a deep copy
    is, with one combinator and one lemma per way of building a type. \<open>Deep_Copy\<close>
    (\<open>zz_generated.deepcopy.go\<close>): every generated deep copy on such a heap.
  \<^item> \<open>E2E_Utils\<close> (\<open>test/utils/utils.go\<close>): what the end-to-end tests run commands and edit files with,
    on an operating system that is a parameter, and what uncommenting a part of a file does.
  \<^item> \<open>NetBox_Memory\<close>, \<open>NetBox_Unpaged\<close>, \<open>Kubernetes_Memory\<close>: a NetBox (paging its lists, or not) and a
    Kubernetes API in memory. They satisfy the hypotheses made of the real ones, and the witnesses
    run the functions on them.
  \<^item> The properties: \<open>NetBox_Properties\<close> (the functions of the package), \<open>Controller_Properties\<close> and
    \<open>Aggregate_Properties\<close> (what a reconcile that ends in a resync has achieved),
    \<open>Owner_Properties\<close> (several Services or Nodes, syncing again, more than one page),
    \<open>Progress_Properties\<close> (on a NetBox that answers, Service and pod CIDR reconciles end in a
    resync), \<open>Full_Resync\<close> (reconciles of all Services and Nodes of a quiet cluster, in any order,
    bring NetBox in line with all of them), \<open>Call_Bounds\<close> (a calculus that counts external calls,
    and how long each reconcile takes at most), \<open>Watch_Properties\<close> (whom an event wakes, changes that arrive before the store does),
    \<open>Main_Properties\<close> (command line, hardening of the servers, order of the start-up),
    \<open>Connection_Properties\<close> (the client of a spec, the HeraldConfig reconcile, when a reconcile is
    run again), \<open>Status_Properties\<close> (statuses, vanished objects), \<open>Failure_Properties\<close> (what becomes of a
    failed sync),
    \<open>Address_Properties\<close> (supernets, host prefixes), \<open>Invariant_Properties\<close> (what any number of
    reconciles keeps of NetBox), \<open>Orphan_Properties\<close> (deletions the operator was not told of),
    \<open>Copy_Properties\<close> (the deep copies), and this theory (the manager).

  \<^bold>\<open>What is shown.\<close> For external calls that do not panic, give created tags a slug and return
  TLS transports of the standard type: no reconcile panics (the three unchecked type assertions, on
  external IDs and on the TLS transport, and the tag's slug pointer included) and the store is consistent.
  For a lawful NetBox: a reconcile changes nothing but objects with the managed tag, the tag and
  the custom field; each function of the package implements an abstract operation on the stored
  objects; and a reconcile that asks for its periodic resync has brought NetBox in line with the
  Kubernetes object it read. Functions that list by tag see one page only (the sources do not
  page), so whatever needs to see all managed objects is stated under the condition that they
  fit on a page; nothing else depends on it, and \<open>second_page_duplicate\<close> shows what happens when the
  condition fails: an object that is not on the page is created again and never deleted. All functions are total: every loop of the sources
  runs over a list, so no fuel is needed; the two recursions of \<open>Go_Net\<close> that count down
  (\<open>leading_ones\<close> and \<open>parseIPv6_loop\<close>) start from the 8 bits of a byte and the 8 groups of an
  address.

  What the operator is started with is shown to lead to the states \<open>Manager\<close> speaks of: to an observer
  with a log of the calls of the process, \<open>main\<close> registers all five controllers and both checks before the
  manager runs on an empty store, or exits with 1 at the first failure, and every later state of
  the manager is reached from there by reconciles. Each controller is woken for exactly its
  objects when the spec of the HeraldConfig changes and never by a status update. A reconcile
  that runs before a changed spec is published follows the published one and reports the generation
  of the changed one. Statuses, counts included, and vanished objects are characterised for the runs
  that do not end in a resync; a failed sync is shown to leave its error in the status only; and for a
  NetBox whose calls do not fail the syncs are shown to succeed.

  Over the whole of a cluster, the liveness results compose: one reconcile for each of its Services
  and Nodes, in any order, ends with NetBox as all of them want it, if everything fits on a page,
  since what one reconcile writes is apart from what another needs. Every reconcile is over
  within a number of external calls that depends on the sizes of a page, of its object and, for
  aggregates, of the cluster only; the bounds (\<open>call_bound\<close>) count the longest path.

  Over any number of reconciles, whatever they return: managed objects keep their external IDs,
  and, on a NetBox that does not page, these stay unique; what a missed deletion left behind is
  never removed. The values the reconcilers work on are immutable here, as the code treats them:
  the deep copies, by which the cache hands out objects, are shown to share no memory with what
  they copy, if apimachinery's own do not.

  \<^bold>\<open>What is assumed.\<close> \<open>lawful\<close> and \<open>lawful_world\<close> (NetBox stores what is written, lists what it stores page by
  page, and a deletion takes along no other object of the six kinds Herald writes: NetBox cascades
  deletions, of a device to its interfaces and their IP addresses for one, but Herald attaches nothing
  it writes to an interface); \<open>keeps_store\<close> (an external call does not change the store); \<open>externals_keep\<close>
  (external calls keep an invariant and do not panic, created tags have a slug, TLS transports are
  \<open>http.Transport\<close>s); \<open>documented\<close> (controller-runtime's predicates and handlers), \<open>documented_copies\<close>
  (apimachinery's deep copies), \<open>observed\<close> (the log of the process). Each is shown to hold of a concrete
  instance, on which the witnesses run.

  \<^bold>\<open>Not modelled.\<close> Logging and its flags, contexts, signal handling and the rendering of error texts;
  of the files that are covered, licence headers, imports and comments. The manager of controller-runtime and its queues are parameters. The mutex of
  the store makes each access atomic, which it is here. Reconciles of different reconcilers run
  concurrently in the operator; here what others do during an external call is part of that
  call's effect on the world, and the sources touch shared state at external calls and store
  accesses only, except that a published spec is decoded into by a later status update of the
  same reconcile, which \<open>StoreDecoded\<close> makes one step.
\<close>

section \<open>The manager\<close>

lemma reconcile_keeps_store_ok:
  "externals_keep (\<lambda>w. store_ok (w_store w)) env \<Longrightarrow> keeps (\<lambda>w. store_ok (w_store w)) (reconcile r env req)"
  by (rule reconcile_keeps[OF _ store_ok_stable])

text \<open>C1: in every state the manager reaches, no reconcile of any of the five reconcilers with
  any request panics, and the store never holds a spec without a client or a client without a spec.
  This holds as long as the external calls do not panic themselves, keep that property of the store,
  give a tag they return from a creation a slug (the code dereferences it), and return TLS
  transports that are an \<open>http.Transport\<close> (the code asserts it); they may fail in any
  way and return anything else.\<close>

theorem manager_never_panics:
  assumes ext: "externals_keep (\<lambda>w. store_ok (w_store w)) env" and "reachable env w"
  shows "fst (reconcile r env req w) \<noteq> Panic \<and> store_ok (w_store w)"
  using triple_no_panic[OF keepsD[OF reconcile_keeps_store_ok[OF ext]] reachable_store_ok[OF assms]]
    reachable_store_ok[OF assms] by blast

theorem manager_never_panics_witness:
  "fst (reconcile NodeReconciler (mem_env 50) \<lparr>rq_Namespace = [], rq_Name = ''node-1''\<rparr>
     (snd (reconcile HeraldConfigReconciler (mem_env 50) \<lparr>rq_Namespace = [], rq_Name = ''default''\<rparr> fresh_world))) \<noteq> Panic"
proof -
  have "reachable (mem_env 50) fresh_world" by (rule start) (simp add: fresh_world_def)
  then have "reachable (mem_env 50)
      (snd (reconcile HeraldConfigReconciler (mem_env 50) \<lparr>rq_Namespace = [], rq_Name = ''default''\<rparr> fresh_world))"
    by (rule later) (rule reconciled[OF prod.collapse[symmetric]])
  from manager_never_panics[OF externals_keep_store this] show ?thesis by blast
qed

text \<open>C2: a reconcile touches nothing of others in NetBox: no object without the managed tag
  of the published spec changes or goes, reference objects stay as they are, and no tag or custom
  field changes or goes. This holds for every reconciler and request, when the run fails too, on a
  NetBox whose deletion of an object removes no other object of the kinds Herald lists.\<close>

theorem reconcile_frame:
  assumes law: "lawful_world psize view env"
    and slug: "\<And>spec. sto_spec (w_store w) = Some spec \<Longrightarrow> resolveManagedTagSlug spec = slug"
    and run: "reconcile r env req w = (out, w')"
  shows "safe slug (view w) (view w')"
  by (rule frame.reconcile_run[OF law slug safe_refl run])

theorem reconcile_frame_witness:
  "safe demo_slug (mem_view live_world)
     (mem_view (snd (reconcile NodeReconciler (mem_env 50) \<lparr>rq_Namespace = [], rq_Name = ''node-1''\<rparr> live_world)))"
  by (rule reconcile_frame[OF lawful_mem_env _ prod.collapse[symmetric]]) (simp add: live_store demo_slug_resolved)

end
